(* ===== verification/Prelude.thy ===== *)
theory Prelude
  imports Main "HOL-Library.Char_ord" "HOL-Library.List_Lexorder"
begin

text \<open>
  Shared vocabulary of the webserv development.  The C++ sources call a small
  utility library (\<open>utils::split\<close>, \<open>utils::splitPair\<close>, \<open>utils::find\<close>,
  \<open>utils::stoi\<close>, \<open>utils::to_string\<close>) whose code is not part of the repository's
  \<open>src/\<close>; the spec (section 1) fixes only its contract, and these definitions are
  written from that contract.  Strings are \<open>char list\<close>s, one \<open>char\<close> per byte,
  as \<open>std::string\<close> stores them.  The theory also holds the lemma collection
  \<open>str_simps\<close> that the component theories use to evaluate parsers on
  concrete requests.
\<close>

named_theorems str_simps "evaluation facts for the string utilities"

type_synonym str = "char list"

abbreviation CR :: char where "CR \<equiv> CHR 0x0D"
abbreviation LF :: char where "LF \<equiv> CHR 0x0A"
abbreviation crlf :: str where "crlf \<equiv> [CR, LF]"
abbreviation crlf2 :: str where "crlf2 \<equiv> [CR, LF, CR, LF]"

subsection \<open>Searching a string (std::string::find)\<close>

fun starts_with :: "str \<Rightarrow> str \<Rightarrow> bool" where
  "starts_with s [] = True"
| "starts_with [] (c # p) = False"
| "starts_with (a # s) (c # p) = (a = c \<and> starts_with s p)"

text \<open>\<open>find_sub d s\<close> is \<open>s.find(d)\<close>: the first index at which \<open>d\<close> occurs,
  \<open>None\<close> for \<open>std::string::npos\<close>.\<close>

fun find_sub :: "str \<Rightarrow> str \<Rightarrow> nat option" where
  "find_sub d [] = (if d = [] then Some 0 else None)"
| "find_sub d (c # s) =
     (if starts_with (c # s) d then Some 0 else map_option Suc (find_sub d s))"

text \<open>\<open>find_char c s\<close> is \<open>s.find_first_of(c)\<close> for a one-character set,
  and \<open>find_last_char\<close> is \<open>s.find_last_of(c)\<close>.\<close>

definition find_char :: "char \<Rightarrow> str \<Rightarrow> nat option" where
  "find_char c s = find_sub [c] s"

definition find_last_char :: "char \<Rightarrow> str \<Rightarrow> nat option" where
  "find_last_char c s =
     (if c \<in> set s then Some (length s - 1 - the (find_char c (rev s))) else None)"

subsection \<open>Splitting (utils::splitPair, utils::split)\<close>

text \<open>\<open>utils::splitPair(s, d)\<close>: the text before the first occurrence of \<open>d\<close> and
  the text after it; when \<open>d\<close> does not occur, the whole string and the empty one.\<close>

definition split_pair :: "str \<Rightarrow> str \<Rightarrow> str \<times> str" where
  "split_pair s d =
     (case find_sub d s of
        None \<Rightarrow> (s, [])
      | Some i \<Rightarrow> (take i s, drop (i + length d) s))"

lemma starts_with_iff [str_simps]: "starts_with s p \<longleftrightarrow> (\<exists>r. s = p @ r)"
  by (induction s p rule: starts_with.induct) auto

lemma starts_with_append [simp]: "starts_with (p @ r) p"
  by (simp add: starts_with_iff)

lemma find_sub_le: "find_sub d s = Some i \<Longrightarrow> i + length d \<le> length s"
proof (induction d s arbitrary: i rule: find_sub.induct)
  case (1 d)
  then show ?case by (simp split: if_splits)
next
  case (2 d c s)
  show ?case
  proof (cases "starts_with (c # s) d")
    case True
    then obtain r where "c # s = d @ r" by (auto simp: starts_with_iff)
    then have "length (c # s) = length d + length r" by simp
    with True "2.prems" show ?thesis by simp
  next
    case False
    with "2.prems" obtain j where "find_sub d s = Some j" "i = Suc j" by auto
    with "2.IH" False show ?thesis by auto
  qed
qed

text \<open>\<open>utils::split(s, d)\<close> for a string delimiter: the pieces of \<open>s\<close> between
  successive occurrences of \<open>d\<close>, empty pieces kept, so there is always at least one
  piece.  \<open>WebServer::parseHeader\<close> reads \<open>requestHeader[0]\<close> of the split of the
  empty buffer of every fresh connection, so the contract the code relies on is that
  this piece exists.\<close>

function split_str :: "str \<Rightarrow> str \<Rightarrow> str list" where
  "split_str s d =
     (if d = [] then [s]
      else case find_sub d s of
        None \<Rightarrow> [s]
      | Some i \<Rightarrow> take i s # split_str (drop (i + length d) s) d)"
  by pat_completeness auto
termination
proof (relation "measure (\<lambda>(s, d). length s)")
  fix s d i
  assume "d \<noteq> []" "find_sub d s = Some i"
  then show "((drop (i + length d) s, d), s, d) \<in> measure (\<lambda>(s, d). length s)"
    using find_sub_le [of d s i] by (cases d) auto
qed auto

declare split_str.simps [simp del]

text \<open>\<open>utils::split(s, c)\<close> for a character delimiter, with the semantics of
  \<open>std::getline\<close> on a string stream: the same pieces, but a last empty piece is not
  produced, so the empty string has no pieces (the spec: an empty request line is a
  400).\<close>

definition split_chr :: "str \<Rightarrow> char \<Rightarrow> str list" where
  "split_chr s c = (let ps = split_str s [c] in if last ps = [] then butlast ps else ps)"

subsection \<open>Numbers (utils::stoi, utils::to_string)\<close>

definition is_digit :: "char \<Rightarrow> bool" where
  "is_digit c \<longleftrightarrow> CHR ''0'' \<le> c \<and> c \<le> CHR ''9''"

definition digit_val :: "char \<Rightarrow> nat" where
  "digit_val c = of_char c - 48"

fun digits_val :: "nat \<Rightarrow> str \<Rightarrow> nat" where
  "digits_val acc [] = acc"
| "digits_val acc (c # s) = digits_val (10 * acc + digit_val c) s"

text \<open>\<open>utils::stoi(s, fallback)\<close>: the decimal value of a non-empty run of digits,
  the fallback for anything else.\<close>

definition stoi :: "str \<Rightarrow> int \<Rightarrow> int" where
  "stoi s fb = (if s \<noteq> [] \<and> list_all is_digit s then int (digits_val 0 s) else fb)"

fun dec_nat :: "nat \<Rightarrow> str" where
  "dec_nat n = (if n < 10 then [char_of (48 + n)] else dec_nat (n div 10) @ [char_of (48 + n mod 10)])"

declare dec_nat.simps [simp del]

text \<open>Decimal printing of an \<open>int\<close>, as \<open>std::ostream << int\<close> and
  \<open>utils::to_string\<close> do.\<close>

definition to_string :: "int \<Rightarrow> str" where
  "to_string i = (if i < 0 then CHR ''-'' # dec_nat (nat (- i)) else dec_nat (nat i))"

subsection \<open>Facts shared by the components\<close>

lemma split_str_nonempty [simp]: "split_str s d \<noteq> []"
  by (subst split_str.simps) (auto split: option.split)

lemma starts_with_take: "starts_with s d \<longleftrightarrow> take (length d) s = d"
  by (induction s d rule: starts_with.induct) auto

lemma starts_with_append_long:
  "length d \<le> length s \<Longrightarrow> starts_with (s @ t) d = starts_with s d"
  by (simp add: starts_with_take)

text \<open>The first occurrence of a delimiter stays the first when text is appended: the
  fact behind re-parsing a growing receive buffer.\<close>

lemma find_sub_append:
  "find_sub d s = Some i \<Longrightarrow> find_sub d (s @ t) = Some i"
proof (induction d s arbitrary: i rule: find_sub.induct)
  case (1 d)
  then show ?case by (cases t) (auto split: if_splits)
next
  case (2 d c s)
  show ?case
  proof (cases "starts_with (c # s) d")
    case True
    then have "starts_with ((c # s) @ t) d" by (metis starts_with_iff append_assoc)
    with "2.prems" True show ?thesis by simp
  next
    case False
    with "2.prems" obtain j where j: "find_sub d s = Some j" "i = Suc j" by auto
    from find_sub_le [OF j(1)] have "length d \<le> length (c # s)" by simp
    with False have "\<not> starts_with ((c # s) @ t) d"
      using starts_with_append_long [of d "c # s" t] by simp
    with "2.IH" [OF False j(1)] j(2) show ?thesis by simp
  qed
qed

lemma find_sub_append_None:
  "find_sub d s = None \<Longrightarrow> find_sub d (s @ t) = map_option ((+) (length s)) (find_sub d t) \<or>
     (\<exists>i. find_sub d (s @ t) = Some i \<and> i < length s)"
proof (induction d s rule: find_sub.induct)
  case (1 d)
  then show ?case by (simp add: option.map_ident)
next
  case (2 d c s)
  show ?case
  proof (cases "starts_with ((c # s) @ t) d")
    case True
    then show ?thesis by auto
  next
    case False
    with "2.prems" have "find_sub d s = None" by (auto split: if_splits)
    with "2.prems" "2.IH" False show ?thesis
      by (auto simp: option.map_comp o_def split: if_splits)
  qed
qed

lemma split_pair_append:
  "find_sub d s = Some i \<Longrightarrow>
     split_pair (s @ t) d = (fst (split_pair s d), snd (split_pair s d) @ t)"
  using find_sub_le [of d s i] by (simp add: split_pair_def find_sub_append)

lemma digits_val_snoc: "digits_val acc (xs @ [c]) = 10 * digits_val acc xs + digit_val c"
  by (induction acc xs rule: digits_val.induct) auto

lemma dec_nat_digits: "dec_nat n \<noteq> [] \<and> list_all is_digit (dec_nat n) \<and> digits_val 0 (dec_nat n) = n"
proof (induction n rule: dec_nat.induct)
  case (1 n)
  have dig: "\<And>d. d < 10 \<Longrightarrow> is_digit (char_of (48 + d)) \<and> digit_val (char_of (48 + d)) = d"
    by (auto simp: is_digit_def digit_val_def less_eq_char_def of_char_of)
  show ?case
  proof (cases "n < 10")
    case True
    with dig [of n] show ?thesis by (simp add: dec_nat.simps [of n])
  next
    case False
    with "1.IH" dig [of "n mod 10"] show ?thesis
      by (simp add: dec_nat.simps [of n] digits_val_snoc)
  qed
qed

text \<open>Round trip: \<open>utils::stoi\<close> reads back what \<open>utils::to_string\<close> printed.\<close>

lemma stoi_to_string: "0 \<le> i \<Longrightarrow> stoi (to_string i) fb = i"
  using dec_nat_digits [of "nat i"] by (simp add: stoi_def to_string_def)

text \<open>A prefix that does not contain the first character of the delimiter cannot
  hold an occurrence: the search skips it.  This carries the framing lemmas of the
  request and response theories.\<close>

lemma find_sub_skip:
  "d \<noteq> [] \<Longrightarrow> hd d \<notin> set s \<Longrightarrow> find_sub d (s @ t) = map_option ((+) (length s)) (find_sub d t)"
proof (induction s)
  case Nil
  then show ?case by (simp add: option.map_ident)
next
  case (Cons c s)
  then have "\<not> starts_with (c # s @ t) d" by (cases d) auto
  with Cons show ?case by (simp add: option.map_comp o_def)
qed

lemma find_sub_self [simp]: "find_sub d (d @ b) = Some 0"
proof (cases "d @ b")
  case (Cons c r)
  then have "starts_with (c # r) d" by (metis starts_with_append)
  with Cons show ?thesis by simp
qed simp

lemma split_str_skip:
  "d \<noteq> [] \<Longrightarrow> hd d \<notin> set a \<Longrightarrow> split_str (a @ d @ b) d = a # split_str b d"
  using find_sub_skip [of d a "d @ b"]
  by (subst split_str.simps) simp

lemma split_str_last:
  "d \<noteq> [] \<Longrightarrow> hd d \<notin> set a \<Longrightarrow> split_str a d = [a]"
  using find_sub_skip [of d a "[]"]
  by (subst split_str.simps) (cases d, auto)

lemma split_pair_skip:
  "d \<noteq> [] \<Longrightarrow> hd d \<notin> set a \<Longrightarrow> split_pair (a @ d @ b) d = (a, b)"
  using find_sub_skip [of d a "d @ b"] by (simp add: split_pair_def)

lemma find_char_None: "find_char c t = None \<longleftrightarrow> c \<notin> set t"
  unfolding find_char_def by (induction t) auto

lemma find_char_Some:
  "find_char c t = Some q \<Longrightarrow> t = take q t @ c # drop (Suc q) t \<and> c \<notin> set (take q t)"
  unfolding find_char_def
proof (induction t arbitrary: q)
  case Nil
  then show ?case by simp
next
  case (Cons a t)
  then show ?case by (cases "a = c") (auto split: if_splits)
qed

lemma split_chr_Nil [simp]: "split_chr [] c = []"
  by (simp add: split_chr_def split_str.simps)

end
