(* ===== verification/StdMap.thy ===== *)
theory StdMap
  imports Prelude
begin

text \<open>
  \<open>std::map\<close> as the sources use it: the response headers of \<open>MethodIO::rInfo\<close>,
  the connection buffers \<open>buffMap\<close>, the port maps of \<open>WebServer\<close> and the
  error-page table of a scope.  A \<open>std::map\<close> iterates in ascending key order,
  which decides the order in which \<open>MethodIO::generateResponse\<close> emits the
  headers; so it is modelled as an association list sorted by key, not as a bare
  function.  \<open>sm_set\<close> is \<open>m[k] = v\<close>, \<open>sm_insert\<close> is \<open>m.insert(pair)\<close>
  (which keeps an existing entry), \<open>sm_index\<close> is a read through
  \<open>operator[]\<close> (which inserts a default value), \<open>sm_erase\<close> is \<open>m.erase(k)\<close>.
  The invariant \<open>sm_inv\<close> (strictly ascending keys) holds for every map the
  operations build, and each operation refines the corresponding operation on the
  abstract map \<open>map_of\<close>.
\<close>

type_synonym ('k, 'v) stdmap = "('k \<times> 'v) list"

fun sm_set :: "'k::linorder \<Rightarrow> 'v \<Rightarrow> ('k, 'v) stdmap \<Rightarrow> ('k, 'v) stdmap" where
  "sm_set k v [] = [(k, v)]"
| "sm_set k v ((k', v') # m) =
     (if k < k' then (k, v) # (k', v') # m
      else if k = k' then (k, v) # m
      else (k', v') # sm_set k v m)"

definition sm_lookup :: "('k, 'v) stdmap \<Rightarrow> 'k \<Rightarrow> 'v option" where
  "sm_lookup m k = map_of m k"

definition sm_insert :: "'k::linorder \<times> 'v \<Rightarrow> ('k, 'v) stdmap \<Rightarrow> ('k, 'v) stdmap" where
  "sm_insert kv m = (case map_of m (fst kv) of None \<Rightarrow> sm_set (fst kv) (snd kv) m | Some _ \<Rightarrow> m)"

definition sm_index :: "'k::linorder \<Rightarrow> 'v \<Rightarrow> ('k, 'v) stdmap \<Rightarrow> 'v \<times> ('k, 'v) stdmap" where
  "sm_index k dflt m = (case map_of m k of None \<Rightarrow> (dflt, sm_set k dflt m) | Some v \<Rightarrow> (v, m))"

fun sm_erase :: "'k \<Rightarrow> ('k, 'v) stdmap \<Rightarrow> ('k, 'v) stdmap" where
  "sm_erase k [] = []"
| "sm_erase k ((k', v') # m) = (if k = k' then m else (k', v') # sm_erase k m)"

definition sm_inv :: "('k::linorder, 'v) stdmap \<Rightarrow> bool" where
  "sm_inv m \<longleftrightarrow> sorted_wrt (<) (map fst m)"

subsection \<open>The invariant\<close>

lemma sm_inv_Nil [simp]: "sm_inv []"
  by (simp add: sm_inv_def)

lemma sm_inv_Cons: "sm_inv ((k, v) # m) \<longleftrightarrow> sm_inv m \<and> (\<forall>k' \<in> set (map fst m). k < k')"
  by (auto simp: sm_inv_def)

lemma set_sm_set_keys: "set (map fst (sm_set k v m)) = insert k (set (map fst m))"
  by (induction k v m rule: sm_set.induct) auto

lemma sm_set_inv: "sm_inv m \<Longrightarrow> sm_inv (sm_set k v m)"
proof (induction m)
  case Nil
  then show ?case by (simp add: sm_inv_def)
next
  case (Cons kv m)
  obtain k' v' where kv: "kv = (k', v')" by fastforce
  from Cons.prems kv have m: "sm_inv m" and lt: "\<forall>x \<in> set (map fst m). k' < x"
    by (auto simp: sm_inv_Cons)
  show ?case
  proof (cases "k < k'")
    case True
    with Cons.prems kv lt show ?thesis by (auto simp: sm_inv_Cons)
  next
    case ge: False
    show ?thesis
    proof (cases "k = k'")
      case True
      with Cons.prems kv show ?thesis by (simp add: sm_inv_Cons)
    next
      case ne: False
      with lt ge have "\<forall>x \<in> set (map fst (sm_set k v m)). k' < x"
        by (auto simp: set_sm_set_keys simp del: set_map)
      with Cons.IH [OF m] ge ne kv show ?thesis
        by (auto simp: sm_inv_Cons simp del: set_map)
    qed
  qed
qed

lemma sm_erase_keys: "set (map fst (sm_erase k m)) \<subseteq> set (map fst m)"
  by (induction k m rule: sm_erase.induct) auto

lemma sm_erase_inv: "sm_inv m \<Longrightarrow> sm_inv (sm_erase k m)"
  by (induction k m rule: sm_erase.induct) (use sm_erase_keys in \<open>fastforce simp: sm_inv_Cons\<close>)+

lemma sm_insert_inv: "sm_inv m \<Longrightarrow> sm_inv (sm_insert kv m)"
  by (simp add: sm_insert_def sm_set_inv split: option.split)

lemma sm_index_inv: "sm_inv m \<Longrightarrow> sm_inv (snd (sm_index k d m))"
  by (simp add: sm_index_def sm_set_inv split: option.split)

lemmas sm_invs = sm_set_inv sm_erase_inv sm_insert_inv sm_index_inv

subsection \<open>Refinement of the abstract map\<close>

lemma map_of_sm_set [simp]: "map_of (sm_set k v m) = (map_of m)(k \<mapsto> v)"
  by (induction k v m rule: sm_set.induct) (auto simp: fun_eq_iff)

lemma map_of_sm_erase: "sm_inv m \<Longrightarrow> map_of (sm_erase k m) = (map_of m)(k := None)"
proof (induction m)
  case Nil
  then show ?case by simp
next
  case (Cons kv m)
  obtain k' v' where kv: "kv = (k', v')" by fastforce
  with Cons.prems have "sm_inv m" "\<forall>x \<in> set (map fst m). k' < x" by (auto simp: sm_inv_Cons)
  then have "map_of m k' = None" by (auto simp: map_of_eq_None_iff)
  with Cons.IH \<open>sm_inv m\<close> kv show ?case by (auto simp: fun_eq_iff)
qed

lemma map_of_sm_insert:
  "map_of (sm_insert (k, v) m) = (if k \<in> dom (map_of m) then map_of m else (map_of m)(k \<mapsto> v))"
  by (auto simp: sm_insert_def split: option.split)

lemma sm_index_val: "fst (sm_index k d m) = (case map_of m k of None \<Rightarrow> d | Some v \<Rightarrow> v)"
  by (simp add: sm_index_def split: option.split)

lemma map_of_sm_index: "map_of (snd (sm_index k d m)) k = Some (fst (sm_index k d m))"
  by (simp add: sm_index_def split: option.split)

lemma sm_index_other: "k' \<noteq> k \<Longrightarrow> map_of (snd (sm_index k d m)) k' = map_of m k'"
  by (simp add: sm_index_def split: option.split)

text \<open>Iteration order: the keys of a map that satisfies the invariant come out in
  ascending order, each once, which is the order \<open>std::map\<close> iterators visit.\<close>

lemma sm_keys_sorted: "sm_inv m \<Longrightarrow> map fst m = sorted_list_of_set (dom (map_of m))"
proof -
  assume "sm_inv m"
  then have "sorted (map fst m)" "distinct (map fst m)"
    by (auto simp: sm_inv_def strict_sorted_iff)
  then have "sorted_list_of_set (set (map fst m)) = map fst m"
    by (rule sorted_list_of_set.idem_if_sorted_distinct)
  moreover have "dom (map_of m) = set (map fst m)" by (simp add: dom_map_of_conv_image_fst)
  ultimately show ?thesis by simp
qed

lemma map_of_rebuild:
  "distinct (map fst a) \<Longrightarrow> map (\<lambda>k. (k, the (map_of a k))) (map fst a) = a"
proof (induction a)
  case Nil
  then show ?case by simp
next
  case (Cons kv a)
  obtain k v where kv: "kv = (k, v)" by fastforce
  with Cons.prems have "k \<notin> set (map fst a)" by simp
  then have "map (\<lambda>k'. (k', the (map_of (kv # a) k'))) (map fst a) =
             map (\<lambda>k'. (k', the (map_of a k'))) (map fst a)"
    using kv by (intro map_cong) auto
  with Cons kv show ?case by simp
qed

text \<open>A \<open>std::map\<close> is determined by its contents: two maps that satisfy the
  invariant and hold the same entries are the same list.\<close>

lemma sm_eq_map_of: "sm_inv a \<Longrightarrow> sm_inv b \<Longrightarrow> map_of a = map_of b \<Longrightarrow> a = b"
proof -
  assume a: "sm_inv a" and b: "sm_inv b" and ab: "map_of a = map_of b"
  from a b ab have keys: "map fst a = map fst b" by (simp add: sm_keys_sorted)
  from a b have "distinct (map fst a)" "distinct (map fst b)"
    by (auto simp: sm_inv_def strict_sorted_iff)
  then have "a = map (\<lambda>k. (k, the (map_of a k))) (map fst a)"
        and "b = map (\<lambda>k. (k, the (map_of b k))) (map fst b)"
    by (simp_all only: map_of_rebuild)
  with keys ab show "a = b" by simp
qed

lemma sm_set_sm_set [simp]: "sm_set k v (sm_set k w m) = sm_set k v m"
  by (induction k w m rule: sm_set.induct) auto

end
