(* ===== verification/Message.thy ===== *)
theory Message
  imports StdMap
begin

text \<open>
  The MessageAssembler: the request record \<open>MethodIO::rInfo\<close>, the exceptions the
  request pipeline raises, and the two parsers of the raw receive buffer,
  \<open>MethodIO::tokenize\<close> (src/src/MethodIO.cpp) used by the pipeline and
  \<open>WebServer::parseHeader\<close> (src/src/WebServer.cpp) used by the framing check of the
  event loop.  Both split the buffer at the first CRLFCRLF; \<open>tokenize\<close> also derives
  the query and the query path and rejects an empty request line.  An out-of-range
  \<open>std::vector::operator[]\<close> is undefined behaviour in C++ and an uncaught standard
  exception terminates the process; both are the error \<open>Crash\<close> of the model, which no
  handler of the sources catches.
\<close>

datatype exn =
    RequestException str int  \<comment> \<open>\<open>RequestException(msg, code)\<close>, caught in \<open>getMessageToSend\<close>\<close>
  | Crash str                 \<comment> \<open>undefined behaviour or an uncaught standard exception\<close>

record rinfo =
  request :: "str list"
  headers :: "(str, str) stdmap"
  body :: str
  query :: str
  queryPath :: str
  path :: str
  port :: str
  exist :: bool
  code :: int

text \<open>A freshly declared \<open>rInfo\<close>: empty containers and strings.  The header of the
  struct is not in \<open>src/\<close>; \<open>exist\<close> and \<open>code\<close> are taken to start as false and
  0, which is what the pipeline's reads of them assume.\<close>

definition empty_rinfo :: rinfo where
  "empty_rinfo = \<lparr>request = [], headers = [], body = [], query = [], queryPath = [], path = [],
     port = [], exist = False, code = 0\<rparr>"

definition insert_header_lines :: "str list \<Rightarrow> (str, str) stdmap \<Rightarrow> (str, str) stdmap" where
  "insert_header_lines ls m = fold (\<lambda>l. sm_insert (split_pair l '': '')) ls m"

text \<open>\<open>MethodIO::tokenize(s, rsi)\<close>, lines 393--425.  \<open>requestHeader[0]\<close> always
  exists (\<open>split_str\<close> returns a piece); \<open>request[1]\<close> is read on every branch and is
  a crash when the request line has one word.  The POST branch stores the header
  section in \<open>body\<close> and then line 424 overwrites it with the text after the
  delimiter, on every branch.\<close>

definition tokenize :: "str \<Rightarrow> rinfo \<Rightarrow> exn + rinfo" where
  "tokenize s rsi =
     (let (hdr, bdy) = split_pair s crlf2;
          rh = split_str hdr crlf;
          rsi1 = rsi\<lparr>request := split_chr (hd rh) (CHR '' ''),
                     headers := insert_header_lines (tl rh) (headers rsi)\<rparr>
      in if request rsi1 = [] then Inl (RequestException ''Bad Request (Empty)'' 400)
         else if length (request rsi1) < 2 then Inl (Crash ''request[1] out of range'')
         else
           let m = request rsi1 ! 0; tgt = request rsi1 ! 1;
               rsi2 = (if m = ''GET'' then
                         (case find_char (CHR ''?'') tgt of
                            Some q \<Rightarrow> rsi1\<lparr>query := drop (q + 1) tgt, queryPath := take q tgt\<rparr>
                          | None \<Rightarrow> rsi1\<lparr>queryPath := tgt\<rparr>)
                       else if m = ''POST'' then
                         rsi1\<lparr>body := hdr, query := last (split_str s crlf), queryPath := tgt\<rparr>
                       else rsi1\<lparr>queryPath := tgt\<rparr>)
           in Inr (rsi2\<lparr>body := bdy\<rparr>))"

text \<open>\<open>WebServer::parseHeader(str)\<close>, lines 295--307: the same split, on a fresh
  \<open>rInfo\<close>, with no query handling and no error.\<close>

definition parseHeader :: "str \<Rightarrow> rinfo" where
  "parseHeader s =
     (let (hdr, bdy) = split_pair s crlf2;
          rh = split_str hdr crlf
      in empty_rinfo\<lparr>request := split_chr (hd rh) (CHR '' ''),
                     headers := insert_header_lines (tl rh) [],
                     body := bdy\<rparr>)"

subsection \<open>Header maps built from header lines\<close>

lemma insert_header_lines_inv: "sm_inv m \<Longrightarrow> sm_inv (insert_header_lines ls m)"
  unfolding insert_header_lines_def
  by (induction ls arbitrary: m) (simp_all add: sm_insert_inv)

text \<open>\<open>std::map::insert\<close> keeps an existing entry, so of repeated header lines the
  first one wins, and entries already in the map win over all lines.\<close>

lemma map_of_insert_header_lines:
  "map_of (insert_header_lines ls m) = map_of (map (\<lambda>l. split_pair l '': '') ls) ++ map_of m"
  unfolding insert_header_lines_def
proof (induction ls arbitrary: m)
  case Nil
  then show ?case by simp
next
  case (Cons l ls)
  obtain k v where kv: "split_pair l '': '' = (k, v)" by fastforce
  show ?case
    using Cons.IH [of "sm_insert (k, v) m"] kv
    by (auto simp: map_of_sm_insert map_add_def fun_eq_iff split: option.split)
qed

lemma hdr_starts_crlf:
  assumes "starts_with s crlf"
  shows "hd (split_str (fst (split_pair s crlf2)) crlf) = []"
proof -
  from assms obtain r where s: "s = CR # LF # r" by (auto simp: starts_with_iff)
  show ?thesis
  proof (cases "starts_with r crlf")
    case True
    then have "find_sub crlf2 s = Some 0" using s by (auto simp: starts_with_iff)
    then show ?thesis by (simp add: split_pair_def split_str.simps)
  next
    case False
    then have "find_sub crlf2 s = map_option (Suc \<circ> Suc) (find_sub crlf2 r)"
      using s by (auto simp: starts_with_iff option.map_comp)
    then show ?thesis using s
      by (auto simp: split_pair_def split_str.simps split: option.split)
  qed
qed

definition ex_post :: str where
  "ex_post = ''POST /up HTTP/1.1'' @ crlf @ ''Host: a'' @ crlf2 @ ''x=1''"

definition ex_get :: str where
  "ex_get = ''GET /img/a.png?size=2 HTTP/1.1'' @ crlf @ ''Host: a'' @ crlf2"

lemma ex_post_ok: "tokenize ex_post empty_rinfo = Inr (projr (tokenize ex_post empty_rinfo))"
  by code_simp

lemma ex_get_ok: "tokenize ex_get empty_rinfo = Inr (projr (tokenize ex_get empty_rinfo))"
  by code_simp

subsection \<open>Properties of the parsers\<close>

text \<open>Claim C38.  Whatever the method, the body of a parsed request is the text after
  the first CRLFCRLF of the buffer.  For POST the code first stores the header section
  as the body (line 417) and then overwrites it (line 424); the spec (section 4.2) says
  a POST keeps the pre-delimiter section as its body, which the code never does.\<close>

theorem tokenize_body:
  "tokenize s r = Inr r' \<Longrightarrow> body r' = snd (split_pair s crlf2)"
  by (auto simp: tokenize_def Let_def split: prod.splits if_splits option.splits)

theorem tokenize_body_witness:
  "request (projr (tokenize ex_post empty_rinfo)) ! 0 = ''POST'' \<and>
   body (projr (tokenize ex_post empty_rinfo)) = ''x=1''"
proof -
  have "body (projr (tokenize ex_post empty_rinfo)) = snd (split_pair ex_post crlf2)"
    by (rule tokenize_body [OF ex_post_ok])
  also have "\<dots> = ''x=1''" by code_simp
  finally show ?thesis by code_simp
qed

text \<open>A buffer whose first line is empty (it starts with CRLF) is rejected
  with \<open>RequestException("Bad Request (Empty)", 400)\<close> (line 401).\<close>

theorem tokenize_empty_line:
  "starts_with s crlf \<Longrightarrow> tokenize s r = Inl (RequestException ''Bad Request (Empty)'' 400)"
proof -
  assume "starts_with s crlf"
  moreover obtain hdr bdy where sp: "split_pair s crlf2 = (hdr, bdy)" by fastforce
  ultimately have "hd (split_str hdr crlf) = []" using hdr_starts_crlf [of s] by simp
  with sp show ?thesis by (simp add: tokenize_def Let_def)
qed

theorem tokenize_empty_line_witness:
  "tokenize (crlf @ ''GET / HTTP/1.1'') empty_rinfo = Inl (RequestException ''Bad Request (Empty)'' 400)"
  using tokenize_empty_line [of "crlf @ ''GET / HTTP/1.1''" empty_rinfo] by simp

text \<open>Claim C39.  For a GET, splitting the target at its first \<open>?\<close> loses
  nothing: the target is the query path, followed by \<open>?\<close> and the query when the
  target has a \<open>?\<close>, and the query path holds no \<open>?\<close> (lines 403--413).\<close>

theorem tokenize_get_query:
  assumes "tokenize s r = Inr r'" and "request r' ! 0 = ''GET''"
  shows "request r' ! 1 = queryPath r' @
           (if CHR ''?'' \<in> set (request r' ! 1) then CHR ''?'' # query r' else [])
         \<and> CHR ''?'' \<notin> set (queryPath r')"
  using assms find_char_Some [of "CHR ''?''" "request r' ! 1"]
    find_char_None [of "CHR ''?''" "request r' ! 1"]
  by (auto simp: tokenize_def Let_def split: prod.splits if_splits option.splits)

theorem tokenize_get_query_witness:
  "request (projr (tokenize ex_get empty_rinfo)) ! 1 = ''/img/a.png?size=2'' \<and>
   queryPath (projr (tokenize ex_get empty_rinfo)) = ''/img/a.png'' \<and>
   query (projr (tokenize ex_get empty_rinfo)) = ''size=2''"
proof -
  have "request (projr (tokenize ex_get empty_rinfo)) ! 0 = ''GET''" by code_simp
  from tokenize_get_query [OF ex_get_ok this] show ?thesis by code_simp
qed

text \<open>Claim C40.  The two parsers agree: on a buffer \<open>tokenize\<close> accepts, the
  request line, the header map and the body it produces are those
  \<open>WebServer::parseHeader\<close> computes for the framing check, so the event loop
  frames the same message the pipeline serves.\<close>

theorem tokenize_parseHeader:
  "tokenize s empty_rinfo = Inr r \<Longrightarrow>
     request r = request (parseHeader s) \<and> headers r = headers (parseHeader s) \<and>
     body r = body (parseHeader s)"
  by (auto simp: tokenize_def parseHeader_def empty_rinfo_def Let_def
      split: prod.splits if_splits option.splits)

theorem tokenize_parseHeader_witness:
  "headers (projr (tokenize ex_post empty_rinfo)) = headers (parseHeader ex_post) \<and>
   headers (parseHeader ex_post) = [(''Host'', ''a'')]"
  using tokenize_parseHeader [OF ex_post_ok] by code_simp

end
