(* ===== verification/Response.thy ===== *)
theory Response
  imports Message
begin

text \<open>
  The ResponseBuilder of src/src/MethodIO.cpp: the status-reason table
  (\<open>initErrCodeMessages\<close>), the content-type table (\<open>initContentTypes\<close>),
  \<open>getMessage\<close>, \<open>getType\<close> and \<open>generateResponse\<close>.  The tables are built the way
  the code builds them, by \<open>m[k] = v\<close> in source order into an empty
  \<open>std::map\<close>.  The lemmas show what the wire format of a response is: its status
  line, the order of its header lines (ascending by key, the \<open>std::map\<close> order), and
  that splitting a serialized response at its first CRLFCRLF gives back the header
  map and exactly the body.
\<close>

definition errCodeMessages :: "(int, str) stdmap" where
  "errCodeMessages = fold (\<lambda>(k, v). sm_set k v)
     [(200, ''OK''), (201, ''Created''), (204, ''No Content''), (301, ''Moved Permanently''),
      (302, ''Found''), (303, ''See Other''), (400, ''Bad Request''), (403, ''Forbidden''),
      (404, ''Not Found''), (405, ''Method Not Allowed''), (408, ''Request Timeout''),
      (409, ''Conflict''), (413, ''Payload Too Large''), (415, ''Unsupported Media Type''),
      (500, ''Internal Server Error'')] []"

definition contentTypes :: "(str, str) stdmap" where
  "contentTypes = fold (\<lambda>(k, v). sm_set k v)
     [(''txt'', ''text/plain''), (''html'', ''text/html''), (''css'', ''text/css''),
      (''js'', ''text/javascript''), (''png'', ''image/png''), (''ico'', ''image/ico''),
      (''cpp'', ''text/cpp'')] []"

definition getMessage :: "int \<Rightarrow> str" where
  "getMessage c = (case map_of errCodeMessages c of Some v \<Rightarrow> v | None \<Rightarrow> ''Undefined'')"

text \<open>\<open>MethodIO::getType(path)\<close>: the last \<open>.\<close>-separated token is read as
  \<open>tokens[tokens.size() - 1]\<close> before the size is looked at, which is undefined
  behaviour for a path with no tokens (the empty path, or one made of dots only).\<close>

definition getType :: "str \<Rightarrow> exn + str" where
  "getType p =
     (let tokens = split_chr p (CHR ''.'')
      in if tokens = [] then Inl (Crash ''getType: tokens[-1]'')
         else let ext = (if length tokens = 1 then ''txt'' else last tokens)
              in Inr (case map_of contentTypes ext of None \<Rightarrow> ''text/plain'' | Some t \<Rightarrow> t))"

definition header_line :: "str \<times> str \<Rightarrow> str" where
  "header_line kv = fst kv @ '': '' @ snd kv @ crlf"

definition status_line :: "int \<Rightarrow> str" where
  "status_line c = ''HTTP/1.1 '' @ to_string c @ '' '' @ getMessage c"

text \<open>\<open>MethodIO::generateResponse(code, rsi)\<close>, lines 230--240: the status line, one
  line per header in the map's iteration order, a blank line, the body.\<close>

definition generateResponse :: "int \<Rightarrow> rinfo \<Rightarrow> str" where
  "generateResponse c rsi =
     ''HTTP/1.1 '' @ to_string c @ '' '' @ getMessage c @ crlf
     @ concat (map header_line (headers rsi)) @ crlf @ body rsi"

subsection \<open>Characters of the status line and header lines\<close>

definition hdrs_wf :: "(str, str) stdmap \<Rightarrow> bool" where
  "hdrs_wf hs \<longleftrightarrow> sm_inv hs \<and>
     list_all (\<lambda>(k, v). CR \<notin> set k \<and> CR \<notin> set v \<and> CHR '':'' \<notin> set k) hs"

lemma CR_not_to_string: "CR \<notin> set (to_string c)"
proof -
  have "list_all is_digit (dec_nat n)" for n using dec_nat_digits [of n] by simp
  moreover have "\<not> is_digit CR" by (simp add: is_digit_def less_eq_char_def)
  ultimately have "CR \<notin> set (dec_nat n)" for n by (auto simp: list_all_iff)
  then show ?thesis by (simp add: to_string_def)
qed

lemma CR_not_getMessage: "CR \<notin> set (getMessage c)"
proof -
  have "list_all (\<lambda>(k, v). CR \<notin> set v) errCodeMessages" by code_simp
  then have "map_of errCodeMessages c = Some v \<Longrightarrow> CR \<notin> set v" for v
    by (auto simp: list_all_iff dest: map_of_SomeD)
  then show ?thesis by (auto simp: getMessage_def split: option.split)
qed

lemma CR_not_status_line: "CR \<notin> set (status_line c)"
  using CR_not_to_string [of c] CR_not_getMessage [of c] by (simp add: status_line_def)

subsection \<open>Framing of a serialized response\<close>

definition header_block :: "str \<times> str \<Rightarrow> str" where
  "header_block kv = crlf @ fst kv @ '': '' @ snd kv"

lemma header_block_Pair: "header_block (k, v) = crlf @ k @ '': '' @ v"
  by (simp add: header_block_def)

lemma header_rotate:
  "crlf @ concat (map header_line hs) = concat (map header_block hs) @ crlf"
  by (induction hs) (auto simp: header_line_def header_block_def)

lemma generateResponse_blocks:
  "generateResponse c rsi = status_line c @ concat (map header_block (headers rsi)) @ crlf2 @ body rsi"
proof -
  have "generateResponse c rsi = status_line c @ (crlf @ concat (map header_line (headers rsi))) @ crlf @ body rsi"
    by (simp add: generateResponse_def status_line_def)
  then show ?thesis by (simp only: header_rotate) simp
qed

lemma length_header_block: "length (header_block kv) = length (fst kv) + length (snd kv) + 4"
  by (simp add: header_block_def)

lemma find_crlf2_after_crlf:
  "y \<noteq> [] \<Longrightarrow> hd y \<noteq> CR \<Longrightarrow> find_sub crlf2 (CR # LF # y) = map_option (Suc \<circ> Suc) (find_sub crlf2 y)"
  by (cases y) (auto simp: option.map_comp o_assoc)

lemma find_crlf2_blocks:
  "list_all (\<lambda>(k, v). CR \<notin> set k \<and> CR \<notin> set v) hs \<Longrightarrow>
   find_sub crlf2 (concat (map header_block hs) @ crlf2 @ b) = Some (length (concat (map header_block hs)))"
proof (induction hs)
  case Nil
  then show ?case by simp
next
  case (Cons kv hs)
  obtain k v where kv: "kv = (k, v)" by fastforce
  let ?x = "k @ '': '' @ v" and ?r = "concat (map header_block hs) @ crlf2 @ b"
  from Cons.prems kv have cr: "CR \<notin> set ?x" by auto
  have nx: "?x @ ?r \<noteq> [] \<and> hd (?x @ ?r) \<noteq> CR" using cr by (cases k) auto
  have "find_sub crlf2 (concat (map header_block (kv # hs)) @ crlf2 @ b) = find_sub crlf2 (CR # LF # ?x @ ?r)"
    by (simp add: kv header_block_def)
  also have "\<dots> = map_option (Suc \<circ> Suc) (find_sub crlf2 (?x @ ?r))"
    using nx by (intro find_crlf2_after_crlf) simp_all
  also have "find_sub crlf2 (?x @ ?r) = map_option ((+) (length ?x)) (find_sub crlf2 ?r)"
    by (rule find_sub_skip) (use cr in simp_all)
  also have "find_sub crlf2 ?r = Some (length (concat (map header_block hs)))"
    using Cons.IH Cons.prems by simp
  finally show ?case by (simp add: kv length_header_block del: find_sub.simps)
qed

lemma split_generateResponse:
  assumes "hdrs_wf (headers rsi)"
  shows "split_pair (generateResponse c rsi) crlf2 =
           (status_line c @ concat (map header_block (headers rsi)), body rsi)"
proof -
  let ?b = "concat (map header_block (headers rsi))"
  from assms have "list_all (\<lambda>(k, v). CR \<notin> set k \<and> CR \<notin> set v) (headers rsi)"
    by (auto simp: hdrs_wf_def list_all_iff)
  then have f: "find_sub crlf2 (?b @ crlf2 @ body rsi) = Some (length ?b)"
    by (rule find_crlf2_blocks)
  have "find_sub crlf2 (status_line c @ ?b @ crlf2 @ body rsi) =
        map_option ((+) (length (status_line c))) (find_sub crlf2 (?b @ crlf2 @ body rsi))"
    by (rule find_sub_skip) (simp_all add: CR_not_status_line)
  with f show ?thesis
    by (simp add: generateResponse_blocks split_pair_def del: find_sub.simps)
qed

lemma split_str_blocks:
  "CR \<notin> set a \<Longrightarrow> list_all (\<lambda>(k, v). CR \<notin> set k \<and> CR \<notin> set v) hs \<Longrightarrow>
   split_str (a @ concat (map header_block hs)) crlf = a # map (\<lambda>kv. fst kv @ '': '' @ snd kv) hs"
proof (induction hs arbitrary: a)
  case Nil
  then show ?case by (simp add: split_str_last)
next
  case (Cons kv hs)
  obtain k v where kv: "kv = (k, v)" by fastforce
  have "split_str (a @ crlf @ (k @ '': '' @ v) @ concat (map header_block hs)) crlf =
        a # split_str ((k @ '': '' @ v) @ concat (map header_block hs)) crlf"
    by (rule split_str_skip) (use Cons.prems in simp_all)
  also have "\<dots> = a # (k @ '': '' @ v) # map (\<lambda>kv. fst kv @ '': '' @ snd kv) hs"
    using Cons.IH [of "k @ '': '' @ v"] Cons.prems kv by simp
  finally show ?case by (simp add: kv header_block_Pair)
qed

lemma split_header_line:
  "CHR '':'' \<notin> set k \<Longrightarrow> split_pair (k @ CHR '':'' # CHR '' '' # v) '': '' = (k, v)"
  using split_pair_skip [of "'': ''" k v] by simp

lemma headers_parse_rendered:
  assumes "hdrs_wf hs"
  shows "insert_header_lines (map (\<lambda>kv. fst kv @ '': '' @ snd kv) hs) [] = hs"
proof -
  from assms have "map (\<lambda>l. split_pair l '': '') (map (\<lambda>kv. fst kv @ '': '' @ snd kv) hs) = hs"
    by (induction hs) (auto simp: hdrs_wf_def sm_inv_Cons split_header_line)
  then have "map_of (insert_header_lines (map (\<lambda>kv. fst kv @ '': '' @ snd kv) hs) []) = map_of hs"
    by (simp add: map_of_insert_header_lines)
  moreover have "sm_inv (insert_header_lines (map (\<lambda>kv. fst kv @ '': '' @ snd kv) hs) [])"
    by (simp add: insert_header_lines_inv)
  ultimately show ?thesis using assms sm_eq_map_of by (auto simp: hdrs_wf_def)
qed

lemma parse_generateResponse:
  assumes "hdrs_wf (headers rsi)"
  shows "parseHeader (generateResponse c rsi) =
           empty_rinfo\<lparr>request := split_chr (status_line c) (CHR '' ''),
                       headers := headers rsi, body := body rsi\<rparr>"
proof -
  from assms have l: "list_all (\<lambda>(k, v). CR \<notin> set k \<and> CR \<notin> set v) (headers rsi)"
    by (auto simp: hdrs_wf_def list_all_iff)
  show ?thesis
    using split_generateResponse [OF assms, of c]
      split_str_blocks [OF CR_not_status_line l, of c] headers_parse_rendered [OF assms]
    by (simp add: parseHeader_def)
qed

lemma errCode_range: "map_of errCodeMessages c = Some r \<Longrightarrow> 100 \<le> c \<and> c < 1000"
proof -
  have "list_all (\<lambda>(k, v). 100 \<le> k \<and> k < (1000::int)) errCodeMessages" by code_simp
  then show "map_of errCodeMessages c = Some r \<Longrightarrow> 100 \<le> c \<and> c < 1000"
    by (auto simp: list_all_iff dest: map_of_SomeD)
qed

lemma length_dec_nat_3: "100 \<le> n \<Longrightarrow> n < 1000 \<Longrightarrow> length (dec_nat n) = 3"
proof -
  assume "100 \<le> n" "n < 1000"
  then have "\<not> n < 10" "\<not> n div 10 < 10" "n div 10 div 10 < 10" by auto
  then show ?thesis
    by (simp add: dec_nat.simps [of n] dec_nat.simps [of "n div 10"] dec_nat.simps [of "n div 10 div 10"])
qed

lemma header_lines_keys:
  "distinct (map fst hs) \<Longrightarrow>
   concat (map header_line hs) = concat (map (\<lambda>k. k @ '': '' @ the (map_of hs k) @ crlf) (map fst hs))"
proof (induction hs)
  case Nil
  then show ?case by simp
next
  case (Cons kv hs)
  obtain k v where kv: "kv = (k, v)" by fastforce
  with Cons.prems have "map (\<lambda>k'. k' @ '': '' @ the (map_of (kv # hs) k') @ crlf) (map fst hs) =
      map (\<lambda>k'. k' @ '': '' @ the (map_of hs k') @ crlf) (map fst hs)"
    by (intro map_cong) auto
  with Cons kv show ?case by (simp add: header_line_def del: map_map map_eq_conv)
qed

definition ex_headers :: "(str, str) stdmap" where
  "ex_headers = sm_set ''Content-Length'' ''2'' (sm_set ''Content-Type'' ''text/html'' [])"

subsection \<open>Properties of the serialized response\<close>

text \<open>Claim C35.  A response for a code of the status table starts with
  \<open>HTTP/1.1\<close>, a space, three decimal digits that read back as the code, a space and
  the code's reason phrase (spec section 8, first property).\<close>

theorem generateResponse_status:
  "map_of errCodeMessages c = Some reason \<Longrightarrow>
   \<exists>ds rest. generateResponse c rsi = ''HTTP/1.1 '' @ ds @ '' '' @ reason @ crlf @ rest \<and>
     length ds = 3 \<and> list_all is_digit ds \<and> stoi ds 0 = c"
proof -
  assume r: "map_of errCodeMessages c = Some reason"
  then have c: "100 \<le> c \<and> c < 1000" by (rule errCode_range)
  then have "100 \<le> nat c" "nat c < 1000" by auto
  then have "length (to_string c) = 3" using c by (simp add: to_string_def length_dec_nat_3)
  moreover have "list_all is_digit (to_string c)"
    using c dec_nat_digits [of "nat c"] by (simp add: to_string_def)
  moreover have "stoi (to_string c) 0 = c" using c by (simp add: stoi_to_string)
  moreover have "generateResponse c rsi = ''HTTP/1.1 '' @ to_string c @ '' '' @ reason @ crlf @
                   concat (map header_line (headers rsi)) @ crlf @ body rsi"
    using r by (simp add: generateResponse_def getMessage_def)
  ultimately show ?thesis by blast
qed

theorem generateResponse_status_witness:
  "\<exists>ds rest. generateResponse 404 empty_rinfo = ''HTTP/1.1 '' @ ds @ '' '' @ ''Not Found'' @ crlf @ rest \<and>
     length ds = 3 \<and> list_all is_digit ds \<and> stoi ds 0 = 404"
proof -
  have "map_of errCodeMessages 404 = Some ''Not Found''" by code_simp
  then show ?thesis by (rule generateResponse_status)
qed

text \<open>Claim C37.  The header lines come out in ascending order of their keys, each key
  once, whatever order the handlers set them in: \<open>rsi.headers\<close> is a
  \<open>std::map\<close>.  The spec (section 3, ResponseContext) says the emission order is the
  insertion order.\<close>

theorem generateResponse_header_order:
  "sm_inv (headers rsi) \<Longrightarrow>
   generateResponse c rsi = status_line c @ crlf @
     concat (map (\<lambda>k. k @ '': '' @ the (map_of (headers rsi) k) @ crlf)
                 (sorted_list_of_set (dom (map_of (headers rsi))))) @ crlf @ body rsi"
proof -
  assume inv: "sm_inv (headers rsi)"
  then have "distinct (map fst (headers rsi))" by (simp add: sm_inv_def strict_sorted_iff)
  then have "concat (map header_line (headers rsi)) =
      concat (map (\<lambda>k. k @ '': '' @ the (map_of (headers rsi) k) @ crlf) (map fst (headers rsi)))"
    by (rule header_lines_keys)
  also have "map fst (headers rsi) = sorted_list_of_set (dom (map_of (headers rsi)))"
    using inv by (rule sm_keys_sorted)
  finally show ?thesis by (simp add: generateResponse_def status_line_def)
qed

theorem generateResponse_header_order_witness:
  "generateResponse 200 (empty_rinfo\<lparr>headers := ex_headers\<rparr>) =
   status_line 200 @ crlf @ ''Content-Length: 2'' @ crlf @ ''Content-Type: text/html'' @ crlf @ crlf"
proof -
  let ?r = "empty_rinfo\<lparr>headers := ex_headers\<rparr>"
  have "sm_inv (headers ?r)" by code_simp
  from generateResponse_header_order [OF this, of 200]
  have "generateResponse 200 ?r = status_line 200 @ crlf @
     concat (map (\<lambda>k. k @ '': '' @ the (map_of ex_headers k) @ crlf)
                 (sorted_list_of_set (set (map fst ex_headers)))) @ crlf @ []"
    by (simp add: dom_map_of_conv_image_fst empty_rinfo_def)
  also have "\<dots> = status_line 200 @ crlf @ ''Content-Length: 2'' @ crlf @ ''Content-Type: text/html'' @ crlf @ crlf"
    by code_simp
  finally show ?thesis .
qed

text \<open>Claim C36.  Round trip of the wire format: for a header map whose keys and values
  hold no CR and whose keys hold no colon, the serialized response splits at its first
  CRLFCRLF into the status and header section and exactly the body, and the header
  lines parse back (by the server's own \<open>parseHeader\<close>) to the same map.\<close>

theorem generateResponse_roundtrip:
  "hdrs_wf (headers rsi) \<Longrightarrow>
   snd (split_pair (generateResponse c rsi) crlf2) = body rsi \<and>
   headers (parseHeader (generateResponse c rsi)) = headers rsi"
  using split_generateResponse [of rsi c] parse_generateResponse [of rsi c] by simp

theorem generateResponse_roundtrip_witness:
  "snd (split_pair (generateResponse 200 (empty_rinfo\<lparr>headers := ex_headers, body := ''ok''\<rparr>)) crlf2) = ''ok'' \<and>
   headers (parseHeader (generateResponse 200 (empty_rinfo\<lparr>headers := ex_headers, body := ''ok''\<rparr>))) = ex_headers"
proof -
  have "hdrs_wf (headers (empty_rinfo\<lparr>headers := ex_headers, body := ''ok''\<rparr>))" by code_simp
  from generateResponse_roundtrip [OF this, of 200] show ?thesis by simp
qed

text \<open>Spec section 8, round trip: when the \<open>Content-Length\<close> header holds the
  printed length of the body, a reader that frames the serialized response at its first
  CRLFCRLF and parses that header with \<open>utils::stoi\<close> gets exactly the length of the
  body it framed.\<close>

theorem generateResponse_content_length:
  assumes "hdrs_wf (headers rsi)"
    and "map_of (headers rsi) ''Content-Length'' = Some (to_string (int (length (body rsi))))"
  shows "stoi (the (map_of (headers (parseHeader (generateResponse c rsi))) ''Content-Length'')) (-1) =
         int (length (body (parseHeader (generateResponse c rsi))))"
  using assms parse_generateResponse [OF assms(1), of c] by (simp add: stoi_to_string)

theorem generateResponse_content_length_witness:
  "stoi (the (map_of (headers (parseHeader (generateResponse 200
      (empty_rinfo\<lparr>headers := ex_headers, body := ''ok''\<rparr>)))) ''Content-Length'')) (-1) = 2"
proof -
  let ?r = "empty_rinfo\<lparr>headers := ex_headers, body := ''ok''\<rparr>"
  have h1: "hdrs_wf (headers ?r)" by code_simp
  have "to_string (int (length (body ?r))) = ''2''" by code_simp
  moreover have "map_of (headers ?r) ''Content-Length'' = Some ''2''" by code_simp
  ultimately have h2: "map_of (headers ?r) ''Content-Length'' = Some (to_string (int (length (body ?r))))"
    by simp
  have "body (parseHeader (generateResponse 200 ?r)) = ''ok''"
    using parse_generateResponse [OF h1, of 200] by simp
  with generateResponse_content_length [OF h1 h2, of 200] show ?thesis by simp
qed

end
