(* ===== verification/Multiplexer.thy ===== *)
theory Multiplexer
  imports Message "HOL-Library.Word"
begin

text \<open>
  The ConnectionMultiplexer of src/src/WebServer.cpp.  The state of \<open>WebServer\<close> that
  the event loop changes is a record: the poll set \<open>_pfds\<close>, the loop-local
  \<open>buffMap\<close> (one buffer per connection, holding first the bytes received and then the
  bytes still to send), \<open>_connectionsPortMap\<close>, \<open>_socketPortmap\<close>, the last message
  handed to the \<open>IOAdaptor\<close> (\<open>receivedRaw\<close>) and the descriptors the process holds
  open.  The kernel is the environment: the model of a handler takes the result of its
  system call (the bytes \<open>recv\<close> delivered or its error, the count \<open>send\<close> accepted,
  the descriptor \<open>accept\<close> returned) as an argument.  The request pipeline is reached
  through the virtual \<open>IOAdaptor::getMessageToSend\<close>; the model takes it as a
  parameter \<open>resp\<close> of type \<open>'w responder\<close> (raw request, port and the world of the
  adaptor \<mapsto> response or error, and the world after the call), so the lemmas here
  hold for every implementation of that interface.  The world is the part of the
  adaptor's environment that outlives a request (for \<open>MethodIO\<close>, the file system);
  the server state carries it in the field \<open>world\<close>, and only a dispatch changes it.
\<close>

datatype pevent = POLLIN | POLLOUT

record pollfd =
  pfd_fd :: int
  pfd_events :: pevent

text \<open>\<open>revents\<close> as the loop tests it: the \<open>POLLIN\<close> and \<open>POLLOUT\<close> bits.\<close>

record revents =
  rin :: bool
  rout :: bool

record 'w ws =
  pfds :: "pollfd list"
  buffMap :: "(int, str) stdmap"
  connPort :: "(int, str) stdmap"
  sockPort :: "(int, str) stdmap"
  ioRaw :: str
  openFds :: "int list"
  world :: 'w

type_synonym 'w responder = "str \<Rightarrow> str \<Rightarrow> 'w \<Rightarrow> (exn + str) \<times> 'w"

text \<open>\<open>WebServer::addPfd\<close> and \<open>WebServer::removePfd\<close> (lines 268--288).\<close>

definition addPfd :: "int \<Rightarrow> 'w ws \<Rightarrow> 'w ws" where
  "addPfd fd s = s\<lparr>pfds := pfds s @ [\<lparr>pfd_fd = fd, pfd_events = POLLIN\<rparr>]\<rparr>"

definition removePfd :: "nat \<Rightarrow> 'w ws \<Rightarrow> 'w ws" where
  "removePfd i s = s\<lparr>pfds := take i (pfds s) @ drop (Suc i) (pfds s)\<rparr>"

text \<open>\<open>close(fd)\<close>: the descriptor is released.\<close>

definition close_fd :: "int \<Rightarrow> 'w ws \<Rightarrow> 'w ws" where
  "close_fd fd s = s\<lparr>openFds := removeAll fd (openFds s)\<rparr>"

text \<open>\<open>WebServer::acceptConnection(index, buffMap, port)\<close> (lines 185--201), given the
  value \<open>accept\<close> returned: -1 is logged and ignored; otherwise an empty buffer and
  the port are recorded with \<open>std::map::insert\<close> and the descriptor joins the poll set
  for reading.\<close>

definition acceptConnection :: "str \<Rightarrow> int \<Rightarrow> 'w ws \<Rightarrow> 'w ws" where
  "acceptConnection prt newFd s =
     (if newFd = -1 then s
      else addPfd newFd (s\<lparr>buffMap := sm_insert (newFd, []) (buffMap s),
                          connPort := sm_insert (newFd, prt) (connPort s),
                          openFds := newFd # openFds s\<rparr>))"

text \<open>\<open>(size_t)\<close> of an \<open>int\<close>, as in the comparison of line 215: a negative value
  wraps around to a huge unsigned one.\<close>

definition size_t_of_int :: "int \<Rightarrow> nat" where
  "size_t_of_int v = unat (word_of_int v :: 64 word)"

definition content_length :: "rinfo \<Rightarrow> str option" where
  "content_length info = map_of (headers info) ''Content-Length''"

text \<open>The guard of lines 214--215: no \<open>Content-Length\<close> header yet, or a body
  shorter than the declared length read through \<open>utils::stoi(value, -1)\<close> and cast
  to \<open>size_t\<close>.\<close>

definition needs_more :: "rinfo \<Rightarrow> bool" where
  "needs_more info \<longleftrightarrow>
     content_length info = None \<or>
     length (body info) < size_t_of_int (stoi (the (content_length info)) (-1))"

text \<open>The dispatch of lines 242--244: the entry is switched to writing, the message
  is handed to the \<open>IOAdaptor\<close> and the response it returns replaces the buffer.\<close>

definition dispatch :: "'w responder \<Rightarrow> nat \<Rightarrow> int \<Rightarrow> str \<Rightarrow> 'w ws \<Rightarrow> exn + 'w ws" where
  "dispatch resp i fd buf s =
     (let r = sm_index fd [] (connPort s);
          s = s\<lparr>pfds := (pfds s)[i := (pfds s ! i)\<lparr>pfd_events := POLLOUT\<rparr>],
                connPort := snd r, ioRaw := buf\<rparr>
      in case resp buf (fst r) (world s) of
           (Inl e, w) \<Rightarrow> Inl e
         | (Inr out, w) \<Rightarrow> Inr (s\<lparr>buffMap := sm_set fd out (buffMap s), world := w\<rparr>))"

text \<open>The readable branch of \<open>WebServer::handleIO\<close> (lines 212--247) for the
  descriptor \<open>fd\<close> whose buffer is \<open>buf\<close>, with \<open>rcv\<close> what \<open>recv\<close> delivers
  (\<open>None\<close> for -1, \<open>Some []\<close> for an orderly shutdown by the peer).
  \<open>append(buff, -1)\<close> throws \<open>std::length_error\<close>, which is \<open>Crash\<close>.  When the
  header was already parsed (\<open>isFirst\<close> false) the completion test adds the bytes
  just read to the length of the body parsed before the read.\<close>

definition handle_read :: "'w responder \<Rightarrow> nat \<Rightarrow> int \<Rightarrow> str \<Rightarrow> str option \<Rightarrow> 'w ws \<Rightarrow> exn + 'w ws" where
  "handle_read resp i fd buf rcv s =
     (let info = parseHeader buf; cl = content_length info
      in if needs_more info then
           (case rcv of
              None \<Rightarrow> Inl (Crash ''recv error: append(buff, -1)'')
            | Some chunk \<Rightarrow>
                if chunk = [] then Inr (removePfd i s)
                else
                  (let bytes = int (length chunk);
                       buf' = buf @ chunk;
                       s = s\<lparr>buffMap := sm_set fd buf' (buffMap s)\<rparr>;
                       isFirst = (cl = None);
                       info' = (if isFirst then parseHeader buf' else info);
                       cl' = (if isFirst then content_length (parseHeader buf') else cl)
                   in if find_sub crlf2 buf' \<noteq> None \<and>
                         (cl' = None \<or>
                          int (length (body info')) + (if isFirst then 0 else bytes) = stoi (the cl') (-1))
                      then dispatch resp i fd buf' s
                      else Inr s))
         else Inr s)"

text \<open>The writable branch (lines 248--265): one \<open>send\<close> of the whole buffer, of
  which \<open>sent\<close> bytes are accepted and the rest kept (\<open>substr(n)\<close> past the end
  throws \<open>std::out_of_range\<close>); an empty buffer closes the connection, erasing its
  entries (\<open>erase(find(fd))\<close> for a missing key is undefined).\<close>

definition handle_write :: "nat \<Rightarrow> int \<Rightarrow> str \<Rightarrow> int \<Rightarrow> 'w ws \<Rightarrow> exn + 'w ws" where
  "handle_write i fd buf sent s =
     (if buf \<noteq> [] then
        (if sent < 0 \<or> nat sent > length buf then Inl (Crash ''substr out of range'')
         else Inr (s\<lparr>buffMap := sm_set fd (drop (nat sent) buf) (buffMap s)\<rparr>))
      else if fd \<notin> dom (map_of (connPort s)) then Inl (Crash ''erase(end())'')
      else Inr (removePfd i (close_fd fd (s\<lparr>buffMap := sm_erase fd (buffMap s),
                                           connPort := sm_erase fd (connPort s),
                                           ioRaw := []\<rparr>))))"

text \<open>\<open>WebServer::handleIO(index, buffMap)\<close>, lines 206--266, for the entry at index
  \<open>i\<close> with \<open>revents\<close> \<open>rv\<close>.  The buffer is read through \<open>buffMap[fd]\<close>
  (\<open>operator[]\<close>, which inserts an empty one) and parsed before the events are
  looked at.\<close>

definition handleIO :: "'w responder \<Rightarrow> nat \<Rightarrow> revents \<Rightarrow> str option \<Rightarrow> int \<Rightarrow> 'w ws \<Rightarrow> exn + 'w ws" where
  "handleIO resp i rv rcv sent s =
     (let fd = pfd_fd (pfds s ! i);
          r = sm_index fd [] (buffMap s);
          s = s\<lparr>buffMap := snd r\<rparr>
      in if rin rv then handle_read resp i fd (fst r) rcv s
         else if rout rv then handle_write i fd (fst r) sent s
         else Inr s)"

text \<open>One visit of the loop body: the \<open>revents\<close> of the entry, and the result of the
  system call its handler makes (\<open>accept\<close>'s descriptor, \<open>recv\<close>'s bytes or
  \<open>send\<close>'s count).\<close>

record visit =
  v_rev :: revents
  v_rcv :: "str option"
  v_ret :: int

text \<open>The \<open>for\<close> loop of \<open>WebServer::loop\<close> (lines 169--181) over the poll set from
  index \<open>i\<close>: an entry with neither bit is skipped, a listening socket accepts, any
  other descriptor is handled by \<open>handleIO\<close>; the index then advances, also after an
  entry was removed.  A visit list that runs out stands for entries with no events.\<close>

fun scan :: "'w responder \<Rightarrow> nat \<Rightarrow> visit list \<Rightarrow> 'w ws \<Rightarrow> exn + 'w ws" where
  "scan resp i [] s = Inr s"
| "scan resp i (v # vs) s =
     (if length (pfds s) \<le> i then Inr s
      else if \<not> (rin (v_rev v) \<or> rout (v_rev v)) then scan resp (Suc i) vs s
      else
        (let fd = pfd_fd (pfds s ! i)
         in case map_of (sockPort s) fd of
              Some prt \<Rightarrow> scan resp (Suc i) vs (acceptConnection prt (v_ret v) s)
            | None \<Rightarrow>
                (case handleIO resp i (v_rev v) (v_rcv v) (v_ret v) s of
                   Inl e \<Rightarrow> Inl e
                 | Inr s' \<Rightarrow> scan resp (Suc i) vs s')))"

text \<open>\<open>WebServer::loop\<close> (lines 156--183) over a finite prefix of its iterations: each
  is a \<open>poll\<close> (its failure returns from the loop) and a scan of the poll set.\<close>

fun loop :: "'w responder \<Rightarrow> (bool \<times> visit list) list \<Rightarrow> 'w ws \<Rightarrow> exn + 'w ws" where
  "loop resp [] s = Inr s"
| "loop resp ((pollFailed, vs) # its) s =
     (if pollFailed then Inr s
      else case scan resp 0 vs s of Inl e \<Rightarrow> Inl e | Inr s' \<Rightarrow> loop resp its s')"

text \<open>\<open>WebServer::initSockets\<close> (lines 113--144) over the ports of the server blocks,
  in order, each with the outcome of \<open>initSocket(port)\<close> (lines 56--111): a bound
  listening socket, a failure that leaves nothing open (\<open>getaddrinfo\<close>, no address
  that binds, \<open>setsockopt\<close>), or a failing \<open>listen\<close>, which throws without closing
  the socket.  A port that already has a listening socket is skipped (lines 124--128);
  the thrown \<open>char const *\<close> is caught and logged (line 137).\<close>

datatype sock_res = Bound int | NoSocket | ListenFail int

fun initSockets :: "(str \<times> sock_res) list \<Rightarrow> 'w ws \<Rightarrow> 'w ws" where
  "initSockets [] s = s"
| "initSockets ((p, r) # ps) s =
     (if list_ex (\<lambda>(fd, q). q = p) (sockPort s) then initSockets ps s
      else case r of
        Bound fd \<Rightarrow> initSockets ps (addPfd fd (s\<lparr>sockPort := sm_insert (fd, p) (sockPort s),
                                                openFds := fd # openFds s\<rparr>))
      | NoSocket \<Rightarrow> initSockets ps s
      | ListenFail fd \<Rightarrow> initSockets ps (s\<lparr>openFds := fd # openFds s\<rparr>))"

text \<open>The descriptors the outcomes of \<open>initSocket\<close> name, and the state of a freshly
  constructed \<open>WebServer\<close> before \<open>initSockets\<close>.\<close>

fun sock_fds :: "(str \<times> sock_res) list \<Rightarrow> int list" where
  "sock_fds [] = []"
| "sock_fds ((p, Bound fd) # ps) = fd # sock_fds ps"
| "sock_fds ((p, ListenFail fd) # ps) = fd # sock_fds ps"
| "sock_fds ((p, NoSocket) # ps) = sock_fds ps"

definition ws0 :: "'w \<Rightarrow> 'w ws" where
  "ws0 w = \<lparr>pfds = [], buffMap = [], connPort = [], sockPort = [], ioRaw = [], openFds = [], world = w\<rparr>"

subsection \<open>The event loop as a step relation\<close>

text \<open>\<open>poll\<close> sets \<open>POLLIN\<close> or \<open>POLLOUT\<close> in \<open>revents\<close> only when the entry
  asked for it in \<open>events\<close>.\<close>

definition poll_ok :: "pevent \<Rightarrow> revents \<Rightarrow> bool" where
  "poll_ok e rv \<longleftrightarrow> (rin rv \<longrightarrow> e = POLLIN) \<and> (rout rv \<longrightarrow> e = POLLOUT)"

text \<open>One visit of the loop body to a ready entry of the poll set: an accept on a
  listening socket, where the kernel hands out a descriptor that is not open (or -1),
  or a \<open>handleIO\<close> on a connection, with events \<open>poll\<close> can report, that does
  not crash.  \<open>scan\<close> is a sequence of such steps.\<close>

inductive ws_step :: "'w responder \<Rightarrow> 'w ws \<Rightarrow> 'w ws \<Rightarrow> bool" for resp where
  accept: "i < length (pfds s) \<Longrightarrow> map_of (sockPort s) (pfd_fd (pfds s ! i)) = Some prt \<Longrightarrow>
    newFd = -1 \<or> newFd \<notin> set (openFds s) \<Longrightarrow> ws_step resp s (acceptConnection prt newFd s)"
| io: "i < length (pfds s) \<Longrightarrow> map_of (sockPort s) (pfd_fd (pfds s ! i)) = None \<Longrightarrow>
    poll_ok (pfd_events (pfds s ! i)) rv \<Longrightarrow>
    handleIO resp i rv rcv k s = Inr s' \<Longrightarrow> ws_step resp s s'"

definition poll_fds :: "'w ws \<Rightarrow> int list" where
  "poll_fds s = map pfd_fd (pfds s)"

text \<open>The invariant of the multiplexer: the maps are well formed, each descriptor is
  polled once and is open, every polled descriptor that is not a listening socket has
  its port recorded (so the \<open>erase(find(fd))\<close> of the close path finds it), and the
  listening sockets are open.\<close>

definition ws_inv :: "'w ws \<Rightarrow> bool" where
  "ws_inv s \<longleftrightarrow> sm_inv (buffMap s) \<and> sm_inv (connPort s) \<and> distinct (poll_fds s) \<and>
     set (poll_fds s) \<subseteq> set (openFds s) \<and>
     (\<forall>fd \<in> set (poll_fds s). map_of (sockPort s) fd = None \<longrightarrow> fd \<in> dom (map_of (connPort s))) \<and>
     dom (map_of (sockPort s)) \<subseteq> set (openFds s)"

text \<open>The framing rule of the specification (section 4.1): a buffer holds a whole
  request when it has the CRLFCRLF and either no \<open>Content-Length\<close> or a body of
  exactly the declared length.\<close>

definition framed :: "str \<Rightarrow> bool" where
  "framed buf \<longleftrightarrow> find_sub crlf2 buf \<noteq> None \<and>
     (content_length (parseHeader buf) = None \<or>
      int (length (body (parseHeader buf))) = stoi (the (content_length (parseHeader buf))) (-1))"

text \<open>A server listening on descriptor 3 for port 8080, with one accepted connection on
  descriptor 5 and an empty buffer, and a request delivered in two \<open>recv\<close>
  chunks that split the header section after the \<open>Content-Length\<close> line.\<close>

definition ex_ws :: "unit ws" where
  "ex_ws = \<lparr>pfds = [\<lparr>pfd_fd = 3, pfd_events = POLLIN\<rparr>, \<lparr>pfd_fd = 5, pfd_events = POLLIN\<rparr>],
     buffMap = [(5, [])], connPort = [(5, ''8080'')], sockPort = [(3, ''8080'')],
     ioRaw = [], openFds = [5, 3], world = ()\<rparr>"

definition ex_c1 :: str where
  "ex_c1 = ''POST /x HTTP/1.1'' @ crlf @ ''Content-Length: 3'' @ crlf @ ''Ho''"

definition ex_c2 :: str where
  "ex_c2 = ''st: a'' @ crlf2 @ ''abc''"

definition rd :: revents where
  "rd = \<lparr>rin = True, rout = False\<rparr>"

definition wr :: revents where
  "wr = \<lparr>rin = False, rout = True\<rparr>"

text \<open>Two connections, on descriptors 5 and 7, that have sent their responses and are
  both reported writable by the same \<open>poll\<close>.\<close>

definition ex_ws2 :: "unit ws" where
  "ex_ws2 = \<lparr>pfds = [\<lparr>pfd_fd = 3, pfd_events = POLLIN\<rparr>, \<lparr>pfd_fd = 5, pfd_events = POLLOUT\<rparr>,
                     \<lparr>pfd_fd = 7, pfd_events = POLLOUT\<rparr>],
     buffMap = [(5, []), (7, [])], connPort = [(5, ''8080''), (7, ''8080'')],
     sockPort = [(3, ''8080'')], ioRaw = [], openFds = [7, 5, 3], world = ()\<rparr>"

definition idle :: visit where
  "idle = \<lparr>v_rev = \<lparr>rin = False, rout = False\<rparr>, v_rcv = None, v_ret = 0\<rparr>"

definition wv :: visit where
  "wv = \<lparr>v_rev = wr, v_rcv = None, v_ret = 0\<rparr>"

text \<open>A request whose \<open>Content-Length\<close> is not a number.\<close>

definition ex_badlen :: str where
  "ex_badlen = ''POST /up/a.txt HTTP/1.1'' @ crlf @ ''Content-Length: -5'' @ crlf2"

subsection \<open>Shape of the handlers\<close>

lemmas handler_defs = handleIO_def handle_read_def handle_write_def dispatch_def

subsection \<open>The \<open>size_t\<close> cast\<close>

lemma size_t_of_int_mod: "size_t_of_int v = nat (v mod 2 ^ 64)"
  by (simp add: size_t_of_int_def unat_eq_nat_uint uint_word_of_int_eq take_bit_eq_mod)

lemma size_t_of_int_lt: "size_t_of_int v < 2 ^ 64"
  by (simp add: size_t_of_int_mod nat_less_iff)

lemma size_t_of_int_minus_one: "size_t_of_int (-1) = 2 ^ 64 - 1"
  by (simp add: size_t_of_int_mod)

lemma stoi_fallback: "\<not> (v \<noteq> [] \<and> list_all is_digit v) \<Longrightarrow> stoi v fb = fb"
  unfolding stoi_def by presburger

lemma sm_index_Some: "map_of m k = Some v \<Longrightarrow> sm_index k d m = (v, m)"
  by (simp add: sm_index_def)

lemma dom_sm_index: "dom (map_of m) \<subseteq> dom (map_of (snd (sm_index k d m)))"
  by (auto simp: sm_index_def split: option.split)

lemma parseHeader_append:
  "find_sub crlf2 buf \<noteq> None \<Longrightarrow>
   parseHeader (buf @ c) = (parseHeader buf)\<lparr>body := body (parseHeader buf) @ c\<rparr>"
  by (auto simp: parseHeader_def split_pair_append Let_def split: prod.split)

subsection \<open>Removing an entry of the poll set\<close>

lemma remove_nth_set: "set (take i xs @ drop (Suc i) xs) \<subseteq> set xs"
  by (auto dest: in_set_takeD in_set_dropD)

lemma remove_nth_distinct: "distinct xs \<Longrightarrow> distinct (take i xs @ drop (Suc i) xs)"
proof (cases "i < length xs")
  case True
  assume d: "distinct xs"
  from True have "xs = take i xs @ xs ! i # drop (Suc i) xs" by (simp add: Cons_nth_drop_Suc)
  with d have "distinct (take i xs @ xs ! i # drop (Suc i) xs)" by simp
  then show ?thesis by simp
next
  case False
  assume "distinct xs"
  with False show ?thesis by simp
qed

lemma remove_nth_not_in: "distinct xs \<Longrightarrow> i < length xs \<Longrightarrow> xs ! i \<notin> set (take i xs @ drop (Suc i) xs)"
proof -
  assume d: "distinct xs" and i: "i < length xs"
  from i have "xs = take i xs @ xs ! i # drop (Suc i) xs" by (simp add: Cons_nth_drop_Suc)
  with d have "distinct (take i xs @ xs ! i # drop (Suc i) xs)" by simp
  then show ?thesis by auto
qed

lemma poll_fds_update [simp]:
  "poll_fds (s\<lparr>pfds := (pfds s)[i := (pfds s ! i)\<lparr>pfd_events := e\<rparr>]\<rparr>) = poll_fds s"
proof (cases "i < length (pfds s)")
  case True
  then have "pfd_fd (pfds s ! i) = map pfd_fd (pfds s) ! i" by simp
  then show ?thesis by (simp add: poll_fds_def map_update del: nth_map)
qed (simp add: poll_fds_def list_update_beyond)

lemma poll_fds_removePfd: "poll_fds (removePfd i s) = take i (poll_fds s) @ drop (Suc i) (poll_fds s)"
  by (simp add: poll_fds_def removePfd_def take_map drop_map)

lemma poll_fds_close_fd [simp]: "poll_fds (close_fd fd s) = poll_fds s"
  by (simp add: poll_fds_def close_fd_def)

text \<open>The entry removed at index \<open>i\<close> is gone from the poll set, and \<open>close\<close>
  releases its descriptor.\<close>

lemma close_released:
  assumes d: "distinct (poll_fds s)" and i: "i < length (pfds s)" and fd: "fd = pfd_fd (pfds s ! i)"
  shows "fd \<notin> set (poll_fds (removePfd i (close_fd fd s))) \<and> fd \<notin> set (openFds (close_fd fd s))"
proof -
  have "fd = poll_fds s ! i" "i < length (poll_fds s)" using i fd by (simp_all add: poll_fds_def)
  with remove_nth_not_in [OF d] have "fd \<notin> set (take i (poll_fds s) @ drop (Suc i) (poll_fds s))" by simp
  then show ?thesis by (simp only: poll_fds_removePfd poll_fds_close_fd) (simp add: close_fd_def)
qed

subsection \<open>The invariant is preserved\<close>

lemma ws_inv_frame:
  assumes "ws_inv s" "distinct (poll_fds s')" "set (poll_fds s') \<subseteq> set (poll_fds s)"
    "openFds s' = openFds s" "sockPort s' = sockPort s" "sm_inv (buffMap s')" "sm_inv (connPort s')"
    "dom (map_of (connPort s)) \<subseteq> dom (map_of (connPort s'))"
  shows "ws_inv s'"
  using assms unfolding ws_inv_def by (auto simp: subset_iff)

lemma removePfd_inv:
  assumes inv: "ws_inv s"
  shows "ws_inv (removePfd i s)"
proof (rule ws_inv_frame [OF inv])
  from inv have "distinct (poll_fds s)" by (simp add: ws_inv_def)
  then show "distinct (poll_fds (removePfd i s))"
    by (simp only: poll_fds_removePfd remove_nth_distinct)
  show "set (poll_fds (removePfd i s)) \<subseteq> set (poll_fds s)"
    by (simp only: poll_fds_removePfd remove_nth_set)
qed (use inv in \<open>simp_all add: removePfd_def ws_inv_def\<close>)

lemma buffMap_update_inv: "ws_inv s \<Longrightarrow> sm_inv bm \<Longrightarrow> ws_inv (s\<lparr>buffMap := bm\<rparr>)"
  by (simp add: ws_inv_def poll_fds_def)

lemma dispatch_inv:
  assumes inv: "ws_inv s" and d: "dispatch resp i fd buf s = Inr s'"
  shows "ws_inv s'"
proof -
  from d obtain out w where s': "s' = s\<lparr>pfds := (pfds s)[i := (pfds s ! i)\<lparr>pfd_events := POLLOUT\<rparr>],
      connPort := snd (sm_index fd [] (connPort s)), ioRaw := buf,
      buffMap := sm_set fd out (buffMap s), world := w\<rparr>"
    by (auto simp: dispatch_def Let_def split: prod.splits sum.splits)
  have "poll_fds s' = poll_fds s"
    using poll_fds_update [of s i POLLOUT] by (simp add: s' poll_fds_def)
  with inv show ?thesis
    by (intro ws_inv_frame [OF inv]) (auto simp: s' ws_inv_def sm_set_inv sm_index_inv dom_sm_index)
qed

lemma handle_read_inv:
  assumes inv: "ws_inv s" and r: "handle_read resp i fd buf rcv s = Inr s'"
  shows "ws_inv s'"
proof (cases "needs_more (parseHeader buf)")
  case False
  with r inv show ?thesis by (simp add: handle_read_def)
next
  case True
  show ?thesis
  proof (cases rcv)
    case None
    with r True show ?thesis by (simp add: handle_read_def)
  next
    case (Some c)
    show ?thesis
    proof (cases "c = []")
      case True
      with r \<open>needs_more (parseHeader buf)\<close> Some inv show ?thesis
        by (auto simp: handle_read_def intro: removePfd_inv)
    next
      case False
      let ?s1 = "s\<lparr>buffMap := sm_set fd (buf @ c) (buffMap s)\<rparr>"
      from inv have "sm_inv (buffMap s)" by (simp add: ws_inv_def)
      then have i1: "ws_inv ?s1" by (rule buffMap_update_inv [OF inv sm_set_inv])
      from r \<open>needs_more (parseHeader buf)\<close> Some False
      have "dispatch resp i fd (buf @ c) ?s1 = Inr s' \<or> s' = ?s1"
        by (auto simp: handle_read_def Let_def split: if_splits)
      with i1 show ?thesis by (auto intro: dispatch_inv)
    qed
  qed
qed

lemma erase_remove_inv:
  assumes inv: "ws_inv s" and i: "i < length (pfds s)" and fd: "fd = pfd_fd (pfds s ! i)"
    and nl: "map_of (sockPort s) fd = None"
  shows "ws_inv (removePfd i (s\<lparr>buffMap := sm_erase fd (buffMap s),
                                connPort := sm_erase fd (connPort s), ioRaw := []\<rparr>)) \<and>
         fd \<notin> set (poll_fds (removePfd i (s\<lparr>buffMap := sm_erase fd (buffMap s),
                                connPort := sm_erase fd (connPort s), ioRaw := []\<rparr>)))"
proof -
  let ?s' = "removePfd i (s\<lparr>buffMap := sm_erase fd (buffMap s),
                            connPort := sm_erase fd (connPort s), ioRaw := []\<rparr>)"
  let ?xs = "poll_fds s"
  have xs: "poll_fds ?s' = take i ?xs @ drop (Suc i) ?xs"
    by (simp add: poll_fds_def removePfd_def take_map drop_map)
  from inv have d: "distinct ?xs" by (simp add: ws_inv_def)
  have fdi: "fd = ?xs ! i" using i fd by (simp add: poll_fds_def)
  have il: "i < length ?xs" using i by (simp add: poll_fds_def)
  have notin: "fd \<notin> set (poll_fds ?s')" using remove_nth_not_in [OF d il] xs fdi by simp
  have sub: "set (poll_fds ?s') \<subseteq> set ?xs" using xs remove_nth_set by metis
  have "distinct (poll_fds ?s')" using xs remove_nth_distinct [OF d] by simp
  moreover have "set (poll_fds ?s') \<subseteq> set (openFds ?s')"
    using sub inv by (auto simp: ws_inv_def removePfd_def)
  moreover have "\<forall>x \<in> set (poll_fds ?s'). map_of (sockPort ?s') x = None \<longrightarrow> x \<in> dom (map_of (connPort ?s'))"
    using sub notin inv by (auto simp: ws_inv_def removePfd_def map_of_sm_erase)
  moreover have "dom (map_of (sockPort ?s')) \<subseteq> set (openFds ?s')"
    using inv by (auto simp: ws_inv_def removePfd_def)
  ultimately show ?thesis
    using inv notin by (simp add: ws_inv_def removePfd_def sm_erase_inv)
qed

lemma close_fd_inv:
  "ws_inv s \<Longrightarrow> fd \<notin> set (poll_fds s) \<Longrightarrow> map_of (sockPort s) fd = None \<Longrightarrow> ws_inv (close_fd fd s)"
  by (auto simp: ws_inv_def close_fd_def poll_fds_def)

lemma removePfd_close_fd: "removePfd i (close_fd fd s) = close_fd fd (removePfd i s)"
  by (simp add: removePfd_def close_fd_def)

lemma close_inv:
  assumes inv: "ws_inv s" and i: "i < length (pfds s)" and fd: "fd = pfd_fd (pfds s ! i)"
    and nl: "map_of (sockPort s) fd = None"
  shows "ws_inv (removePfd i (close_fd fd (s\<lparr>buffMap := sm_erase fd (buffMap s),
                                             connPort := sm_erase fd (connPort s), ioRaw := []\<rparr>)))"
proof -
  let ?X = "removePfd i (s\<lparr>buffMap := sm_erase fd (buffMap s),
                           connPort := sm_erase fd (connPort s), ioRaw := []\<rparr>)"
  from erase_remove_inv [OF inv i fd nl] have "ws_inv ?X" "fd \<notin> set (poll_fds ?X)" by auto
  moreover have "map_of (sockPort ?X) fd = None" using nl by (simp add: removePfd_def)
  ultimately have "ws_inv (close_fd fd ?X)" by (rule close_fd_inv)
  then show ?thesis by (simp add: removePfd_close_fd)
qed

lemma handle_write_inv:
  assumes inv: "ws_inv s" and i: "i < length (pfds s)" and fd: "fd = pfd_fd (pfds s ! i)"
    and nl: "map_of (sockPort s) fd = None" and w: "handle_write i fd buf k s = Inr s'"
  shows "ws_inv s'"
proof (cases "buf = []")
  case True
  let ?X = "removePfd i (s\<lparr>buffMap := sm_erase fd (buffMap s),
                           connPort := sm_erase fd (connPort s), ioRaw := []\<rparr>)"
  from erase_remove_inv [OF inv i fd nl] have e: "ws_inv ?X" "fd \<notin> set (poll_fds ?X)" by auto
  moreover have "map_of (sockPort ?X) fd = None" using nl by (simp add: removePfd_def)
  ultimately have c: "ws_inv (close_fd fd ?X)" by (rule close_fd_inv)
  with w True e show ?thesis by (auto simp: handle_write_def removePfd_close_fd split: if_splits)
next
  case False
  from inv have "sm_inv (buffMap s)" by (simp add: ws_inv_def)
  with w False inv show ?thesis
    by (auto simp: handle_write_def split: if_splits intro: buffMap_update_inv [OF inv] sm_set_inv)
qed

lemma handleIO_inv:
  assumes inv: "ws_inv s" and i: "i < length (pfds s)"
    and nl: "map_of (sockPort s) (pfd_fd (pfds s ! i)) = None"
    and h: "handleIO resp i rv rcv k s = Inr s'"
  shows "ws_inv s'"
proof -
  define fd where "fd = pfd_fd (pfds s ! i)"
  define b where "b = fst (sm_index fd [] (buffMap s))"
  define s0 where "s0 = s\<lparr>buffMap := snd (sm_index fd [] (buffMap s))\<rparr>"
  from inv have "sm_inv (buffMap s)" by (simp add: ws_inv_def)
  then have i0: "ws_inv s0" unfolding s0_def by (rule buffMap_update_inv [OF inv sm_index_inv])
  have p0: "pfds s0 = pfds s" "sockPort s0 = sockPort s" by (simp_all add: s0_def)
  have eq: "handleIO resp i rv rcv k s =
      (if rin rv then handle_read resp i fd b rcv s0
       else if rout rv then handle_write i fd b k s0 else Inr s0)"
    unfolding handleIO_def fd_def b_def s0_def Let_def ..
  show ?thesis
  proof (cases "rin rv")
    case True
    with h eq have "handle_read resp i fd b rcv s0 = Inr s'" by simp
    with i0 show ?thesis by (rule handle_read_inv)
  next
    case False
    show ?thesis
    proof (cases "rout rv")
      case True
      with False h eq have w: "handle_write i fd b k s0 = Inr s'" by simp
      have "i < length (pfds s0)" "fd = pfd_fd (pfds s0 ! i)" "map_of (sockPort s0) fd = None"
        using i nl p0 by (simp_all add: fd_def)
      then show ?thesis by (rule handle_write_inv [OF i0 _ _ _ w])
    next
      case nw: False
      with False h eq i0 show ?thesis by simp
    qed
  qed
qed

lemma acceptConnection_inv:
  assumes inv: "ws_inv s" and fresh: "newFd = -1 \<or> newFd \<notin> set (openFds s)"
  shows "ws_inv (acceptConnection prt newFd s)"
proof (cases "newFd = -1")
  case True
  with inv show ?thesis by (simp add: acceptConnection_def)
next
  case False
  with fresh have nf: "newFd \<notin> set (openFds s)" by simp
  with inv have np: "newFd \<notin> set (poll_fds s)" and ns: "map_of (sockPort s) newFd = None"
    by (auto simp: ws_inv_def)
  let ?s' = "acceptConnection prt newFd s"
  have pf: "poll_fds ?s' = poll_fds s @ [newFd]"
    using False by (simp add: acceptConnection_def addPfd_def poll_fds_def)
  have o: "openFds ?s' = newFd # openFds s" and sp: "sockPort ?s' = sockPort s"
    and b: "buffMap ?s' = sm_insert (newFd, []) (buffMap s)"
    and c: "connPort ?s' = sm_insert (newFd, prt) (connPort s)"
    using False by (simp_all add: acceptConnection_def addPfd_def)
  have dc: "dom (map_of (connPort ?s')) = insert newFd (dom (map_of (connPort s)))"
    by (auto simp: c map_of_sm_insert)
  from inv np have "distinct (poll_fds ?s')" by (simp add: pf ws_inv_def)
  moreover from inv have "set (poll_fds ?s') \<subseteq> set (openFds ?s')" by (auto simp: pf o ws_inv_def)
  moreover from inv have "\<forall>x \<in> set (poll_fds ?s'). map_of (sockPort ?s') x = None \<longrightarrow> x \<in> dom (map_of (connPort ?s'))"
    unfolding pf sp dc ws_inv_def by auto
  moreover from inv have "dom (map_of (sockPort ?s')) \<subseteq> set (openFds ?s')" by (auto simp: sp o ws_inv_def)
  ultimately show ?thesis
    using inv by (simp add: ws_inv_def b c sm_insert_inv)
qed

lemma ws_step_inv: "ws_step resp s s' \<Longrightarrow> ws_inv s \<Longrightarrow> ws_inv s'"
proof (induction rule: ws_step.induct)
  case (accept i s prt newFd)
  from accept.prems accept.hyps(3) show ?case by (rule acceptConnection_inv)
next
  case (io i s rv rcv k s')
  show ?case by (rule handleIO_inv [OF io.prems io.hyps(1,2,4)])
qed

lemma initSockets_inv:
  "ws_inv s \<Longrightarrow> distinct (sock_fds rs) \<Longrightarrow> set (sock_fds rs) \<inter> set (openFds s) = {} \<Longrightarrow>
   ws_inv (initSockets rs s)"
proof (induction rs s rule: initSockets.induct)
  case (2 p r ps s)
  show ?case
  proof (cases "list_ex (\<lambda>(fd, q). q = p) (sockPort s)")
    case True
    with 2 show ?thesis by (cases r) auto
  next
    case nb: False
    show ?thesis
    proof (cases r)
      case (Bound fd)
      let ?s = "addPfd fd (s\<lparr>sockPort := sm_insert (fd, p) (sockPort s), openFds := fd # openFds s\<rparr>)"
      from "2.prems" Bound have nf: "fd \<notin> set (openFds s)" by auto
      with "2.prems"(1) have "fd \<notin> set (poll_fds s)" by (auto simp: ws_inv_def)
      with "2.prems"(1) nf have "ws_inv ?s"
        by (auto simp: ws_inv_def poll_fds_def addPfd_def map_of_sm_insert split: if_splits)
      moreover from "2.prems" Bound have "distinct (sock_fds ps)" "set (sock_fds ps) \<inter> set (openFds ?s) = {}"
        by (auto simp: addPfd_def)
      ultimately show ?thesis using "2.IH"(2) [OF nb Bound] nb Bound by simp
    next
      case NoSocket
      with "2.prems" "2.IH"(3) nb show ?thesis by simp
    next
      case (ListenFail fd)
      from "2.prems"(1) have "ws_inv (s\<lparr>openFds := fd # openFds s\<rparr>)" by (auto simp: ws_inv_def poll_fds_def)
      moreover from "2.prems" ListenFail have "distinct (sock_fds ps)"
        "set (sock_fds ps) \<inter> set (openFds (s\<lparr>openFds := fd # openFds s\<rparr>)) = {}" by auto
      ultimately show ?thesis using "2.IH"(4) [OF nb ListenFail] nb ListenFail by simp
    qed
  qed
qed simp

lemma ws0_inv: "ws_inv (ws0 w)"
  by (simp add: ws_inv_def ws0_def poll_fds_def)

lemma sm_set_vals:
  "k \<notin> fst ` set m \<Longrightarrow> snd ` set (sm_set k v m) = insert v (snd ` set m)"
  by (induction k v m rule: sm_set.induct) auto

lemma sm_set_vals_distinct:
  "k \<notin> set (map fst m) \<Longrightarrow> v \<notin> set (map snd m) \<Longrightarrow> distinct (map snd m) \<Longrightarrow>
   distinct (map snd (sm_set k v m))"
proof (induction k v m rule: sm_set.induct)
  case (2 k v k' v' m)
  then show ?case using sm_set_vals [of k m v] by auto
qed simp

lemma sm_insert_vals_distinct:
  "v \<notin> set (map snd m) \<Longrightarrow> distinct (map snd m) \<Longrightarrow> distinct (map snd (sm_insert (k, v) m))"
  by (auto simp: sm_insert_def map_of_eq_None_iff sm_set_vals_distinct split: option.split)

lemma initSockets_ports:
  "distinct (map snd (sockPort s)) \<Longrightarrow> distinct (map snd (sockPort (initSockets ps s)))"
proof (induction ps s rule: initSockets.induct)
  case (2 p r ps s)
  have "\<not> list_ex (\<lambda>(fd, q). q = p) (sockPort s) \<Longrightarrow> p \<notin> set (map snd (sockPort s))"
    by (auto simp: list_ex_iff)
  with 2 show ?case
    by (cases r) (auto simp: addPfd_def sm_insert_vals_distinct)
qed simp

lemma ws_reach_inv:
  assumes "distinct (sock_fds rs)" and "(ws_step resp)\<^sup>*\<^sup>* (initSockets rs (ws0 w0)) s"
  shows "ws_inv s"
  using assms(2)
proof (induction rule: rtranclp_induct)
  case base
  from ws0_inv assms(1) show ?case by (rule initSockets_inv) (simp add: ws0_def)
next
  case (step y z)
  from step.hyps(2) step.IH show ?case by (rule ws_step_inv)
qed

text \<open>A connection with nothing left to send is closed and released on its next
  writable event, in every state satisfying the invariant.\<close>

lemma drained_close_inv:
  assumes inv: "ws_inv s"
    and i: "i < length (pfds s)" and fd: "fd = pfd_fd (pfds s ! i)"
    and conn: "map_of (sockPort s) fd = None"
    and empty: "map_of (buffMap s) fd \<in> {None, Some []}" and ev: "\<not> rin rv" "rout rv"
  shows "\<exists>s'. handleIO resp i rv rcv k s = Inr s' \<and> ws_inv s' \<and>
           fd \<notin> set (poll_fds s') \<and> fd \<notin> set (openFds s') \<and>
           map_of (buffMap s') fd = None \<and> map_of (connPort s') fd = None"
proof -
  have fd_poll: "fd \<in> set (poll_fds s)" using i fd by (auto simp: poll_fds_def)
  with inv conn have fd_conn: "fd \<in> dom (map_of (connPort s))" by (auto simp: ws_inv_def)
  define s0 where "s0 = s\<lparr>buffMap := snd (sm_index fd [] (buffMap s))\<rparr>"
  have b0: "fst (sm_index fd [] (buffMap s)) = []" using empty by (auto simp: sm_index_def)
  have i0: "ws_inv s0" using inv unfolding s0_def
    by (intro buffMap_update_inv [OF inv] sm_index_inv) (simp add: ws_inv_def)
  let ?s1 = "s0\<lparr>buffMap := sm_erase fd (buffMap s0), connPort := sm_erase fd (connPort s0), ioRaw := []\<rparr>"
  have h: "handleIO resp i rv rcv k s = Inr (removePfd i (close_fd fd ?s1))"
    using ev fd fd_conn b0 by (simp add: handleIO_def handle_write_def s0_def Let_def)
  have "ws_inv (removePfd i (close_fd fd ?s1))" using close_inv [OF i0] i fd conn by (simp add: s0_def)
  moreover have "fd \<notin> set (poll_fds (removePfd i (close_fd fd ?s1))) \<and> fd \<notin> set (openFds (removePfd i (close_fd fd ?s1)))"
  proof -
    have "poll_fds ?s1 = poll_fds s" "pfds ?s1 = pfds s" by (simp_all add: s0_def poll_fds_def)
    with inv i fd have "distinct (poll_fds ?s1)" "i < length (pfds ?s1)" "fd = pfd_fd (pfds ?s1 ! i)"
      by (simp_all add: ws_inv_def)
    then have "fd \<notin> set (poll_fds (removePfd i (close_fd fd ?s1))) \<and> fd \<notin> set (openFds (close_fd fd ?s1))"
      by (rule close_released)
    then show ?thesis by (simp add: removePfd_def)
  qed
  moreover have "map_of (buffMap (removePfd i (close_fd fd ?s1))) fd = None"
    "map_of (connPort (removePfd i (close_fd fd ?s1))) fd = None"
    using i0 by (simp_all add: removePfd_def close_fd_def map_of_sm_erase ws_inv_def)
  ultimately show ?thesis using h by blast
qed

subsection \<open>Where the errors of the event loop come from\<close>

text \<open>The multiplexer raises only crashes of its own; every other error it returns is
  one the responder returned.\<close>

lemma dispatch_Inl: "dispatch resp i fd buf s = Inl x \<Longrightarrow> \<exists>b p w w'. resp b p w = (Inl x, w')"
  by (auto simp: dispatch_def Let_def split: prod.splits sum.splits)

lemma handleIO_Inl:
  "handleIO resp i rv rcv k s = Inl x \<Longrightarrow> (\<exists>m. x = Crash m) \<or> (\<exists>b p w w'. resp b p w = (Inl x, w'))"
  by (auto simp: handleIO_def handle_read_def handle_write_def Let_def dest: dispatch_Inl
      split: if_splits option.splits)

lemma scan_Inl:
  "scan resp i vs s = Inl x \<Longrightarrow> (\<exists>m. x = Crash m) \<or> (\<exists>b p w w'. resp b p w = (Inl x, w'))"
proof (induction resp i vs s rule: scan.induct)
  case (2 resp i v vs s)
  then show ?case
    by (auto simp: Let_def dest: handleIO_Inl split: if_splits option.splits sum.splits)
qed simp

lemma loop_Inl:
  "loop resp its s = Inl x \<Longrightarrow> (\<exists>m. x = Crash m) \<or> (\<exists>b p w w'. resp b p w = (Inl x, w'))"
proof (induction resp its s rule: loop.induct)
  case (2 resp pollFailed vs its s)
  then show ?case by (auto dest: scan_Inl split: if_splits sum.splits)
qed simp

subsection \<open>The world of the adaptor\<close>

text \<open>The multiplexer changes the world of its adaptor only through the responses
  the adaptor returns: a run of the event loop takes it along a chain of responder
  calls.\<close>

lemma handleIO_world:
  "handleIO resp i rv rcv k s = Inr s' \<Longrightarrow>
   world s' = world s \<or> (\<exists>b p out. resp b p (world s) = (Inr out, world s'))"
  by (auto simp: handler_defs removePfd_def close_fd_def Let_def
      split: if_splits option.splits prod.splits sum.splits)

lemma ws_step_world:
  "ws_step resp s s' \<Longrightarrow> world s' = world s \<or> (\<exists>b p out. resp b p (world s) = (Inr out, world s'))"
  by (induction rule: ws_step.induct) (auto simp: acceptConnection_def addPfd_def dest: handleIO_world)

lemma ws_reach_world:
  "(ws_step resp)\<^sup>*\<^sup>* s s' \<Longrightarrow>
   (\<lambda>w w'. \<exists>b p out. resp b p w = (Inr out, w'))\<^sup>*\<^sup>* (world s) (world s')"
proof (induction rule: rtranclp_induct)
  case (step y z)
  from ws_step_world [OF step(2)] step(3) show ?case by (auto intro: rtranclp.rtrancl_into_rtrancl)
qed simp

lemma initSockets_world: "world (initSockets rs s) = world s"
  by (induction rs s rule: initSockets.induct) (auto simp: addPfd_def split: sock_res.split)

subsection \<open>Properties of the multiplexer\<close>

text \<open>Claim C1.  Every state the server reaches from its start (\<open>initSockets\<close> on
  the configured ports, then any sequence of accepts and \<open>handleIO\<close> calls that do
  not crash) satisfies the invariant \<open>ws_inv\<close>, provided the kernel hands out
  descriptors that are not open.\<close>

theorem reachable_inv:
  assumes "distinct (sock_fds rs)" and "(ws_step resp)\<^sup>*\<^sup>* (initSockets rs (ws0 w0)) s"
  shows "ws_inv s"
  using assms by (rule ws_reach_inv)

lemma ex_accept_step:
  "ws_step resp (initSockets [(''8080'', Bound 3)] (ws0 ()))
                (acceptConnection ''8080'' 5 (initSockets [(''8080'', Bound 3)] (ws0 ())))"
  by (rule ws_step.accept [where i = 0]) (simp_all add: ws0_def addPfd_def sm_insert_def)

theorem reachable_inv_witness:
  "ws_inv (acceptConnection ''8080'' 5 (initSockets [(''8080'', Bound 3)] (ws0 ())))"
proof -
  have "distinct (sock_fds [(''8080'', Bound 3)])" by simp
  moreover have "(ws_step (\<lambda>_ _ w. (Inr [], w)))\<^sup>*\<^sup>* (initSockets [(''8080'', Bound 3)] (ws0 ()))
      (acceptConnection ''8080'' 5 (initSockets [(''8080'', Bound 3)] (ws0 ())))"
    using ex_accept_step by (rule r_into_rtranclp)
  ultimately show ?thesis by (rule reachable_inv)
qed

text \<open>Claim C4.  In every reachable state, a connection whose buffer has been sent
  completely is closed when it is next writable: \<open>handleIO\<close> does not crash (the
  \<open>erase(find(fd))\<close> of lines 259--260 finds the entry) and releases the
  connection: it leaves the poll set, its descriptor is closed and its buffer and port
  entries are erased, and the invariant still holds.\<close>

theorem drained_close:
  assumes reach: "(ws_step resp)\<^sup>*\<^sup>* (initSockets rs (ws0 w0)) s" and fresh: "distinct (sock_fds rs)"
    and i: "i < length (pfds s)" and fd: "fd = pfd_fd (pfds s ! i)"
    and conn: "map_of (sockPort s) fd = None"
    and empty: "map_of (buffMap s) fd \<in> {None, Some []}" and ev: "\<not> rin rv" "rout rv"
  shows "\<exists>s'. handleIO resp i rv rcv k s = Inr s' \<and> ws_inv s' \<and>
           fd \<notin> set (poll_fds s') \<and> fd \<notin> set (openFds s') \<and>
           map_of (buffMap s') fd = None \<and> map_of (connPort s') fd = None"
proof -
  have inv: "ws_inv s" using fresh reach by (rule ws_reach_inv)
  from drained_close_inv [OF inv i fd conn empty ev] show ?thesis .
qed

theorem drained_close_witness:
  "\<exists>s'. handleIO (\<lambda>_ _ w. (Inr [], w)) 1 wr None 0
          (acceptConnection ''8080'' 5 (initSockets [(''8080'', Bound 3)] (ws0 ()))) = Inr s' \<and>
        ws_inv s' \<and> 5 \<notin> set (poll_fds s') \<and> 5 \<notin> set (openFds s') \<and>
        map_of (buffMap s') 5 = None \<and> map_of (connPort s') 5 = None"
proof -
  let ?s = "acceptConnection ''8080'' 5 (initSockets [(''8080'', Bound 3)] (ws0 ()))"
  have r: "(ws_step (\<lambda>_ _ w. (Inr [], w)))\<^sup>*\<^sup>* (initSockets [(''8080'', Bound 3)] (ws0 ())) ?s"
    using ex_accept_step by (rule r_into_rtranclp)
  have f: "distinct (sock_fds [(''8080'', Bound 3)])" by simp
  have "1 < length (pfds ?s)" "5 = pfd_fd (pfds ?s ! 1)" "map_of (sockPort ?s) 5 = None"
    "map_of (buffMap ?s) 5 \<in> {None, Some []}" "\<not> rin wr" "rout wr"
    by (simp_all add: ws0_def addPfd_def sm_insert_def acceptConnection_def wr_def)
  from drained_close [OF r f this] show ?thesis .
qed

text \<open>Claim C5.  A writable connection with bytes left to send keeps exactly the
  bytes \<open>send\<close> did not accept (lines 250--256): after a partial send of \<open>k\<close>
  bytes the buffer is its suffix from \<open>k\<close>, and nothing else changes.\<close>

theorem handleIO_partial_send:
  assumes "pfd_fd (pfds s ! i) = fd" "map_of (buffMap s) fd = Some buf" "buf \<noteq> []"
    and "\<not> rin rv" "rout rv" "0 \<le> k" "nat k \<le> length buf"
  shows "handleIO resp i rv rcv k s = Inr (s\<lparr>buffMap := sm_set fd (drop (nat k) buf) (buffMap s)\<rparr>)"
  using assms by (simp add: handler_defs sm_index_Some Let_def)

theorem handleIO_partial_send_witness:
  "handleIO (\<lambda>_ _ w. (Inr [], w)) 1 wr None 2 (ex_ws\<lparr>buffMap := [(5, ''HTTP'')]\<rparr>) =
     Inr (ex_ws\<lparr>buffMap := [(5, ''TP'')]\<rparr>)"
  using handleIO_partial_send [of "ex_ws\<lparr>buffMap := [(5, ''HTTP'')]\<rparr>" 1 5 "''HTTP''" wr 2]
  by (simp add: ex_ws_def wr_def)


lemma ex_c1_facts:
  "content_length (parseHeader []) = None \<and> content_length (parseHeader ex_c1) = Some ''3'' \<and>
   body (parseHeader ex_c1) = [] \<and> find_sub crlf2 ex_c1 = None \<and> stoi ''3'' (-1) = 3"
  by code_simp

lemma ex_c12_facts:
  "content_length (parseHeader (ex_c1 @ ex_c2)) = Some ''3'' \<and>
   body (parseHeader (ex_c1 @ ex_c2)) = ''abc'' \<and> length ex_c2 = 12 \<and> ex_c1 \<noteq> [] \<and> ex_c2 \<noteq> []"
  by code_simp



text \<open>Claim C8.  An orderly shutdown by the peer (\<open>recv\<close> returns 0 while the
  request is incomplete) only removes the entry from the poll set (line 224): the
  descriptor is not closed and its buffer and port entries stay, so the descriptor
  leaks.\<close>

theorem handleIO_peer_close:
  assumes "pfd_fd (pfds s ! i) = fd" "map_of (buffMap s) fd = Some buf" "rin rv"
    and "needs_more (parseHeader buf)"
  shows "handleIO resp i rv (Some []) k s = Inr (removePfd i s) \<and>
         openFds (removePfd i s) = openFds s \<and> buffMap (removePfd i s) = buffMap s \<and>
         connPort (removePfd i s) = connPort s"
  using assms by (simp add: handler_defs sm_index_Some removePfd_def Let_def)

theorem handleIO_peer_close_witness:
  "handleIO (\<lambda>_ _ w. (Inr [], w)) 1 rd (Some []) 0 ex_ws = Inr (removePfd 1 ex_ws) \<and>
   5 \<notin> set (poll_fds (removePfd 1 ex_ws)) \<and> 5 \<in> set (openFds (removePfd 1 ex_ws))"
proof -
  have "needs_more (parseHeader [])" using ex_c1_facts by (simp add: needs_more_def)
  with handleIO_peer_close [of ex_ws 1 5 "[]" rd "\<lambda>_ _ w. (Inr [], w)" 0]
  show ?thesis by (simp add: ex_ws_def rd_def removePfd_def poll_fds_def)
qed

text \<open>Claim C9.  A failing \<open>recv\<close> (-1) on a connection that needs more input is
  not logged and retried: \<open>buffMap[fd].append(buff, -1)\<close> (line 221) throws
  \<open>std::length_error\<close>, which nothing catches.\<close>

theorem handleIO_recv_error:
  assumes "pfd_fd (pfds s ! i) = fd" "map_of (buffMap s) fd = Some buf" "rin rv"
    and "needs_more (parseHeader buf)"
  shows "handleIO resp i rv None k s = Inl (Crash ''recv error: append(buff, -1)'')"
  using assms by (simp add: handler_defs sm_index_Some Let_def)

theorem handleIO_recv_error_witness:
  "handleIO (\<lambda>_ _ w. (Inr [], w)) 1 rd None 0 ex_ws = Inl (Crash ''recv error: append(buff, -1)'')"
proof -
  have "needs_more (parseHeader [])" using ex_c1_facts by (simp add: needs_more_def)
  with handleIO_recv_error [of ex_ws 1 5 "[]" rd "\<lambda>_ _ w. (Inr [], w)" 0] show ?thesis
    by (simp add: ex_ws_def rd_def)
qed


text \<open>Claim C10.  A failing \<open>send\<close> on a connection with bytes to send is not
  handled: \<open>byteSent\<close> is -1, and \<open>buffMap[fd].substr(byteSent)\<close> (line 255)
  converts it to a huge \<open>size_t\<close> and throws \<open>std::out_of_range\<close>, which nothing
  catches, so the server crashes; a count beyond the buffer does the same.\<close>

theorem handleIO_send_error:
  assumes "pfd_fd (pfds s ! i) = fd" "map_of (buffMap s) fd = Some buf" "buf \<noteq> []"
    and "\<not> rin rv" "rout rv" "k < 0 \<or> length buf < nat k"
  shows "handleIO resp i rv rcv k s = Inl (Crash ''substr out of range'')"
  using assms by (auto simp: handler_defs sm_index_Some Let_def)

theorem handleIO_send_error_witness:
  "handleIO (\<lambda>_ _ w. (Inr [], w)) 1 wr None (-1) (ex_ws\<lparr>buffMap := [(5, ''HTTP'')]\<rparr>) =
     Inl (Crash ''substr out of range'')"
  using handleIO_send_error [of "ex_ws\<lparr>buffMap := [(5, ''HTTP'')]\<rparr>" 1 5 "''HTTP''" wr "-1"]
  by (simp add: ex_ws_def wr_def)

text \<open>Claim C34.  \<open>initSockets\<close> opens at most one listening socket per port, so
  \<open>_socketPortmap\<close> maps no two descriptors to the same port, whatever the
  configured ports and whatever \<open>initSocket\<close> does.\<close>

theorem initSockets_one_per_port:
  "distinct (map snd (sockPort (initSockets ps (ws0 w))))"
  by (rule initSockets_ports) (simp add: ws0_def)



end
