(* ===== verification/Server.thy ===== *)
theory Server
  imports Multiplexer
begin

text \<open>
  The lifetime of a \<open>WebServer\<close> around its event loop (src/src/WebServer.cpp):
  \<open>WebServer::loop\<close> as the unbounded \<open>for (;;)\<close> it is, its destructor, and
  \<open>addPfds\<close>.  The kernel is an environment trace: at iteration \<open>n\<close> it says
  whether \<open>poll\<close> failed and, if not, what each entry of the poll set reports and
  what the system calls of its handler return.  The loop is a
  \<open>partial_function (option)\<close>, so that a run that never returns is the value
  \<open>None\<close>; the lemmas show that it returns as soon as \<open>poll\<close> fails, with the
  state the finite model \<open>loop\<close> computes, and only then or on a crash.
\<close>

text \<open>\<open>WebServer::loop\<close>, lines 156--183: \<open>poll\<close> failing returns, otherwise the
  poll set is scanned and the loop starts again.\<close>

partial_function (option) serve ::
  "'w responder \<Rightarrow> (nat \<Rightarrow> bool \<times> visit list) \<Rightarrow> nat \<Rightarrow> 'w ws \<Rightarrow> (exn + 'w ws) option" where
  "serve resp kern n s =
     (if fst (kern n) then Some (Inr s)
      else case scan resp 0 (snd (kern n)) s of
             Inl e \<Rightarrow> Some (Inl e)
           | Inr s' \<Rightarrow> serve resp kern (Suc n) s')"

text \<open>The constructor \<open>WebServer::WebServer(filePath, io)\<close>, lines 17--27: the
  configuration parser (outside the core) yields the server blocks, whose ports with
  the outcome of \<open>initSocket\<close> for each are the argument, and the adaptor \<open>io\<close>
  contributes its world; then \<open>initSockets\<close> runs on the empty state.\<close>

definition construct :: "(str \<times> sock_res) list \<Rightarrow> 'w \<Rightarrow> 'w ws" where
  "construct rs w = initSockets rs (ws0 w)"

text \<open>\<open>WebServer::~WebServer\<close>, lines 29--35: every descriptor of the poll set is
  closed.\<close>

definition destroy :: "'w ws \<Rightarrow> 'w ws" where
  "destroy s = fold close_fd (poll_fds s) s"

text \<open>\<open>WebServer::addPfds\<close>, lines 276--283: \<open>addPfd\<close> for each descriptor in
  turn.\<close>

definition addPfds :: "int list \<Rightarrow> 'w ws \<Rightarrow> 'w ws" where
  "addPfds fds s = fold addPfd fds s"

text \<open>A kernel whose \<open>poll\<close> reports nothing twice and then fails.\<close>

definition ex_kern :: "nat \<Rightarrow> bool \<times> visit list" where
  "ex_kern j = (2 \<le> j, [idle, idle])"

text \<open>The visits of one iteration of the loop in which only the entry at index
  \<open>i\<close> is ready, writable, and \<open>send\<close> accepts \<open>k\<close> bytes.\<close>

definition send_visits :: "nat \<Rightarrow> int \<Rightarrow> visit list" where
  "send_visits i k = replicate i idle @ [\<lparr>v_rev = wr, v_rcv = None, v_ret = k\<rparr>]"

lemma fold_close_fd_fields:
  "pfds (fold close_fd fds s) = pfds s \<and> buffMap (fold close_fd fds s) = buffMap s \<and>
   set (openFds (fold close_fd fds s)) = set (openFds s) - set fds"
  by (induction fds arbitrary: s) (auto simp: close_fd_def)

lemma destroy_openFds: "set (openFds (destroy s)) = set (openFds s) - set (poll_fds s)"
  by (simp add: destroy_def fold_close_fd_fields)

lemma poll_fds_addPfds: "poll_fds (addPfds fds s) = poll_fds s @ fds"
  by (induction fds arbitrary: s) (simp_all add: addPfds_def addPfd_def poll_fds_def)



text \<open>Claim C17.  Under normal operation \<open>WebServer::loop\<close> never returns (spec
  section 4.1): a run that returns a state has seen \<open>poll\<close> fail; otherwise it
  returned a crash.\<close>

theorem serve_returns_only_on_failure:
  assumes "serve resp kern n s = Some r"
  shows "isl r \<or> (\<exists>j \<ge> n. fst (kern j))"
proof (rule serve.raw_induct [where P = "\<lambda>resp kern n s r. isl r \<or> (\<exists>j \<ge> n. fst (kern j))", OF _ assms])
  fix f resp kern n s r
  assume ih: "\<And>resp kern n s r. f resp kern n s = Some r \<Longrightarrow> isl r \<or> (\<exists>j \<ge> n. fst (kern j))"
    and step: "(if fst (kern n) then Some (Inr s)
                else case scan resp 0 (snd (kern n)) s of
                       Inl e \<Rightarrow> Some (Inl e)
                     | Inr s' \<Rightarrow> f resp kern (Suc n) s') = Some r"
  show "isl r \<or> (\<exists>j \<ge> n. fst (kern j))"
  proof (cases "fst (kern n)")
    case True
    then show ?thesis by auto
  next
    case False
    show ?thesis
    proof (cases "scan resp 0 (snd (kern n)) s")
      case (Inl e)
      with False step show ?thesis by auto
    next
      case (Inr s')
      with False step have "f resp kern (Suc n) s' = Some r" by simp
      then have "isl r \<or> (\<exists>j \<ge> Suc n. fst (kern j))" by (rule ih)
      then show ?thesis by (auto dest: Suc_leD)
    qed
  qed
qed

theorem serve_returns_only_on_failure_witness:
  "isl (Inr (ws0 ()) :: exn + unit ws) \<or> (\<exists>j \<ge> 0. fst (ex_kern j))"
proof -
  have "serve (\<lambda>_ _ w. (Inr [], w)) ex_kern 0 (ws0 ()) = Some (Inr (ws0 ()))"
    by (simp add: serve.simps [of _ ex_kern] ex_kern_def idle_def)
  then show ?thesis by (rule serve_returns_only_on_failure)
qed

text \<open>Claim C20.  A connection the peer closes while its request is incomplete is
  only taken out of the poll set (line 224), and the destructor closes only what is
  polled (lines 29--35): its descriptor is still open after the server is destroyed.
  Together with the loop this leaks one descriptor per client that disconnects
  early.\<close>

theorem peer_close_leaks_past_destroy:
  assumes inv: "ws_inv s" and i: "i < length (pfds s)" "pfd_fd (pfds s ! i) = fd"
    and b: "map_of (buffMap s) fd = Some buf" "rin rv" "needs_more (parseHeader buf)"
  shows "\<exists>s'. handleIO resp i rv (Some []) k s = Inr s' \<and> fd \<notin> set (poll_fds s') \<and>
              fd \<in> set (openFds (destroy s'))"
proof -
  have h: "handleIO resp i rv (Some []) k s = Inr (removePfd i s)"
    using b i(2) by (simp add: handler_defs sm_index_Some Let_def)
  have d: "distinct (poll_fds s)" and o: "set (poll_fds s) \<subseteq> set (openFds s)"
    using inv by (simp_all add: ws_inv_def)
  have fd: "poll_fds s ! i = fd" "i < length (poll_fds s)" using i by (simp_all add: poll_fds_def)
  then have "fd \<in> set (poll_fds s)" by (metis nth_mem)
  with o have op: "fd \<in> set (openFds (removePfd i s))" by (auto simp: removePfd_def)
  have "fd \<notin> set (poll_fds (removePfd i s))"
    using remove_nth_not_in [OF d fd(2)] fd(1) by (simp add: poll_fds_removePfd)
  with op h show ?thesis by (simp add: destroy_openFds)
qed

theorem peer_close_leaks_past_destroy_witness:
  "\<exists>s'. handleIO (\<lambda>_ _ w. (Inr [], w)) 1 rd (Some []) 0 ex_ws = Inr s' \<and> 5 \<notin> set (poll_fds s') \<and>
        5 \<in> set (openFds (destroy s'))"
proof -
  have "ws_inv ex_ws" by (simp add: ws_inv_def ex_ws_def poll_fds_def sm_inv_def)
  moreover have "needs_more (parseHeader [])" by code_simp
  ultimately show ?thesis
    using peer_close_leaks_past_destroy [of ex_ws 1 5 "[]" rd "\<lambda>_ _ w. (Inr [], w)" 0]
    by (simp add: ex_ws_def rd_def)
qed


subsection \<open>The send phase and the listening sockets\<close>

lemma scan_idle:
  "j + n < length (pfds s) \<Longrightarrow> scan resp j (replicate n idle @ vs) s = scan resp (j + n) vs s"
  by (induction n arbitrary: j) (simp_all add: idle_def)

lemma scan_send_visits:
  assumes "i < length (pfds s)" "map_of (sockPort s) (pfd_fd (pfds s ! i)) = None"
  shows "scan resp 0 (send_visits i k) s = handleIO resp i wr None k s"
proof -
  have "scan resp 0 (send_visits i k) s = scan resp i [\<lparr>v_rev = wr, v_rcv = None, v_ret = k\<rparr>] s"
    using scan_idle [of 0 i s resp] assms(1) by (simp add: send_visits_def)
  also have "\<dots> = handleIO resp i wr None k s"
    using assms by (simp add: wr_def split: sum.split)
  finally show ?thesis .
qed

text \<open>Claim C18.  The send phase terminates when the kernel makes progress: a
  connection with \<open>b\<close> bytes left to send, in a state satisfying the invariant, is
  closed and its descriptor released after the loop iterations in which \<open>send\<close>
  accepts \<open>k\<^sub>1, ..., k\<^sub>n\<close> bytes (each positive, together \<open>length b\<close>) and
  one more writable event.  The remaining length is the measure that decreases.\<close>

theorem drain_closes:
  assumes "ws_inv s" "i < length (pfds s)" "pfd_fd (pfds s ! i) = fd" "map_of (sockPort s) fd = None"
    and "map_of (buffMap s) fd = Some b" "\<forall>k \<in> set ks. 0 < k" "sum_list ks = int (length b)"
  shows "\<exists>s'. loop resp (map (\<lambda>k. (False, send_visits i k)) (ks @ [0])) s = Inr s' \<and> ws_inv s' \<and>
              fd \<notin> set (poll_fds s') \<and> fd \<notin> set (openFds s')"
  using assms
proof (induction ks arbitrary: s b)
  case Nil
  then have "b = []" by simp
  with Nil.prems drained_close_inv [where resp = resp and rv = wr and rcv = None and k = 0, OF Nil.prems(1,2) Nil.prems(3) [symmetric]]
  obtain s' where "handleIO resp i wr None 0 s = Inr s'" "ws_inv s'" "fd \<notin> set (poll_fds s')"
    "fd \<notin> set (openFds s')" by (auto simp: wr_def)
  with Nil.prems show ?case by (simp add: scan_send_visits)
next
  case (Cons k ks)
  have sk: "0 \<le> sum_list ks" using Cons.prems(6) by (induction ks) (auto intro: add_nonneg_nonneg)
  with Cons.prems(6,7) have k: "0 < k" "nat k \<le> length b" "b \<noteq> []" by auto
  define s1 where "s1 = s\<lparr>buffMap := sm_set fd (drop (nat k) b) (buffMap s)\<rparr>"
  have h: "handleIO resp i wr None k s = Inr s1"
    using Cons.prems k by (simp add: handler_defs sm_index_Some s1_def wr_def Let_def)
  have i1: "ws_inv s1" using Cons.prems(1) unfolding s1_def
    by (intro buffMap_update_inv sm_set_inv) (simp_all add: ws_inv_def)
  have "\<exists>s'. loop resp (map (\<lambda>k. (False, send_visits i k)) (ks @ [0])) s1 = Inr s' \<and> ws_inv s' \<and>
              fd \<notin> set (poll_fds s') \<and> fd \<notin> set (openFds s')"
    using Cons.prems k by (intro Cons.IH [OF i1, of "drop (nat k) b"]) (simp_all add: s1_def)
  with h Cons.prems(2-4) show ?case by (simp add: scan_send_visits)
qed

theorem drain_closes_witness:
  "\<exists>s'. loop (\<lambda>_ _ w. (Inr [], w)) (map (\<lambda>k. (False, send_visits 1 k)) ([1, 3] @ [0]))
          (ex_ws2\<lparr>buffMap := [(5, ''HTTP''), (7, [])]\<rparr>) = Inr s' \<and> ws_inv s' \<and>
        5 \<notin> set (poll_fds s') \<and> 5 \<notin> set (openFds s')"
  by (rule drain_closes) (simp_all add: ex_ws2_def ws_inv_def poll_fds_def sm_inv_def, code_simp)

lemma initSockets_append: "initSockets (xs @ ys) s = initSockets ys (initSockets xs s)"
  by (induction xs s rule: initSockets.induct) (auto split: sock_res.split)

lemma sock_fds_append: "sock_fds (xs @ ys) = sock_fds xs @ sock_fds ys"
  by (induction xs rule: sock_fds.induct) simp_all

lemma initSockets_openFds: "set (openFds s) \<subseteq> set (openFds (initSockets rs s))"
  by (induction rs s rule: initSockets.induct) (auto simp: addPfd_def split: sock_res.split)

lemma sm_insert_vals: "snd ` set (sm_insert (k, v) m) \<subseteq> insert v (snd ` set m)"
proof (cases "map_of m k")
  case None
  then have "k \<notin> fst ` set m" by (simp add: map_of_eq_None_iff)
  with None show ?thesis by (simp add: sm_insert_def sm_set_vals)
qed (auto simp: sm_insert_def)

lemma initSockets_ports_sub:
  "snd ` set (sockPort (initSockets rs s)) \<subseteq> snd ` set (sockPort s) \<union> {p. \<exists>q. (p, Bound q) \<in> set rs}"
proof (induction rs s rule: initSockets.induct)
  case (2 p r ps s)
  show ?case
  proof (cases "list_ex (\<lambda>(fd, q). q = p) (sockPort s)")
    case True
    with "2.IH"(1) show ?thesis by auto
  next
    case nb: False
    show ?thesis
    proof (cases r)
      case (Bound fd)
      let ?s = "addPfd fd (s\<lparr>sockPort := sm_insert (fd, p) (sockPort s), openFds := fd # openFds s\<rparr>)"
      have sub: "snd ` set (sockPort ?s) \<subseteq> insert p (snd ` set (sockPort s))"
        using sm_insert_vals [of fd p "sockPort s"] by (simp add: addPfd_def)
      have eq: "initSockets ((p, r) # ps) s = initSockets ps ?s" using nb Bound by simp
      show ?thesis
      proof (rule subsetI)
        fix x assume "x \<in> snd ` set (sockPort (initSockets ((p, r) # ps) s))"
        then have "x \<in> snd ` set (sockPort ?s) \<or> (\<exists>q. (x, Bound q) \<in> set ps)"
          using "2.IH"(2) [OF nb Bound] unfolding eq by blast
        with sub Bound show "x \<in> snd ` set (sockPort s) \<union> {p'. \<exists>q. (p', Bound q) \<in> set ((p, r) # ps)}"
          by auto
      qed
    next
      case NoSocket
      with "2.IH"(3) [OF nb NoSocket] nb show ?thesis by auto
    next
      case (ListenFail fd)
      with "2.IH"(4) [OF nb ListenFail] nb show ?thesis by auto
    qed
  qed
qed simp

lemma initSockets_polled:
  "set (poll_fds (initSockets rs s)) \<subseteq> set (poll_fds s) \<union> {fd. \<exists>p. (p, Bound fd) \<in> set rs}"
proof (induction rs s rule: initSockets.induct)
  case (2 p r ps s)
  show ?case
  proof (cases "list_ex (\<lambda>(fd, q). q = p) (sockPort s)")
    case True
    with "2.IH"(1) show ?thesis by auto
  next
    case nb: False
    show ?thesis
    proof (cases r)
      case (Bound fd)
      let ?s = "addPfd fd (s\<lparr>sockPort := sm_insert (fd, p) (sockPort s), openFds := fd # openFds s\<rparr>)"
      have "set (poll_fds ?s) = insert fd (set (poll_fds s))" by (auto simp: addPfd_def poll_fds_def)
      with "2.IH"(2) [OF nb Bound] nb Bound show ?thesis by auto
    next
      case NoSocket
      with "2.IH"(3) [OF nb NoSocket] nb show ?thesis by auto
    next
      case (ListenFail fd)
      have "poll_fds (s\<lparr>openFds := fd # openFds s\<rparr>) = poll_fds s" by (simp add: poll_fds_def)
      with "2.IH"(4) [OF nb ListenFail] nb ListenFail show ?thesis by auto
    qed
  qed
qed simp

lemma sock_fds_Bound: "(q, Bound fd) \<in> set rs \<Longrightarrow> fd \<in> set (sock_fds rs)"
  by (induction rs rule: sock_fds.induct) auto

lemma sock_fds_ListenFail: "(q, ListenFail fd) \<in> set rs \<Longrightarrow> fd \<in> set (sock_fds rs)"
  by (induction rs rule: sock_fds.induct) auto

lemma sock_fds_unique:
  "distinct (sock_fds rs) \<Longrightarrow> (q, Bound fd) \<in> set rs \<Longrightarrow> (p, ListenFail fd) \<in> set rs \<Longrightarrow> False"
  by (induction rs rule: sock_fds.induct) (auto dest: sock_fds_Bound sock_fds_ListenFail)

text \<open>Claim C21.  A port whose \<open>listen\<close> fails leaks its socket: \<open>initSocket\<close>
  throws without closing it (lines 104--108), \<open>initSockets\<close> catches and logs the
  throw, the descriptor is never polled, and the destructor, which closes only the
  polled descriptors, leaves it open.\<close>

theorem listen_failure_leaks:
  assumes d: "distinct (sock_fds rs)" and rs: "rs = xs @ (p, ListenFail fd) # ys"
    and nb: "\<forall>q. (p, Bound q) \<notin> set xs"
  shows "fd \<notin> set (poll_fds (construct rs w)) \<and> fd \<in> set (openFds (destroy (construct rs w)))"
proof -
  let ?s = "initSockets xs (ws0 w)"
  have sub: "snd ` set (sockPort ?s) \<subseteq> snd ` set (sockPort (ws0 w)) \<union> {p. \<exists>q. (p, Bound q) \<in> set xs}"
    by (rule initSockets_ports_sub)
  have np: "\<not> list_ex (\<lambda>(fd, q). q = p) (sockPort ?s)"
  proof
    assume "list_ex (\<lambda>(fd, q). q = p) (sockPort ?s)"
    then obtain a where "(a, p) \<in> set (sockPort ?s)" by (auto simp: list_ex_iff)
    then have "p \<in> snd ` set (sockPort ?s)" by force
    with sub nb show False by (auto simp: ws0_def)
  qed
  then have "initSockets ((p, ListenFail fd) # ys) ?s = initSockets ys (?s\<lparr>openFds := fd # openFds ?s\<rparr>)"
    by simp
  then have "fd \<in> set (openFds (initSockets ((p, ListenFail fd) # ys) ?s))"
    using initSockets_openFds [of "?s\<lparr>openFds := fd # openFds ?s\<rparr>" ys] by auto
  then have o: "fd \<in> set (openFds (construct rs w))" by (simp add: construct_def rs initSockets_append)
  have nbf: "(q, Bound fd) \<notin> set rs" for q
    using sock_fds_unique [OF d, of q fd p] rs by auto
  have "set (poll_fds (construct rs w)) \<subseteq> set (poll_fds (ws0 w)) \<union> {fd. \<exists>p. (p, Bound fd) \<in> set rs}"
    unfolding construct_def by (rule initSockets_polled)
  moreover have "poll_fds (ws0 w) = []" by (simp add: ws0_def poll_fds_def)
  ultimately have "fd \<notin> set (poll_fds (construct rs w))" using nbf by auto
  with o show ?thesis by (simp add: destroy_openFds)
qed

theorem listen_failure_leaks_witness:
  "3 \<notin> set (poll_fds (construct [(''8080'', ListenFail 3)] ())) \<and>
   3 \<in> set (openFds (destroy (construct [(''8080'', ListenFail 3)] ())))"
  by (rule listen_failure_leaks [where xs = "[]" and p = "''8080''" and ys = "[]"]) simp_all

end
