(* ===== verification/ConnSpec.thy ===== *)
theory ConnSpec
  imports Multiplexer
begin

text \<open>
  The PendingConnection of the specification (sections 3 and 4.1) as an abstract
  machine, and the refinement of it by the multiplexer of \<open>Multiplexer\<close>.  A
  connection is a descriptor with its phase (reading a request or writing a response,
  the \<open>events\<close> it is polled for), its buffer and the port it was accepted on.  The
  abstract machine opens a connection with an empty buffer, appends received bytes,
  replaces a complete request by the response of the \<open>IOAdaptor\<close> and turns to
  writing, drops the bytes a send accepted, and forgets a connection when the peer
  closes it while it is reading or when its response is drained.  The abstract state
  pairs the table with the world of the adaptor, which only a response changes.
  \<open>conn_tab\<close> reads the table of connections off the state of \<open>WebServer\<close>,
  \<open>conn_abs\<close> adds the world, and every step of the event loop is a step of the
  abstract machine or leaves the abstract state unchanged.
\<close>

type_synonym conn = "pevent \<times> str \<times> str"
type_synonym ctab = "int \<rightharpoonup> conn"

type_synonym 'w cstate = "ctab \<times> 'w"

inductive conn_step :: "'w responder \<Rightarrow> 'w cstate \<Rightarrow> 'w cstate \<Rightarrow> bool" for resp where
  conn_open: "T fd = None \<Longrightarrow> conn_step resp (T, w) (T(fd \<mapsto> (POLLIN, [], p)), w)"
| conn_recv: "T fd = Some (POLLIN, b, p) \<Longrightarrow> conn_step resp (T, w) (T(fd \<mapsto> (POLLIN, b @ c, p)), w)"
| conn_respond: "T fd = Some (POLLIN, b, p) \<Longrightarrow> resp (b @ c) p w = (Inr out, w') \<Longrightarrow>
    conn_step resp (T, w) (T(fd \<mapsto> (POLLOUT, out, p)), w')"
| conn_send: "T fd = Some (POLLOUT, b, p) \<Longrightarrow> n \<le> length b \<Longrightarrow>
    conn_step resp (T, w) (T(fd \<mapsto> (POLLOUT, drop n b, p)), w)"
| conn_peer_close: "T fd = Some (POLLIN, b, p) \<Longrightarrow> conn_step resp (T, w) (T(fd := None), w)"
| conn_drained: "T fd = Some (POLLOUT, [], p) \<Longrightarrow> conn_step resp (T, w) (T(fd := None), w)"

text \<open>The connections of a state: the polled descriptors that are not listening
  sockets, with the \<open>events\<close> of their entry, their \<open>buffMap\<close> entry (what
  \<open>buffMap[fd]\<close> reads) and their port.\<close>

definition conn_tab :: "'w ws \<Rightarrow> ctab" where
  "conn_tab s fd =
     (case find (\<lambda>p. pfd_fd p = fd) (pfds s) of
        None \<Rightarrow> None
      | Some e \<Rightarrow>
          if map_of (sockPort s) fd \<noteq> None then None
          else Some (pfd_events e, fst (sm_index fd [] (buffMap s)), fst (sm_index fd [] (connPort s))))"

text \<open>The abstract state of a server: its connections and the world of its adaptor.\<close>

definition conn_abs :: "'w ws \<Rightarrow> 'w cstate" where
  "conn_abs s = (conn_tab s, world s)"

text \<open>No stale entries: every descriptor with a buffer or a port is open, so a
  descriptor \<open>accept\<close> hands out starts with an empty buffer.\<close>

definition conn_inv :: "'w ws \<Rightarrow> bool" where
  "conn_inv s \<longleftrightarrow> ws_inv s \<and> dom (map_of (buffMap s)) \<subseteq> set (openFds s) \<and>
     dom (map_of (connPort s)) \<subseteq> set (openFds s)"

subsection \<open>Finding an entry of the poll set\<close>

lemma find_fd_absent: "x \<notin> set (map pfd_fd xs) \<Longrightarrow> find (\<lambda>p. pfd_fd p = x) xs = None"
  by (force simp: find_None_iff)

lemma find_fd_remove:
  "distinct (map pfd_fd xs) \<Longrightarrow> i < length xs \<Longrightarrow>
   find (\<lambda>p. pfd_fd p = x) (take i xs @ drop (Suc i) xs) =
     (if x = pfd_fd (xs ! i) then None else find (\<lambda>p. pfd_fd p = x) xs)"
proof (induction xs arbitrary: i)
  case (Cons y ys)
  show ?case
  proof (cases i)
    case 0
    then show ?thesis using Cons.prems by (simp add: find_fd_absent)
  next
    case (Suc j)
    with Cons.prems have j: "j < length ys" "distinct (map pfd_fd ys)" by simp_all
    have "pfd_fd (ys ! j) \<in> set (map pfd_fd ys)" using j(1) by simp
    then have "pfd_fd (ys ! j) \<noteq> pfd_fd y" using Cons.prems(1) by auto
    with Cons.IH [OF j(2) j(1)] Suc show ?thesis by auto
  qed
qed simp

lemma find_fd_update:
  "distinct (map pfd_fd xs) \<Longrightarrow> i < length xs \<Longrightarrow>
   find (\<lambda>p. pfd_fd p = x) (xs[i := (xs ! i)\<lparr>pfd_events := e\<rparr>]) =
     (if x = pfd_fd (xs ! i) then Some ((xs ! i)\<lparr>pfd_events := e\<rparr>) else find (\<lambda>p. pfd_fd p = x) xs)"
proof (induction xs arbitrary: i)
  case (Cons y ys)
  show ?case
  proof (cases i)
    case 0
    then show ?thesis using Cons.prems by simp
  next
    case (Suc j)
    with Cons.prems have j: "j < length ys" "distinct (map pfd_fd ys)" by simp_all
    have "pfd_fd (ys ! j) \<in> set (map pfd_fd ys)" using j(1) by simp
    then have "pfd_fd (ys ! j) \<noteq> pfd_fd y" using Cons.prems(1) by auto
    with Cons.IH [OF j(2) j(1)] Suc show ?thesis by auto
  qed
qed simp

lemma find_fd_snoc:
  "x \<notin> set (map pfd_fd xs) \<Longrightarrow>
   find (\<lambda>p. pfd_fd p = x) (xs @ [\<lparr>pfd_fd = x, pfd_events = e\<rparr>]) = Some \<lparr>pfd_fd = x, pfd_events = e\<rparr>"
  by (induction xs) auto

lemma find_fd_snoc_other:
  "y \<noteq> x \<Longrightarrow> find (\<lambda>p. pfd_fd p = y) (xs @ [\<lparr>pfd_fd = x, pfd_events = e\<rparr>]) = find (\<lambda>p. pfd_fd p = y) xs"
  by (induction xs) auto


lemma find_fd_nth:
  "distinct (map pfd_fd xs) \<Longrightarrow> i < length xs \<Longrightarrow> find (\<lambda>p. pfd_fd p = pfd_fd (xs ! i)) xs = Some (xs ! i)"
proof (induction xs arbitrary: i)
  case (Cons y ys)
  show ?case
  proof (cases i)
    case (Suc j)
    with Cons.prems have j: "j < length ys" "distinct (map pfd_fd ys)" by simp_all
    have "pfd_fd (ys ! j) \<in> set (map pfd_fd ys)" using j(1) by simp
    then have "pfd_fd (ys ! j) \<noteq> pfd_fd y" using Cons.prems(1) by auto
    with Cons.IH [OF j(2) j(1)] Suc show ?thesis by auto
  qed simp
qed simp

subsection \<open>The outcomes of \<open>handleIO\<close>\<close>

text \<open>A call of \<open>handleIO\<close> that does not crash ends in one of six ways: nothing
  changes but the \<open>buffMap[fd]\<close> entry, the peer closed, a chunk was appended, the
  request was dispatched, a send was accounted, or the connection was closed.\<close>

lemma handleIO_Inr_cases:
  assumes h: "handleIO resp i rv rcv k s = Inr s'"
  defines "fd \<equiv> pfd_fd (pfds s ! i)" and "b \<equiv> fst (sm_index (pfd_fd (pfds s ! i)) [] (buffMap s))"
    and "s0 \<equiv> s\<lparr>buffMap := snd (sm_index (pfd_fd (pfds s ! i)) [] (buffMap s))\<rparr>"
  obtains (idle) "s' = s0"
  | (peer) "rin rv" "s' = removePfd i s0"
  | (recv) c where "rin rv" "s' = s0\<lparr>buffMap := sm_set fd (b @ c) (buffMap s0)\<rparr>"
  | (respond) c out w' where "rin rv"
      "resp (b @ c) (fst (sm_index fd [] (connPort s0))) (world s0) = (Inr out, w')"
      "s' = s0\<lparr>pfds := (pfds s0)[i := (pfds s0 ! i)\<lparr>pfd_events := POLLOUT\<rparr>],
               connPort := snd (sm_index fd [] (connPort s0)), ioRaw := b @ c,
               buffMap := sm_set fd out (buffMap s0), world := w'\<rparr>"
  | (send) "\<not> rin rv" "rout rv" "b \<noteq> []" "0 \<le> k" "nat k \<le> length b"
      "s' = s0\<lparr>buffMap := sm_set fd (drop (nat k) b) (buffMap s0)\<rparr>"
  | (close) "\<not> rin rv" "rout rv" "b = []" "fd \<in> dom (map_of (connPort s0))"
      "s' = removePfd i (close_fd fd (s0\<lparr>buffMap := sm_erase fd (buffMap s0),
                                        connPort := sm_erase fd (connPort s0), ioRaw := []\<rparr>))"
proof -
  have hio: "handleIO resp i rv rcv k s =
    (if rin rv then handle_read resp i fd b rcv s0
     else if rout rv then handle_write i fd b k s0 else Inr s0)"
    by (simp add: handleIO_def fd_def b_def s0_def Let_def)
  show thesis
  proof (cases "rin rv")
    case r: True
    with h hio have hr: "handle_read resp i fd b rcv s0 = Inr s'" by simp
    show thesis
    proof (cases "needs_more (parseHeader b)")
      case False
      with hr have "s' = s0" by (simp add: handle_read_def Let_def)
      then show thesis by (rule idle)
    next
      case nm: True
      show thesis
      proof (cases rcv)
        case None
        with hr nm show thesis by (simp add: handle_read_def Let_def)
      next
        case (Some c)
        show thesis
        proof (cases "c = []")
          case True
          with hr nm Some have "s' = removePfd i s0" by (simp add: handle_read_def Let_def)
          with r show thesis by (rule peer)
        next
          case False
          define s1 where "s1 = s0\<lparr>buffMap := sm_set fd (b @ c) (buffMap s0)\<rparr>"
          have "s' = s1 \<or> dispatch resp i fd (b @ c) s1 = Inr s'"
            using hr nm Some False by (auto simp: handle_read_def Let_def s1_def split: if_splits)
          then show thesis
          proof
            assume "s' = s1"
            with r show thesis unfolding s1_def by (rule recv)
          next
            assume d: "dispatch resp i fd (b @ c) s1 = Inr s'"
            obtain x w' where o: "resp (b @ c) (fst (sm_index fd [] (connPort s1))) (world s1) = (x, w')"
              by fastforce
            with d obtain out where x: "x = Inr out"
              by (cases x) (simp_all add: dispatch_def Let_def)
            with o d have "s' = s0\<lparr>pfds := (pfds s0)[i := (pfds s0 ! i)\<lparr>pfd_events := POLLOUT\<rparr>],
               connPort := snd (sm_index fd [] (connPort s0)), ioRaw := b @ c,
               buffMap := sm_set fd out (buffMap s0), world := w'\<rparr>"
              by (simp add: dispatch_def Let_def s1_def)
            moreover from o x have "resp (b @ c) (fst (sm_index fd [] (connPort s0))) (world s0) = (Inr out, w')"
              by (simp add: s1_def)
            ultimately show thesis using r by (intro respond)
          qed
        qed
      qed
    qed
  next
    case nr: False
    show thesis
    proof (cases "rout rv")
      case False
      with h hio nr have "s' = s0" by simp
      then show thesis by (rule idle)
    next
      case w: True
      with h hio nr have hw: "handle_write i fd b k s0 = Inr s'" by simp
      show thesis
      proof (cases "b = []")
        case False
        with hw have "0 \<le> k" "nat k \<le> length b" "s' = s0\<lparr>buffMap := sm_set fd (drop (nat k) b) (buffMap s0)\<rparr>"
          by (auto simp: handle_write_def split: if_splits)
        with nr w False show thesis by (intro send)
      next
        case True
        with hw have "fd \<in> dom (map_of (connPort s0))"
          "s' = removePfd i (close_fd fd (s0\<lparr>buffMap := sm_erase fd (buffMap s0),
                                            connPort := sm_erase fd (connPort s0), ioRaw := []\<rparr>))"
          by (auto simp: handle_write_def split: if_splits)
        with nr w True show thesis by (intro close)
      qed
    qed
  qed
qed


subsection \<open>The abstraction of each outcome\<close>

lemma sm_index_twice: "fst (sm_index x d (snd (sm_index k d m))) = fst (sm_index x d m)"
  by (cases "x = k") (simp_all add: sm_index_val map_of_sm_index sm_index_other)

lemma conn_tab_index: "conn_tab (s\<lparr>buffMap := snd (sm_index fd [] (buffMap s))\<rparr>) = conn_tab s"
  by (rule ext) (simp add: conn_tab_def sm_index_twice split: option.split)

lemma conn_tab_buff:
  "conn_tab s fd = Some (e, b, p) \<Longrightarrow>
   conn_tab (s\<lparr>buffMap := sm_set fd v (buffMap s)\<rparr>) = (conn_tab s)(fd \<mapsto> (e, v, p))"
  by (auto simp: conn_tab_def sm_index_val fun_eq_iff split: option.splits if_splits)

lemma conn_tab_remove:
  "distinct (poll_fds s) \<Longrightarrow> i < length (pfds s) \<Longrightarrow>
   conn_tab (removePfd i s) = (conn_tab s)(pfd_fd (pfds s ! i) := None)"
  by (rule ext) (simp add: conn_tab_def removePfd_def find_fd_remove poll_fds_def split: option.split)

lemma conn_tab_nth:
  "distinct (poll_fds s) \<Longrightarrow> i < length (pfds s) \<Longrightarrow> fd = pfd_fd (pfds s ! i) \<Longrightarrow>
   map_of (sockPort s) fd = None \<Longrightarrow>
   conn_tab s fd = Some (pfd_events (pfds s ! i), fst (sm_index fd [] (buffMap s)), fst (sm_index fd [] (connPort s)))"
  by (simp add: conn_tab_def find_fd_nth poll_fds_def)

lemma conn_tab_respond:
  assumes d: "distinct (poll_fds s)" and i: "i < length (pfds s)" and fd: "fd = pfd_fd (pfds s ! i)"
    and c: "conn_tab s fd = Some (e, b, p)"
  shows "conn_tab (s\<lparr>pfds := (pfds s)[i := (pfds s ! i)\<lparr>pfd_events := POLLOUT\<rparr>],
                     connPort := snd (sm_index fd [] (connPort s)), ioRaw := r,
                     buffMap := sm_set fd out (buffMap s), world := w\<rparr>) = (conn_tab s)(fd \<mapsto> (POLLOUT, out, p))"
proof (rule ext)
  fix x
  have f: "find (\<lambda>q. pfd_fd q = x) ((pfds s)[i := (pfds s ! i)\<lparr>pfd_events := POLLOUT\<rparr>]) =
     (if x = fd then Some ((pfds s ! i)\<lparr>pfd_events := POLLOUT\<rparr>) else find (\<lambda>q. pfd_fd q = x) (pfds s))"
    using find_fd_update [of "pfds s" i x POLLOUT] d i fd by (simp add: poll_fds_def)
  show "conn_tab (s\<lparr>pfds := (pfds s)[i := (pfds s ! i)\<lparr>pfd_events := POLLOUT\<rparr>],
                     connPort := snd (sm_index fd [] (connPort s)), ioRaw := r,
                     buffMap := sm_set fd out (buffMap s), world := w\<rparr>) x = ((conn_tab s)(fd \<mapsto> (POLLOUT, out, p))) x"
  proof (cases "x = fd")
    case True
    from c have sp: "map_of (sockPort s) fd = None" "fst (sm_index fd [] (connPort s)) = p"
      by (auto simp: conn_tab_def split: option.splits if_splits)
    from f have "find (\<lambda>q. pfd_fd q = fd) ((pfds s)[i := (pfds s ! i)\<lparr>pfd_events := POLLOUT\<rparr>]) =
      Some ((pfds s ! i)\<lparr>pfd_events := POLLOUT\<rparr>)" by (simp add: True)
    moreover have "fst (sm_index fd [] (sm_set fd out (buffMap s))) = out" by (simp add: sm_index_val)
    ultimately show ?thesis using sp True by (simp add: conn_tab_def sm_index_twice)
  next
    case False
    then show ?thesis
      by (simp add: conn_tab_def f sm_index_val sm_index_other split: option.split)
  qed
qed

lemma conn_tab_close:
  assumes inv: "ws_inv s" and i: "i < length (pfds s)" and fd: "fd = pfd_fd (pfds s ! i)"
  shows "conn_tab (removePfd i (close_fd fd (s\<lparr>buffMap := sm_erase fd (buffMap s),
            connPort := sm_erase fd (connPort s), ioRaw := []\<rparr>))) = (conn_tab s)(fd := None)"
proof -
  let ?x = "close_fd fd (s\<lparr>buffMap := sm_erase fd (buffMap s), connPort := sm_erase fd (connPort s), ioRaw := []\<rparr>)"
  have d: "distinct (poll_fds ?x)" "i < length (pfds ?x)" "pfd_fd (pfds ?x ! i) = fd"
    using inv i fd by (simp_all add: close_fd_def poll_fds_def ws_inv_def)
  have "conn_tab ?x y = conn_tab s y" if "y \<noteq> fd" for y
    using inv that by (simp add: conn_tab_def close_fd_def sm_index_val map_of_sm_erase ws_inv_def
      split: option.split)
  then show ?thesis using conn_tab_remove [OF d(1,2)] d(3) by (auto simp: fun_eq_iff)
qed

lemma conn_tab_accept:
  assumes inv: "conn_inv s" and fresh: "newFd \<notin> set (openFds s)" and nf: "newFd \<noteq> -1"
  shows "conn_tab s newFd = None \<and>
         conn_tab (acceptConnection prt newFd s) = (conn_tab s)(newFd \<mapsto> (POLLIN, [], prt))"
proof -
  from inv fresh have np: "newFd \<notin> set (map pfd_fd (pfds s))" and nb: "newFd \<notin> dom (map_of (buffMap s))"
    and nc: "newFd \<notin> dom (map_of (connPort s))" and ns: "map_of (sockPort s) newFd = None"
    by (auto simp: conn_inv_def ws_inv_def poll_fds_def)
  have "conn_tab s newFd = None" using np by (simp add: conn_tab_def find_fd_absent)
  moreover have "conn_tab (acceptConnection prt newFd s) x = ((conn_tab s)(newFd \<mapsto> (POLLIN, [], prt))) x" for x
  proof (cases "x = newFd")
    case True
    with np nb nc ns nf show ?thesis
      by (simp add: conn_tab_def acceptConnection_def addPfd_def find_fd_snoc sm_index_val map_of_sm_insert)
  next
    case False
    with nb nc nf show ?thesis
      by (auto simp: conn_tab_def acceptConnection_def addPfd_def find_fd_snoc_other sm_index_val map_of_sm_insert
          split: option.splits)
  qed
  ultimately show ?thesis by auto
qed


lemma dom_sm_index_eq: "dom (map_of (snd (sm_index k d m))) = insert k (dom (map_of m))"
  by (auto simp: sm_index_def split: option.split)

lemma find_fd_in: "find (\<lambda>p. pfd_fd p = x) xs = Some e \<Longrightarrow> x \<in> set (map pfd_fd xs)"
  by (induction xs) (auto split: if_splits)

subsection \<open>Every step of the event loop is a step of the connection machine\<close>

lemma ws_step_refines:
  assumes st: "ws_step resp s s'" and inv: "conn_inv s"
  shows "conn_step resp (conn_abs s) (conn_abs s') \<or> conn_abs s' = conn_abs s"
  using st
proof cases
  case (accept i prt newFd)
  show ?thesis
  proof (cases "newFd = -1")
    case True
    then show ?thesis using accept(1) by (simp add: acceptConnection_def conn_abs_def)
  next
    case False
    with accept(4) have fresh: "newFd \<notin> set (openFds s)" by simp
    from conn_tab_accept [OF inv fresh False] accept(1)
    have "conn_tab s newFd = None" "conn_tab s' = (conn_tab s)(newFd \<mapsto> (POLLIN, [], prt))" by simp_all
    moreover have "world s' = world s" using accept(1) by (simp add: acceptConnection_def addPfd_def)
    ultimately show ?thesis by (auto simp: conn_abs_def intro: conn_step.conn_open)
  qed
next
  case (io i rv rcv k)
  define fd where "fd = pfd_fd (pfds s ! i)"
  define b where "b = fst (sm_index (pfd_fd (pfds s ! i)) [] (buffMap s))"
  define s0 where "s0 = s\<lparr>buffMap := snd (sm_index (pfd_fd (pfds s ! i)) [] (buffMap s))\<rparr>"
  define p where "p = fst (sm_index fd [] (connPort s))"
  have wi: "ws_inv s" using inv by (simp add: conn_inv_def)
  then have d: "distinct (poll_fds s)" by (simp add: ws_inv_def)
  have a0: "conn_tab s0 = conn_tab s" by (simp add: s0_def conn_tab_index)
  have c: "conn_tab s fd = Some (pfd_events (pfds s ! i), b, p)"
    using conn_tab_nth [OF d io(1) fd_def] io(2) by (simp add: fd_def b_def p_def)
  have f0: "pfds s0 = pfds s" "connPort s0 = connPort s" "poll_fds s0 = poll_fds s"
    by (simp_all add: s0_def poll_fds_def)
  have pk: "rin rv \<Longrightarrow> pfd_events (pfds s ! i) = POLLIN" "rout rv \<Longrightarrow> pfd_events (pfds s ! i) = POLLOUT"
    using io(3) by (simp_all add: poll_ok_def)
  from io(4) show ?thesis
  proof (cases rule: handleIO_Inr_cases)
    case idle
    then show ?thesis by (simp add: s0_def conn_tab_index conn_abs_def)
  next
    case peer
    have d0: "distinct (poll_fds s0)" "i < length (pfds s0)" using d io(1) by (simp_all add: f0)
    from conn_tab_remove [OF d0] have "conn_tab (removePfd i s0) = (conn_tab s)(fd := None)"
      by (simp add: a0 f0 fd_def)
    then have "conn_tab s' = (conn_tab s)(fd := None)" using peer(2) by (simp add: s0_def)
    moreover have "conn_tab s fd = Some (POLLIN, b, p)" using c pk(1) [OF peer(1)] by simp
    moreover have "world s' = world s" using peer(2) by (simp add: s0_def removePfd_def)
    ultimately show ?thesis by (auto simp: conn_abs_def intro: conn_step.conn_peer_close)
  next
    case (recv c')
    have "conn_tab s0 fd = Some (POLLIN, b, p)" using c pk(1) [OF recv(1)] a0 by simp
    from conn_tab_buff [OF this, of "b @ c'"] recv(2) a0
    have "conn_tab s' = (conn_tab s)(fd \<mapsto> (POLLIN, b @ c', p))" by (simp add: fd_def b_def s0_def)
    moreover have "conn_tab s fd = Some (POLLIN, b, p)" using c pk(1) [OF recv(1)] by simp
    moreover have "world s' = world s" using recv(2) by (simp add: s0_def)
    ultimately show ?thesis by (auto simp: conn_abs_def intro: conn_step.conn_recv)
  next
    case (respond c' out w')
    have c0: "conn_tab s0 fd = Some (POLLIN, b, p)" using c pk(1) [OF respond(1)] a0 by simp
    have d0: "distinct (poll_fds s0)" "i < length (pfds s0)" "fd = pfd_fd (pfds s0 ! i)"
      using d io(1) by (simp_all add: f0 fd_def)
    from conn_tab_respond [where r = "b @ c'" and out = out and w = w', OF d0 c0]
    have "conn_tab s' = (conn_tab s0)(fd \<mapsto> (POLLOUT, out, p))"
      using respond(3) by (simp add: fd_def b_def s0_def)
    then have "conn_tab s' = (conn_tab s)(fd \<mapsto> (POLLOUT, out, p))" by (simp add: a0)
    moreover have "resp (b @ c') p (world s) = (Inr out, w')" using respond(2) f0 by (simp add: p_def fd_def b_def s0_def)
    moreover have "conn_tab s fd = Some (POLLIN, b, p)" using c pk(1) [OF respond(1)] by simp
    moreover have "world s' = w'" using respond(3) by simp
    ultimately show ?thesis by (auto simp: conn_abs_def intro: conn_step.conn_respond)
  next
    case send
    have "conn_tab s0 fd = Some (POLLOUT, b, p)" using c pk(2) [OF send(2)] a0 by simp
    from conn_tab_buff [OF this, of "drop (nat k) b"] send(6) a0
    have "conn_tab s' = (conn_tab s)(fd \<mapsto> (POLLOUT, drop (nat k) b, p))" by (simp add: fd_def b_def s0_def)
    moreover have "conn_tab s fd = Some (POLLOUT, b, p)" using c pk(2) [OF send(2)] by simp
    moreover have "nat k \<le> length b" using send(5) by (simp add: b_def)
    moreover have "world s' = world s" using send(6) by (simp add: s0_def)
    ultimately show ?thesis by (auto simp: conn_abs_def intro: conn_step.conn_send)
  next
    case close
    have w0: "ws_inv s0" unfolding s0_def
      by (rule buffMap_update_inv [OF wi sm_index_inv]) (use wi in \<open>simp add: ws_inv_def\<close>)
    have "conn_tab s' = (conn_tab s)(fd := None)"
      using conn_tab_close [OF w0, of i fd] close(5) io(1) a0 by (simp add: f0 fd_def s0_def)
    moreover have "conn_tab s fd = Some (POLLOUT, [], p)" using c pk(2) [OF close(2)] close(3) by (simp add: b_def)
    moreover have "world s' = world s" using close(5) by (simp add: s0_def removePfd_def close_fd_def)
    ultimately show ?thesis by (auto simp: conn_abs_def intro: conn_step.conn_drained)
  qed
qed


subsection \<open>No stale entries\<close>

lemma conn_inv_step:
  assumes st: "ws_step resp s s'" and inv: "conn_inv s"
  shows "conn_inv s'"
proof -
  have wi: "ws_inv s" using inv by (simp add: conn_inv_def)
  have w': "ws_inv s'" using ws_step_inv [OF st wi] .
  from st have "dom (map_of (buffMap s')) \<subseteq> set (openFds s') \<and> dom (map_of (connPort s')) \<subseteq> set (openFds s')"
  proof cases
    case (accept i prt newFd)
    with inv show ?thesis
      by (auto simp: conn_inv_def acceptConnection_def addPfd_def map_of_sm_insert split: if_splits)
  next
    case (io i rv rcv k)
    define fd where "fd = pfd_fd (pfds s ! i)"
    have "fd \<in> set (poll_fds s)" using io(1) by (simp add: fd_def poll_fds_def)
    then have fo: "fd \<in> set (openFds s)" using wi by (auto simp: ws_inv_def)
    have si: "sm_inv (snd (sm_index fd [] (buffMap s)))" "sm_inv (connPort s)"
      using wi by (simp_all add: ws_inv_def sm_index_inv)
    from io(4) show ?thesis
    proof (cases rule: handleIO_Inr_cases)
      case (close)
      with inv fo si show ?thesis
        by (auto simp: conn_inv_def removePfd_def close_fd_def map_of_sm_erase dom_sm_index_eq fd_def)
    qed (use inv fo in \<open>auto simp: conn_inv_def removePfd_def dom_sm_index_eq fd_def\<close>)
  qed
  with w' show ?thesis by (simp add: conn_inv_def)
qed

lemma initSockets_fields:
  "buffMap (initSockets rs s) = buffMap s \<and> connPort (initSockets rs s) = connPort s \<and>
   world (initSockets rs s) = world s"
  by (induction rs s rule: initSockets.induct) (auto simp: addPfd_def split: sock_res.split)

lemma initSockets_listeners:
  "\<forall>fd \<in> set (poll_fds s). map_of (sockPort s) fd \<noteq> None \<Longrightarrow>
   \<forall>fd \<in> set (poll_fds (initSockets rs s)). map_of (sockPort (initSockets rs s)) fd \<noteq> None"
proof (induction rs s rule: initSockets.induct)
  case (2 p r ps s)
  show ?case
  proof (cases "list_ex (\<lambda>(fd, q). q = p) (sockPort s)")
    case True
    with 2 show ?thesis by simp
  next
    case False
    show ?thesis
    proof (cases r)
      case (Bound fd)
      have "\<forall>x \<in> set (poll_fds (addPfd fd (s\<lparr>sockPort := sm_insert (fd, p) (sockPort s),
                                              openFds := fd # openFds s\<rparr>))).
              map_of (sockPort (addPfd fd (s\<lparr>sockPort := sm_insert (fd, p) (sockPort s),
                                              openFds := fd # openFds s\<rparr>))) x \<noteq> None"
        using "2.prems" by (auto simp: addPfd_def poll_fds_def map_of_sm_insert)
      with 2(2) [OF False Bound] False Bound show ?thesis by simp
    next
      case NoSocket
      with 2(3) [OF False NoSocket] "2.prems" False show ?thesis by simp
    next
      case (ListenFail fd)
      have "\<forall>x \<in> set (poll_fds (s\<lparr>openFds := fd # openFds s\<rparr>)).
              map_of (sockPort (s\<lparr>openFds := fd # openFds s\<rparr>)) x \<noteq> None"
        using "2.prems" by (simp add: poll_fds_def)
      with 2(4) [OF False ListenFail] False ListenFail show ?thesis by simp
    qed
  qed
qed simp

lemma conn_inv_init: "distinct (sock_fds rs) \<Longrightarrow> conn_inv (initSockets rs (ws0 w0))"
  using initSockets_inv [OF ws0_inv] initSockets_fields [of rs "ws0 w0"]
  by (simp add: conn_inv_def ws0_def)

lemma conn_tab_init: "conn_tab (initSockets rs (ws0 w0)) = Map.empty"
proof (rule ext)
  fix x
  have l: "\<forall>fd \<in> set (poll_fds (initSockets rs (ws0 w0))). map_of (sockPort (initSockets rs (ws0 w0))) fd \<noteq> None"
    by (rule initSockets_listeners) (simp add: ws0_def poll_fds_def)
  show "conn_tab (initSockets rs (ws0 w0)) x = None"
  proof (cases "find (\<lambda>p. pfd_fd p = x) (pfds (initSockets rs (ws0 w0)))")
    case (Some e)
    have "x \<in> set (poll_fds (initSockets rs (ws0 w0)))" using find_fd_in [OF Some] by (simp add: poll_fds_def)
    with l have "map_of (sockPort (initSockets rs (ws0 w0))) x \<noteq> None" by blast
    with Some show ?thesis by (simp add: conn_tab_def)
  qed (simp add: conn_tab_def)
qed


lemma conn_reach:
  assumes "distinct (sock_fds rs)" and "(ws_step resp)\<^sup>*\<^sup>* (initSockets rs (ws0 w0)) s"
  shows "conn_inv s \<and> (conn_step resp)\<^sup>*\<^sup>* (Map.empty, w0) (conn_abs s)"
  using assms(2)
proof (induction rule: rtranclp_induct)
  case base
  have "world (initSockets rs (ws0 w0)) = w0" using initSockets_fields [of rs "ws0 w0"] by (simp add: ws0_def)
  then show ?case using conn_inv_init [OF assms(1)] by (simp add: conn_tab_init conn_abs_def)
next
  case (step y z)
  then have iz: "conn_inv z" by (blast intro: conn_inv_step)
  from ws_step_refines [OF step(2)] step(3)
  have "conn_step resp (conn_abs y) (conn_abs z) \<or> conn_abs z = conn_abs y" by blast
  with step(3) iz show ?case by (auto intro: rtranclp.rtrancl_into_rtrancl)
qed

subsection \<open>What a writing connection holds\<close>

lemma conn_step_writing:
  assumes "conn_step resp T T'"
    and "\<forall>fd b p. fst T fd = Some (POLLOUT, b, p) \<longrightarrow>
           (\<exists>raw out k w w'. resp raw p w = (Inr out, w') \<and> b = drop k out)"
  shows "\<forall>fd b p. fst T' fd = Some (POLLOUT, b, p) \<longrightarrow>
           (\<exists>raw out k w w'. resp raw p w = (Inr out, w') \<and> b = drop k out)"
  using assms
proof (induction rule: conn_step.induct)
  case (conn_respond T fd b p c w out w')
  show ?case
  proof (intro allI impI)
    fix x b' p'
    assume x: "fst (T(fd \<mapsto> (POLLOUT, out, p)), w') x = Some (POLLOUT, b', p')"
    show "\<exists>raw out k w w'. resp raw p' w = (Inr out, w') \<and> b' = drop k out"
    proof (cases "x = fd")
      case True
      with x have "b' = out" "p' = p" by simp_all
      with conn_respond(2) show ?thesis by (metis drop_0)
    next
      case False
      with x conn_respond(3) show ?thesis by simp
    qed
  qed
next
  case (conn_send T fd b p n w)
  show ?case
  proof (intro allI impI)
    fix x b' p'
    assume x: "fst (T(fd \<mapsto> (POLLOUT, drop n b, p)), w) x = Some (POLLOUT, b', p')"
    show "\<exists>raw out k w w'. resp raw p' w = (Inr out, w') \<and> b' = drop k out"
    proof (cases "x = fd")
      case True
      from conn_send(1,3) obtain raw out k v v' where "resp raw p v = (Inr out, v')" "b = drop k out"
        by fastforce
      moreover have "b' = drop (n + k) out" "p' = p" using x True \<open>b = drop k out\<close> by auto
      ultimately show ?thesis by blast
    next
      case False
      with x conn_send(3) show ?thesis by simp
    qed
  qed
qed auto

lemma conn_steps_writing:
  assumes "(conn_step resp)\<^sup>*\<^sup>* (Map.empty, w0) T"
  shows "\<forall>fd b p. fst T fd = Some (POLLOUT, b, p) \<longrightarrow>
           (\<exists>raw out k w w'. resp raw p w = (Inr out, w') \<and> b = drop k out)"
  using assms
proof (induction rule: rtranclp_induct)
  case (step T T')
  from step(2) step(3) show ?case by (rule conn_step_writing)
qed simp

text \<open>A server that accepted a connection on port 8080 and answered its request with
  \<open>OK\<close>, through an adaptor that does not change its world.\<close>

definition ex_served :: "unit ws" where
  "ex_served = \<lparr>pfds = [\<lparr>pfd_fd = 3, pfd_events = POLLIN\<rparr>, \<lparr>pfd_fd = 5, pfd_events = POLLOUT\<rparr>],
      buffMap = [(5, ''OK'')], connPort = [(5, ''8080'')], sockPort = [(3, ''8080'')],
      ioRaw = ''GET / HTTP/1.1'' @ crlf2, openFds = [5, 3], world = ()\<rparr>"

lemma ex_served_steps:
  "(ws_step (\<lambda>_ _ w. (Inr ''OK'', w)))\<^sup>*\<^sup>* (initSockets [(''8080'', Bound 3)] (ws0 ())) ex_served"
proof -
  let ?s1 = "acceptConnection ''8080'' 5 (initSockets [(''8080'', Bound 3)] (ws0 ()))"
  have a: "ws_step (\<lambda>_ _ w. (Inr ''OK'', w)) (initSockets [(''8080'', Bound 3)] (ws0 ())) ?s1"
    by (rule ex_accept_step)
  have s1: "?s1 = \<lparr>pfds = [\<lparr>pfd_fd = 3, pfd_events = POLLIN\<rparr>, \<lparr>pfd_fd = 5, pfd_events = POLLIN\<rparr>],
      buffMap = [(5, [])], connPort = [(5, ''8080'')], sockPort = [(3, ''8080'')],
      ioRaw = [], openFds = [5, 3], world = ()\<rparr>"
    by (simp add: ws0_def acceptConnection_def addPfd_def sm_insert_def)
  have h: "handleIO (\<lambda>_ _ w. (Inr ''OK'', w)) 1 rd (Some (''GET / HTTP/1.1'' @ crlf2)) 0 ?s1 =
    Inr ex_served"
    unfolding s1 ex_served_def by code_simp
  have "ws_step (\<lambda>_ _ w. (Inr ''OK'', w)) ?s1 ex_served"
    by (rule ws_step.io [OF _ _ _ h]) (simp_all only: s1, simp_all add: poll_ok_def rd_def)
  with a show ?thesis by (meson converse_rtranclp_into_rtranclp r_into_rtranclp)
qed

text \<open>Claim C2.  The abstract state of every reachable state of the event loop (its
  connection table and the world of its adaptor) is reached by the abstract
  connection machine from the empty table and the initial world: every accept, read,
  dispatch, send and close the loop performs is an abstract step, every other visit
  leaves the abstract state unchanged, and the world changes only through the
  responses of the adaptor.\<close>

theorem conn_refinement:
  assumes "distinct (sock_fds rs)" and "(ws_step resp)\<^sup>*\<^sup>* (initSockets rs (ws0 w0)) s"
  shows "(conn_step resp)\<^sup>*\<^sup>* (Map.empty, w0) (conn_abs s)"
  using conn_reach [OF assms] by simp

theorem conn_refinement_witness:
  "(conn_step (\<lambda>_ _ w. (Inr ''OK'', w)))\<^sup>*\<^sup>* (Map.empty, ()) (conn_abs ex_served)"
  by (rule conn_refinement [OF _ ex_served_steps]) simp

text \<open>Claim C3.  In every reachable state, what a connection in the writing phase
  still has to send is a suffix of a response the \<open>IOAdaptor\<close> returned for a
  request on that connection's port: the loop never sends bytes of its own.\<close>

theorem writing_holds_response:
  assumes "distinct (sock_fds rs)" and "(ws_step resp)\<^sup>*\<^sup>* (initSockets rs (ws0 w0)) s"
    and "conn_tab s fd = Some (POLLOUT, b, p)"
  shows "\<exists>raw out k w w'. resp raw p w = (Inr out, w') \<and> b = drop k out"
  using conn_steps_writing [of resp w0 "conn_abs s"] conn_reach [OF assms(1,2)] assms(3)
  by (simp add: conn_abs_def)

theorem writing_holds_response_witness:
  "\<exists>raw out k w w'. (\<lambda>_ _ w. (Inr ''OK'' :: exn + str, w)) raw ''8080'' w = (Inr out, w') \<and>
     ''OK'' = drop k out"
proof -
  have "conn_tab ex_served 5 = Some (POLLOUT, ''OK'', ''8080'')"
    by (simp add: conn_tab_def ex_served_def sm_index_def)
  from writing_holds_response [OF _ ex_served_steps this] show ?thesis by simp
qed

end
