(* ===== verification/IOAdaptor.thy ===== *)
theory IOAdaptor
  imports Multiplexer
begin

text \<open>
  The base class \<open>IOAdaptor\<close> of src/src/IOAdaptor.cpp and the exception class of
  src/src/CustomException.cpp.  The adaptor's only state is \<open>receivedRaw\<close>, which
  the model keeps in the field \<open>ioRaw\<close> of the server state; the multiplexer calls
  \<open>receiveMessage\<close> and then the virtual \<open>getMessageToSend\<close>, so an adaptor is a
  \<open>responder\<close> applied to the message just received.  The base implementation
  echoes the message between fixed lines and leaves its world as it is, coloured by the escape sequences of
  \<open>colors.h\<close>; that header is not part of the repository, so the sequences are a
  parameter of the model.  \<open>MethodIO\<close> (theory \<open>Pipeline\<close>) is the adaptor the
  server runs.
\<close>

record colours =
  c_bgreen :: str
  c_bblue :: str
  c_reset :: str

text \<open>\<open>IOAdaptor::receiveMessage\<close> (lines 24--27) and \<open>IOAdaptor::getRaw\<close>
  (lines 42--45).\<close>

definition receiveMessage :: "str \<Rightarrow> 'w ws \<Rightarrow> 'w ws" where
  "receiveMessage raw s = s\<lparr>ioRaw := raw\<rparr>"

definition getRaw :: "'w ws \<Rightarrow> str" where
  "getRaw s = ioRaw s"

text \<open>\<open>IOAdaptor::getMessageToSend\<close> (lines 29--38): the message received, between
  a header line and the fixed reply; the server and the port are ignored.\<close>

definition echo_message :: "colours \<Rightarrow> 'w responder" where
  "echo_message col raw prt w =
     (Inr (c_bgreen col @ ''Received message:'' @ [LF] @ c_reset col @ raw @ c_bblue col @ [LF] @
           ''Sending back: Hello, world!'' @ [LF] @ c_reset col), w)"

text \<open>\<open>IOAdaptor::operator=\<close> (lines 15--19), which the copy constructor (lines
  10--13) calls: the received message is copied; nothing else of the server changes.\<close>

definition assign_adaptor :: "'w ws \<Rightarrow> 'w ws \<Rightarrow> 'w ws" where
  "assign_adaptor dst src = dst\<lparr>ioRaw := ioRaw src\<rparr>"

text \<open>\<open>operator<<(os, adaptor)\<close> (lines 46--53): the received message between a
  coloured header line and a closing line; \<open>std::endl\<close> writes a newline.\<close>

definition print_adaptor :: "colours \<Rightarrow> 'w ws \<Rightarrow> str" where
  "print_adaptor col s =
     c_bblue col @ ''Message: '' @ c_reset col @ [LF] @ getRaw s @ [LF] @
     c_bblue col @ ''End'' @ c_reset col @ [LF] @ replicate 40 (CHR ''-'') @ [LF]"

text \<open>\<open>CustomException\<close> (lines 4--15): it stores its message and \<open>what()\<close>
  returns it.\<close>

datatype custom_exception = CustomException str

primrec what :: "custom_exception \<Rightarrow> str" where
  "what (CustomException m) = m"

subsection \<open>The adaptor as seen by the multiplexer\<close>

text \<open>A dispatch leaves the dispatched message in the adaptor: \<open>dispatch\<close> is
  \<open>receiveMessage\<close> followed by the call of the responder on that message.\<close>

lemma dispatch_receiveMessage:
  "dispatch resp i fd buf s = Inr s' \<Longrightarrow> getRaw s' = buf"
  by (auto simp: dispatch_def getRaw_def Let_def split: prod.splits sum.splits)

lemma dispatch_as_receiveMessage:
  "dispatch resp i fd buf s =
     (let r = sm_index fd [] (connPort s);
          s = receiveMessage buf (s\<lparr>pfds := (pfds s)[i := (pfds s ! i)\<lparr>pfd_events := POLLOUT\<rparr>],
                                   connPort := snd r\<rparr>)
      in case resp buf (fst r) (world s) of
           (Inl e, w) \<Rightarrow> Inl e
         | (Inr out, w) \<Rightarrow> Inr (s\<lparr>buffMap := sm_set fd out (buffMap s), world := w\<rparr>))"
  by (simp add: dispatch_def receiveMessage_def Let_def)

text \<open>The echoing adaptor never fails, so a server running it crashes only where the
  multiplexer itself does.\<close>

lemma echo_message_Inr: "\<exists>out. echo_message col raw prt w = (Inr out, w)"
  by (simp add: echo_message_def)

lemma loop_echo_Crash:
  "loop (echo_message col) its s = Inl x \<Longrightarrow> \<exists>m. x = Crash m"
  using loop_Inl [of "echo_message col" its s x] by (auto simp: echo_message_def)

text \<open>What the adaptor prints after a dispatch is the dispatched request, framed,
  whatever the responder answered; and a copy prints the same.\<close>

lemma print_after_dispatch:
  "dispatch resp i fd buf s = Inr s' \<Longrightarrow>
   print_adaptor col s' = c_bblue col @ ''Message: '' @ c_reset col @ [LF] @ buf @ [LF] @
     c_bblue col @ ''End'' @ c_reset col @ [LF] @ replicate 40 (CHR ''-'') @ [LF]"
  by (simp add: print_adaptor_def dispatch_receiveMessage)

lemma print_assign: "print_adaptor col (assign_adaptor dst src) = print_adaptor col src"
  by (simp add: print_adaptor_def assign_adaptor_def getRaw_def)

end
