(* ===== verification/Config.thy ===== *)
theory Config
  imports StdMap
begin

text \<open>
  The RouteTable: the configuration scopes the request pipeline reads.  The sources
  declare \<open>ServerBlock\<close> (src/includes/ServerBlock.hpp) as a subclass of \<open>ABlock\<close>
  with its ports, server names and a \<open>std::map\<close> of \<open>LocationBlock\<close>s keyed by
  path prefix; the implementations of \<open>ABlock\<close>, \<open>LocationBlock\<close> and
  \<open>ServerBlock\<close> are not under src/, so their accessors follow the data model of the
  specification (section 3): a scope has a root, an ordered list of index files,
  allowed methods, a maximum body size (0 is unlimited), a redirection (code 0 for
  none) and an error-page map.  The inheritance is a record extension.
  \<open>getLocationBlockPair\<close> is the longest-prefix lookup of section 4.3; it is
  computed on the sorted location map by taking the last matching key, and the
  lemmas below show that this is the longest matching prefix.
\<close>

record ablock =
  b_root :: str
  b_index :: "str list"
  b_allowed :: "str list"
  b_maxBody :: int
  b_redir :: "int \<times> str"
  b_errorPages :: "(int, str) stdmap"

record sblock = ablock +
  sb_ports :: "str list"
  sb_names :: "str list"
  sb_locs :: "(str, ablock) stdmap"

text \<open>A default-constructed \<open>ServerBlock\<close>, the value of \<open>block\<close> in
  \<open>getMessageToSend\<close> before routing: no root, so an error raised before routing is
  answered without an error page (spec section 7).\<close>

definition empty_sblock :: sblock where
  "empty_sblock = \<lparr>b_root = [], b_index = [], b_allowed = [], b_maxBody = 0, b_redir = (0, []),
     b_errorPages = [], sb_ports = [], sb_names = [], sb_locs = []\<rparr>"

text \<open>\<open>ServerBlock::getLocationBlockPair(basePath)\<close>: the location whose key is the
  longest prefix of \<open>basePath\<close>.  When no key matches, the server-level scope is the
  default (section 3), with the empty prefix.\<close>

definition getLocationBlockPair :: "sblock \<Rightarrow> str \<Rightarrow> str \<times> ablock" where
  "getLocationBlockPair sb base =
     (case filter (\<lambda>(k, _). starts_with base k) (sb_locs sb) of
        [] \<Rightarrow> ([], ablock.truncate sb)
      | ms \<Rightarrow> last ms)"

text \<open>The redirection codes a server's scopes can answer with: its own and those of
  its locations.\<close>

definition scope_redirects :: "sblock \<Rightarrow> int list" where
  "scope_redirects sb = fst (b_redir sb) # map (\<lambda>kl. fst (b_redir (snd kl))) (sb_locs sb)"

text \<open>The reference the lookup is compared with: some matching key of maximal
  length.\<close>

definition longest_prefix :: "str list \<Rightarrow> str \<Rightarrow> str \<Rightarrow> bool" where
  "longest_prefix ks base k \<longleftrightarrow>
     k \<in> set ks \<and> starts_with base k \<and> (\<forall>k' \<in> set ks. starts_with base k' \<longrightarrow> length k' \<le> length k)"

text \<open>A configuration used in the examples: port 8080, server name localhost, a
  root location serving \<open>www\<close> with index \<open>index.html\<close> for GET and HEAD, a
  location \<open>/old\<close> redirecting to \<open>/new\<close>, and an upload location \<open>/up\<close>
  for POST, DELETE and GET; bodies are limited to 16 bytes.\<close>

definition ex_loc_root :: ablock where
  "ex_loc_root = \<lparr>b_root = ''www'', b_index = [''index.html''], b_allowed = [''GET'', ''HEAD''],
     b_maxBody = 0, b_redir = (0, []), b_errorPages = [(404, ''404.html'')]\<rparr>"
definition ex_loc_old :: ablock where
  "ex_loc_old = \<lparr>b_root = ''www'', b_index = [], b_allowed = [''GET'', ''HEAD''],
     b_maxBody = 0, b_redir = (301, ''/new''), b_errorPages = []\<rparr>"
definition ex_loc_up :: ablock where
  "ex_loc_up = \<lparr>b_root = ''www/up'', b_index = [], b_allowed = [''POST'', ''DELETE'', ''GET''],
     b_maxBody = 0, b_redir = (0, []), b_errorPages = []\<rparr>"
definition ex_server :: sblock where
  "ex_server = \<lparr>b_root = ''www'', b_index = [''index.html''], b_allowed = [], b_maxBody = 16,
     b_redir = (0, []), b_errorPages = [(404, ''404.html''), (413, ''413.html'')],
     sb_ports = [''8080''], sb_names = [''localhost''],
     sb_locs = [(''/'', ex_loc_root), (''/old'', ex_loc_old), (''/up'', ex_loc_up)]\<rparr>"
subsection \<open>Prefixes of one string form a chain\<close>

lemma prefixes_chain:
  assumes "starts_with s a" "starts_with s b" "length a \<le> length b"
  shows "starts_with b a"
proof -
  have "a = take (length a) s" "b = take (length b) s" using assms(1,2) by (simp_all add: starts_with_take)
  then have "take (length a) b = a" using assms(3) by (metis min.absorb1 take_take)
  then show ?thesis by (simp add: starts_with_take)
qed

lemma prefix_le_lex: "(b::str) \<le> b @ r"
  by (induction b) simp_all

lemma prefix_lex_length:
  assumes a: "starts_with s a" and b: "starts_with s b" and lt: "a < b"
  shows "length a < length b"
proof (rule ccontr)
  assume "\<not> length a < length b"
  then have "length b \<le> length a" by simp
  with b a have "starts_with a b" by (rule prefixes_chain)
  then obtain r where "a = b @ r" by (auto simp: starts_with_iff)
  then have "b \<le> a" by (simp add: prefix_le_lex)
  with lt show False by simp
qed

lemma sorted_wrt_last: "sorted_wrt (<) xs \<Longrightarrow> x \<in> set xs \<Longrightarrow> x \<le> last (xs :: 'a::linorder list)"
proof (induction xs)
  case (Cons y ys)
  then show ?case by (cases "ys = []") (auto intro: less_imp_le)
qed simp

lemma filter_sorted_keys:
  "sm_inv m \<Longrightarrow> sorted_wrt (<) (map fst (filter P m))"
  by (simp add: sm_inv_def sorted_wrt_map sorted_wrt_filter)

lemma getLocationBlockPair_none:
  "\<not> (\<exists>k \<in> set (map fst (sb_locs sb)). starts_with base k) \<Longrightarrow>
   getLocationBlockPair sb base = ([], ablock.truncate sb)"
proof -
  assume "\<not> (\<exists>k \<in> set (map fst (sb_locs sb)). starts_with base k)"
  then have "filter (\<lambda>(k, _). starts_with base k) (sb_locs sb) = []"
    by (auto simp: filter_empty_conv)
  then show ?thesis by (simp add: getLocationBlockPair_def)
qed

text \<open>Claim C33.  On a location map with ascending keys (every \<open>std::map\<close> has
  them), the lookup returns the longest configured prefix of the path and the location
  stored under it (spec section 4.3).\<close>

theorem getLocationBlockPair_longest:
  assumes inv: "sm_inv (sb_locs sb)" and ex: "\<exists>k \<in> set (map fst (sb_locs sb)). starts_with base k"
  shows "longest_prefix (map fst (sb_locs sb)) base (fst (getLocationBlockPair sb base)) \<and>
         map_of (sb_locs sb) (fst (getLocationBlockPair sb base)) = Some (snd (getLocationBlockPair sb base))"
proof -
  define ms where "ms = filter (\<lambda>(k, _). starts_with base k) (sb_locs sb)"
  from ex have ne: "ms \<noteq> []" by (auto simp: ms_def filter_empty_conv)
  then have r: "getLocationBlockPair sb base = last ms"
    by (cases ms) (simp_all add: getLocationBlockPair_def ms_def)
  from ne have lm: "last ms \<in> set ms" by simp
  then have mem: "last ms \<in> set (sb_locs sb)" and pre: "starts_with base (fst (last ms))"
    by (auto simp: ms_def)
  have srt: "sorted_wrt (<) (map fst ms)" using inv by (simp add: ms_def filter_sorted_keys)
  have "length k' \<le> length (fst (last ms))"
    if k': "k' \<in> set (map fst (sb_locs sb))" "starts_with base k'" for k'
  proof -
    from k' have "k' \<in> set (map fst ms)" by (force simp: ms_def)
    with srt have "k' \<le> last (map fst ms)" by (rule sorted_wrt_last)
    also have "last (map fst ms) = fst (last ms)" using ne by (simp add: last_map)
    finally have "k' \<le> fst (last ms)" .
    then have "k' < fst (last ms) \<or> k' = fst (last ms)" by (simp add: order.order_iff_strict)
    then show ?thesis
    proof
      assume "k' < fst (last ms)"
      from prefix_lex_length [OF k'(2) pre this] show ?thesis by simp
    qed simp
  qed
  moreover have "fst (last ms) \<in> set (map fst (sb_locs sb))" using mem by force
  moreover have "distinct (map fst (sb_locs sb))" using inv by (simp add: sm_inv_def strict_sorted_iff)
  ultimately show ?thesis
    using mem pre r by (auto simp: longest_prefix_def intro: map_of_is_SomeI)
qed

theorem getLocationBlockPair_longest_witness:
  "fst (getLocationBlockPair ex_server ''/up/a.txt'') = ''/up'' \<and>
   longest_prefix [''/'', ''/old'', ''/up''] ''/up/a.txt'' ''/up''"
proof -
  have "sm_inv (sb_locs ex_server)" "\<exists>k \<in> set (map fst (sb_locs ex_server)). starts_with ''/up/a.txt'' k"
    by code_simp+
  from getLocationBlockPair_longest [OF this] have
    "longest_prefix (map fst (sb_locs ex_server)) ''/up/a.txt'' (fst (getLocationBlockPair ex_server ''/up/a.txt''))"
    by simp
  moreover have "fst (getLocationBlockPair ex_server ''/up/a.txt'') = ''/up''"
    "map fst (sb_locs ex_server) = [''/'', ''/old'', ''/up'']" by code_simp+
  ultimately show ?thesis by simp
qed

end
