(* ===== verification/FileSys.thy ===== *)
theory FileSys
  imports Prelude
begin

text \<open>
  The file system the method handlers of src/src/MethodIO.cpp act on, through
  \<open>access(2)\<close>, \<open>std::ifstream\<close>, \<open>std::ofstream\<close> and \<open>std::remove\<close>.  A
  node is a regular file with its contents or a directory (no contents), with its
  read and write permission for the server process.  Paths are looked up after
  normalisation (empty and \<open>.\<close> components dropped), so \<open>./www/a\<close>, built by
  \<open>writeFile\<close>, and \<open>www//a\<close>, built by \<open>readFile\<close>, name the same node as
  \<open>www/a\<close>.  Permissions of parent directories are not modelled: \<open>remove\<close>
  succeeds on every existing node.
\<close>

record fnode =
  f_data :: "str option"  \<comment> \<open>\<open>None\<close> for a directory\<close>
  f_read :: bool
  f_write :: bool

type_synonym fsys = "str \<rightharpoonup> fnode"

fun join_slash :: "str list \<Rightarrow> str" where
  "join_slash [] = []"
| "join_slash [c] = c"
| "join_slash (c # cs) = c @ ''/'' @ join_slash cs"

definition norm :: "str \<Rightarrow> str" where
  "norm p = join_slash (filter (\<lambda>c. c \<noteq> [] \<and> c \<noteq> ''.'') (split_str p ''/''))"

definition node :: "fsys \<Rightarrow> str \<Rightarrow> fnode option" where
  "node fs p = fs (norm p)"

text \<open>\<open>access(path, F_OK)\<close>, \<open>access(path, R_OK)\<close>, \<open>access(path, W_OK)\<close>, as
  booleans that hold when the call returns 0.\<close>

definition f_ok :: "fsys \<Rightarrow> str \<Rightarrow> bool" where
  "f_ok fs p \<longleftrightarrow> node fs p \<noteq> None"

definition r_ok :: "fsys \<Rightarrow> str \<Rightarrow> bool" where
  "r_ok fs p \<longleftrightarrow> (case node fs p of Some n \<Rightarrow> f_read n | None \<Rightarrow> False)"

definition w_ok :: "fsys \<Rightarrow> str \<Rightarrow> bool" where
  "w_ok fs p \<longleftrightarrow> (case node fs p of Some n \<Rightarrow> f_write n | None \<Rightarrow> False)"

text \<open>\<open>std::ifstream::open\<close> succeeds on a readable node (a directory too, on Linux);
  \<open>oss << file.rdbuf()\<close> then yields the contents, or nothing for a directory or a
  stream that did not open.\<close>

definition ifs_open :: "fsys \<Rightarrow> str \<Rightarrow> bool" where
  "ifs_open fs p = r_ok fs p"

definition read_all :: "fsys \<Rightarrow> str \<Rightarrow> str" where
  "read_all fs p =
     (case node fs p of Some n \<Rightarrow> (if f_read n then case f_data n of Some d \<Rightarrow> d | None \<Rightarrow> [] else [])
      | None \<Rightarrow> [])"

text \<open>\<open>std::ofstream::open\<close> on an existing path: it succeeds on a writable regular
  file and truncates it.  (On a missing path \<open>writeFile\<close> never gets that far.)\<close>

definition ofs_open :: "fsys \<Rightarrow> str \<Rightarrow> bool" where
  "ofs_open fs p \<longleftrightarrow> (case node fs p of Some n \<Rightarrow> f_write n \<and> f_data n \<noteq> None | None \<Rightarrow> False)"

definition write_file :: "fsys \<Rightarrow> str \<Rightarrow> str \<Rightarrow> fsys" where
  "write_file fs p d =
     (case node fs p of Some n \<Rightarrow> fs(norm p \<mapsto> n\<lparr>f_data := Some d\<rparr>) | None \<Rightarrow> fs)"

text \<open>\<open>std::remove(path)\<close>: whether it failed, and the file system after it.\<close>

definition remove_file :: "fsys \<Rightarrow> str \<Rightarrow> bool \<times> fsys" where
  "remove_file fs p = (if f_ok fs p then (False, fs(norm p := None)) else (True, fs))"

lemma write_file_other:
  "norm q \<noteq> norm p \<Longrightarrow> node (write_file fs p d) q = node fs q"
  by (simp add: write_file_def node_def split: option.split)

lemma write_file_same:
  "node fs p = Some n \<Longrightarrow> node (write_file fs p d) p = Some (n\<lparr>f_data := Some d\<rparr>)"
  by (simp add: write_file_def node_def)

end
