(* ===== verification/Pipeline.thy ===== *)
theory Pipeline
  imports Response Config FileSys
begin

text \<open>
  The RequestRouter and the ActionDispatcher: \<open>MethodIO::getMessageToSend\<close> and the
  functions it calls in src/src/MethodIO.cpp (\<open>getServerBlock\<close>, \<open>readFile\<close>,
  \<open>writeFile\<close>, \<open>getMethod\<close>, \<open>headMethod\<close>, \<open>delMethod\<close>, \<open>postMethod\<close>).
  They mutate the request record \<open>rqi\<close> and the response record \<open>rsi\<close>, both passed
  by reference, and the file system, and they raise \<open>RequestException\<close>s that
  \<open>getMessageToSend\<close> catches; what was mutated before a throw is still visible to
  the handler.  So each function takes the state \<open>pst\<close> and returns its outcome
  (an exception or a value) together with the state at that point.  The external
  collaborators (CGI, directory listing) and the clock are the fields of \<open>env\<close>.
\<close>

record pst =
  rqi :: rinfo
  rsi :: rinfo
  fs :: fsys

record env =
  cgi :: "str list \<Rightarrow> (str, str) stdmap \<Rightarrow> str \<Rightarrow> str \<Rightarrow> str \<Rightarrow> int \<times> str"
  autoindex :: "str \<Rightarrow> str \<Rightarrow> str"
  date :: str

type_synonym 'a pres = "(exn + 'a) \<times> pst"

definition throw :: "int \<Rightarrow> str \<Rightarrow> pst \<Rightarrow> 'a pres" where
  "throw c m s = (Inl (RequestException m c), s)"

definition pm_bind :: "(pst \<Rightarrow> 'a pres) \<Rightarrow> ('a \<Rightarrow> pst \<Rightarrow> 'b pres) \<Rightarrow> pst \<Rightarrow> 'b pres" where
  "pm_bind m f s = (case m s of (Inl e, s') \<Rightarrow> (Inl e, s') | (Inr a, s') \<Rightarrow> f a s')"

definition set_rsi_header :: "str \<Rightarrow> str \<Rightarrow> pst \<Rightarrow> pst" where
  "set_rsi_header k v s = s\<lparr>rsi := (rsi s)\<lparr>headers := sm_set k v (headers (rsi s))\<rparr>\<rparr>"

definition set_path :: "str \<Rightarrow> pst \<Rightarrow> pst" where
  "set_path p s = s\<lparr>rqi := (rqi s)\<lparr>path := p\<rparr>\<rparr>"

definition set_exist :: "bool \<Rightarrow> pst \<Rightarrow> pst" where
  "set_exist b s = s\<lparr>rqi := (rqi s)\<lparr>exist := b\<rparr>\<rparr>"

text \<open>\<open>path.substr(path.find_last_of(".") + 1)\<close>: the text after the last dot, or
  the whole path when there is none (\<open>npos + 1\<close> is 0).\<close>

definition ext_of :: "str \<Rightarrow> str" where
  "ext_of p = (case find_last_char (CHR ''.'') p of None \<Rightarrow> p | Some i \<Rightarrow> drop (Suc i) p)"

text \<open>\<open>MethodIO::getServerBlock(rqi, ws)\<close>, lines 242--252: the host is the
  \<open>Host\<close> header up to its first colon (line 245, read with \<open>operator[]\<close>, which
  inserts an empty value), and the server is the first one, in configuration order,
  that listens on the request's port and has the host among its names (lines
  246--250, \<open>utils::find\<close> being membership).\<close>

definition req_host :: "rinfo \<Rightarrow> str" where
  "req_host r = fst (split_pair (fst (sm_index ''Host'' [] (headers r))) '':'')"

definition route :: "sblock list \<Rightarrow> str \<Rightarrow> str \<Rightarrow> sblock option" where
  "route servers prt host = find (\<lambda>sb. prt \<in> set (sb_ports sb) \<and> host \<in> set (sb_names sb)) servers"

definition getServerBlock :: "sblock list \<Rightarrow> pst \<Rightarrow> sblock pres" where
  "getServerBlock servers s =
     (let host = req_host (rqi s);
          s = s\<lparr>rqi := (rqi s)\<lparr>headers := snd (sm_index ''Host'' [] (headers (rqi s)))\<rparr>\<rparr>
      in case route servers (port (rqi s)) host of
           Some sb \<Rightarrow> (Inr sb, s)
         | None \<Rightarrow> throw 404 ''Location not defined in config'' s)"

text \<open>The index loop of \<open>readFile\<close>, lines 310--327: the first index file under the
  root that opens; an existing one that is not readable is a 403, none is a 404.
  \<open>rqi.path\<close> is left at the last candidate tried.\<close>

fun open_index :: "str \<Rightarrow> str list \<Rightarrow> pst \<Rightarrow> unit pres" where
  "open_index root [] s = throw 404 ''File doesn't exist'' s"
| "open_index root (i # is) s =
     (let p = root @ ''/'' @ i; s = set_path p s
      in if f_ok (fs s) p \<and> \<not> r_ok (fs s) p then throw 403 ''File read forbidden'' s
         else if ifs_open (fs s) p then (Inr (), s)
         else open_index root is s)"

text \<open>The directory-listing test of line 281, on a non-empty query path.\<close>

definition listing_req :: "str \<Rightarrow> bool" where
  "listing_req qp \<longleftrightarrow> last qp = CHR ''/'' \<and> 1 < length qp"

text \<open>Lines 330--333: the content type of the opened path and its contents.\<close>

definition serve_opened :: "pst \<Rightarrow> str pres" where
  "serve_opened s =
     (case getType (path (rqi s)) of
        Inl e \<Rightarrow> (Inl e, s)
      | Inr t \<Rightarrow> (Inr (read_all (fs s) (path (rqi s))), set_rsi_header ''Content-Type'' t s))"

text \<open>\<open>MethodIO::readFile(rqi, rsi, block)\<close>, lines 254--334.  The scope is a
  \<open>LocationBlock\<close> object, so the \<open>dynamic_cast\<close> of line 260 always succeeds
  and the allowed methods are always checked.  \<open>queryPath.at(length - 1)\<close> on an
  empty query path throws \<open>std::out_of_range\<close>, which is \<open>Crash\<close>.\<close>

definition readFile :: "env \<Rightarrow> sblock \<Rightarrow> pst \<Rightarrow> str pres" where
  "readFile e blk s =
     (let bp = getLocationBlockPair blk (queryPath (rqi s)); pfx = fst bp; loc = snd bp;
          qp = queryPath (rqi s)
      in if request (rqi s) ! 0 \<notin> set (b_allowed loc) then throw 405 ''Method Not Allowed'' s
         else
           let root = b_root loc;
               p = root @ ''/'' @ snd (split_pair qp pfx);
               s = s\<lparr>rsi := (rsi s)\<lparr>code := 200\<rparr>\<rparr>
           in if fst (b_redir loc) \<noteq> 0 then
                (Inr [], s\<lparr>rsi := (rsi s)\<lparr>headers := sm_set ''Location'' (snd (b_redir loc)) (headers (rsi s)),
                                          code := fst (b_redir loc)\<rparr>\<rparr>)
              else if qp = [] then (Inl (Crash ''queryPath.at(-1)''), s)
              else if listing_req qp then
                (Inr (autoindex e p qp), set_rsi_header ''Content-Type'' ''text/html'' s)
              else if qp \<noteq> pfx then
                (let s = set_path p s
                 in if \<not> f_ok (fs s) p then throw 404 ''File doesn't exist'' s
                    else if \<not> r_ok (fs s) p then throw 403 ''File read forbidden'' s
                    else if ext_of p = ''py'' \<or> ext_of p = ''cgi'' then
                      (let r = cgi e (request (rqi s)) (headers (rqi s)) p (body (rqi s)) (query (rqi s))
                       in if fst r = 200 then (Inr (snd r), set_exist True s)
                          else throw 500 ''Internal Server Error'' s)
                    else serve_opened s)
              else pm_bind (open_index root (b_index loc)) (\<lambda>_. serve_opened) s)"

text \<open>\<open>MethodIO::writeFile(rqi, block, createNew)\<close>, lines 336--391.  The target is
  compared with the prefix through \<open>request[1]\<close>, the raw target.  \<open>access(W_OK)\<close>
  fails on a missing path, so a new file is never created; the index loop is dead code
  (\<open>&& false\<close>, line 366).  Opening an existing writable file truncates it and the
  request body is written.\<close>

definition writeFile :: "sblock \<Rightarrow> bool \<Rightarrow> pst \<Rightarrow> unit pres" where
  "writeFile blk createNew s =
     (let bp = getLocationBlockPair blk (queryPath (rqi s)); pfx = fst bp; loc = snd bp
      in if request (rqi s) ! 0 \<notin> set (b_allowed loc) then throw 405 ''Method Not Allowed'' s
         else
           let s = set_exist False s
           in if request (rqi s) ! 1 \<noteq> pfx then
                (let p = ''./'' @ b_root loc @ ''/'' @ snd (split_pair (queryPath (rqi s)) pfx);
                     s = set_path p s
                 in if \<not> f_ok (fs s) p \<and> \<not> createNew then throw 404 ''File doesn't exist'' s
                    else if \<not> w_ok (fs s) p then throw 403 ''File write forbidden'' s
                    else if f_ok (fs s) p \<and> createNew then (Inr (), set_exist True s)
                    else if ofs_open (fs s) p then (Inr (), s\<lparr>fs := write_file (fs s) p (body (rqi s))\<rparr>)
                    else throw 403 ''Failed to create file.'' s)
              else throw 403 ''Failed to create file.'' s)"

text \<open>\<open>MethodIO::getMethod\<close>, lines 93--101: a script's output is returned as it is,
  anything else is wrapped in a response with the code \<open>readFile\<close> set.\<close>

definition getMethod :: "env \<Rightarrow> sblock \<Rightarrow> pst \<Rightarrow> str pres" where
  "getMethod e blk =
     pm_bind (readFile e blk) (\<lambda>b s.
       let s = set_rsi_header ''Content-Length'' (to_string (int (length b))) (s\<lparr>rsi := (rsi s)\<lparr>body := b\<rparr>\<rparr>);
           ext = ext_of (path (rqi s))
       in if exist (rqi s) \<and> (ext = ''py'' \<or> ext = ''cgi'') then (Inr (body (rsi s)), s)
          else (Inr (generateResponse (code (rsi s)) (rsi s)), s))"

text \<open>\<open>MethodIO::headMethod\<close>, lines 103--109.\<close>

definition headMethod :: "env \<Rightarrow> sblock \<Rightarrow> pst \<Rightarrow> str pres" where
  "headMethod e blk =
     pm_bind (readFile e blk) (\<lambda>b s.
       case getType (path (rqi s)) of
         Inl x \<Rightarrow> (Inl x, s)
       | Inr t \<Rightarrow>
           let s = set_rsi_header ''Content-Length'' (to_string (int (length b)))
                     (set_rsi_header ''Content-Type'' t s)
           in (Inr (generateResponse 200 (rsi s)), s))"

text \<open>\<open>MethodIO::delMethod\<close>, lines 111--117.\<close>

definition delMethod :: "env \<Rightarrow> sblock \<Rightarrow> pst \<Rightarrow> str pres" where
  "delMethod e blk =
     pm_bind (writeFile blk False) (\<lambda>_ s.
       let r = remove_file (fs s) (path (rqi s)); s = s\<lparr>fs := snd r\<rparr>
       in if fst r then throw 403 ''Cannot Delete File'' s
          else (Inr (generateResponse 204 (rsi s)), s))"

text \<open>\<open>MethodIO::postMethod\<close>, lines 119--154: an existing target is run as a CGI
  script when it is a \<open>.py\<close> file and answered with 409 otherwise.\<close>

definition postMethod :: "env \<Rightarrow> sblock \<Rightarrow> pst \<Rightarrow> str pres" where
  "postMethod e blk =
     pm_bind (writeFile blk True) (\<lambda>_ s.
       if exist (rqi s) then
         (let p = path (rqi s); dirPos = find_char (CHR ''/'') p; ext = ext_of p
          in case getType p of
               Inl x \<Rightarrow> (Inl x, s)
             | Inr t \<Rightarrow>
                 let s = set_rsi_header ''Content-Length'' (to_string (int (length (query (rqi s)))))
                           (set_rsi_header ''Content-Type'' t s)
                 in if dirPos \<noteq> None \<and> ext = ''py'' then
                      (let r = cgi e (request (rqi s)) (headers (rqi s)) p (body (rqi s)) (query (rqi s))
                       in if fst r = 200 then
                            (Inr (snd r), set_exist True (s\<lparr>rsi := (rsi s)\<lparr>body := snd r\<rparr>\<rparr>))
                          else throw 500 ''Internal Server Error'' s)
                    else (Inr (generateResponse 409 (rsi s)), s))
       else (Inr (generateResponse 200 (rsi s)), s))"

text \<open>\<open>MethodIO::methods\<close>, built by \<open>initMethodsMap\<close> (lines 29--37).\<close>

definition methods :: "str \<Rightarrow> (env \<Rightarrow> sblock \<Rightarrow> pst \<Rightarrow> str pres) option" where
  "methods m =
     (if m = ''GET'' then Some getMethod else if m = ''POST'' then Some postMethod
      else if m = ''HEAD'' then Some headMethod else if m = ''DELETE'' then Some delMethod else None)"

text \<open>The body-size test of line 170 (a limit of 0 is no limit).\<close>

definition too_large :: "sblock \<Rightarrow> rinfo \<Rightarrow> bool" where
  "too_large blk r \<longleftrightarrow> b_maxBody blk < int (length (body r)) \<and> b_maxBody blk \<noteq> 0"

text \<open>The \<open>try\<close> block of \<open>getMessageToSend\<close>, lines 165--177: its outcome, the
  state and the value of \<open>block\<close> when it ends.\<close>

definition try_body :: "env \<Rightarrow> sblock list \<Rightarrow> str \<Rightarrow> str \<Rightarrow> pst \<Rightarrow> (exn + str) \<times> pst \<times> sblock" where
  "try_body e servers raw prt s =
     (case tokenize raw (rqi s) of
        Inl x \<Rightarrow> (Inl x, s, empty_sblock)
      | Inr r \<Rightarrow>
          let s = s\<lparr>rqi := r\<rparr>
          in if length (request r) < 3 then (Inl (Crash ''request[2] out of range''), s, empty_sblock)
             else if request r ! 2 \<noteq> ''HTTP/1.1'' then (Inr (generateResponse 400 (rsi s)), s, empty_sblock)
             else
               (case getServerBlock servers (s\<lparr>rqi := r\<lparr>port := prt\<rparr>\<rparr>) of
                  (Inl x, s') \<Rightarrow> (Inl x, s', empty_sblock)
                | (Inr blk, s') \<Rightarrow>
                    if too_large blk (rqi s') then
                      (Inl (RequestException ''Payload Too Large'' 413), s', blk)
                    else
                      let s'' = set_rsi_header ''Date'' (date e) s'
                      in case methods (request (rqi s'') ! 0) of
                           None \<Rightarrow> (Inl (RequestException ''Method Not Allowed'' 405), s'', blk)
                         | Some h \<Rightarrow> (let r = h e blk s'' in (fst r, snd r, blk))))"

text \<open>The handler of lines 179--194: a code outside the status table would be
  dereferenced through \<open>find(code)->second\<close>; before routing (no root) the bare
  response is sent, otherwise the scope's error page for the code.\<close>

definition catch_handler :: "int \<Rightarrow> pst \<Rightarrow> sblock \<Rightarrow> (exn + str) \<times> fsys" where
  "catch_handler c s blk =
     (if map_of errCodeMessages c = None then (Inl (Crash ''errCodeMessages.find(code)->second''), fs s)
      else if b_root blk = [] then (Inr (generateResponse c (rsi s)), fs s)
      else
        let p = b_root blk @ ''/'' @ fst (sm_index c [] (b_errorPages blk));
            bd = read_all (fs s) p
        in case getType p of
             Inl x \<Rightarrow> (Inl x, fs s)
           | Inr t \<Rightarrow>
               (Inr (generateResponse c ((rsi s)\<lparr>body := bd,
                   headers := sm_set ''Content-Length'' (to_string (int (length bd)))
                                (sm_set ''Content-Type'' t (headers (rsi s)))\<rparr>)), fs s))"

definition init_pst :: "fsys \<Rightarrow> pst" where
  "init_pst fs0 = \<lparr>rqi = empty_rinfo, rsi = empty_rinfo, fs = fs0\<rparr>"

text \<open>\<open>MethodIO::getMessageToSend(ws, port)\<close>, lines 157--195, on the raw message
  the multiplexer handed over, the configured servers and the file system.\<close>

definition getMessageToSend :: "env \<Rightarrow> sblock list \<Rightarrow> str \<Rightarrow> str \<Rightarrow> fsys \<Rightarrow> (exn + str) \<times> fsys" where
  "getMessageToSend e servers raw prt fs0 =
     (case try_body e servers raw prt (init_pst fs0) of
        (Inr out, s, blk) \<Rightarrow> (Inr out, fs s)
      | (Inl (Crash m), s, blk) \<Rightarrow> (Inl (Crash m), fs s)
      | (Inl (RequestException m c), s, blk) \<Rightarrow> catch_handler c s blk)"

text \<open>The targets \<open>readFile\<close> and \<open>writeFile\<close> compute for a location
  matched with prefix \<open>pfx\<close> (lines 270 and 352), and the state in which a method
  handler starts: the request after routing and the response with its \<open>Date\<close>
  header (lines 168--173).\<close>

definition write_target :: "rinfo \<Rightarrow> str \<Rightarrow> ablock \<Rightarrow> str" where
  "write_target r pfx loc = ''./'' @ b_root loc @ ''/'' @ snd (split_pair (queryPath r) pfx)"

definition read_target :: "rinfo \<Rightarrow> str \<Rightarrow> ablock \<Rightarrow> str" where
  "read_target r pfx loc = b_root loc @ ''/'' @ snd (split_pair (queryPath r) pfx)"

definition routed_pst :: "env \<Rightarrow> rinfo \<Rightarrow> str \<Rightarrow> fsys \<Rightarrow> pst" where
  "routed_pst e r prt fs0 = set_rsi_header ''Date'' (date e)
     \<lparr>rqi = r\<lparr>port := prt, headers := snd (sm_index ''Host'' [] (headers r))\<rparr>, rsi = empty_rinfo, fs = fs0\<rparr>"

text \<open>A file system, an environment and requests for the examples (see
  \<open>ex_server\<close> in \<open>Config\<close>).\<close>

definition ex_fs :: fsys where
  "ex_fs = [''www/index.html'' \<mapsto> \<lparr>f_data = Some ''<h1>hi</h1>'', f_read = True, f_write = True\<rparr>,
            ''www/404.html'' \<mapsto> \<lparr>f_data = Some ''nf'', f_read = True, f_write = True\<rparr>,
            ''www/up/a.txt'' \<mapsto> \<lparr>f_data = Some ''aaa'', f_read = True, f_write = True\<rparr>]"

definition ex_env :: env where
  "ex_env = \<lparr>cgi = (\<lambda>_ _ _ _ _. (200, ''cgi'')), autoindex = (\<lambda>_ _. ''idx''), date = ''D''\<rparr>"

definition ex_req :: "str \<Rightarrow> str \<Rightarrow> str" where
  "ex_req m t = m @ '' '' @ t @ '' HTTP/1.1'' @ crlf @ ''Host: localhost:8080'' @ crlf2"

subsection \<open>Evaluation lemmas\<close>

lemma pm_bind_Inl: "m s = (Inl x, s') \<Longrightarrow> pm_bind m f s = (Inl x, s')"
  by (simp add: pm_bind_def)

lemma pm_bind_Inr: "m s = (Inr a, s') \<Longrightarrow> pm_bind m f s = f a s'"
  by (simp add: pm_bind_def)

lemma pst_setters [simp]:
  "rqi (set_rsi_header k v s) = rqi s" "fs (set_rsi_header k v s) = fs s"
  "rsi (set_path p s) = rsi s" "fs (set_path p s) = fs s"
  "rsi (set_exist b s) = rsi s" "fs (set_exist b s) = fs s"
  "rqi (set_path p s) = (rqi s)\<lparr>path := p\<rparr>" "rqi (set_exist b s) = (rqi s)\<lparr>exist := b\<rparr>"
  "rsi (set_rsi_header k v s) = (rsi s)\<lparr>headers := sm_set k v (headers (rsi s))\<rparr>"
  by (simp_all add: set_rsi_header_def set_path_def set_exist_def)

lemma split_str_single: "split_str s d = [x] \<Longrightarrow> x = s"
  by (subst (asm) split_str.simps) (auto split: if_splits option.splits)

lemma split_chr_Nil_iff: "split_chr s c = [] \<longleftrightarrow> s = []"
proof
  assume a: "split_chr s c = []"
  obtain x xs where ps: "split_str s [c] = x # xs" by (cases "split_str s [c]") auto
  show "s = []"
  proof (cases xs)
    case Nil
    with ps have "x = s" by (simp add: split_str_single)
    with a ps Nil show ?thesis by (simp add: split_chr_def Let_def split: if_splits)
  next
    case (Cons y ys)
    with a ps show ?thesis by (simp add: split_chr_def Let_def split: if_splits)
  qed
qed simp

lemma getType_nonempty: "p \<noteq> [] \<Longrightarrow> \<exists>t. getType p = Inr t"
  by (simp add: getType_def Let_def split_chr_Nil_iff)

lemma getType_not_reqexc: "getType p \<noteq> Inl (RequestException m c)"
  by (simp add: getType_def Let_def)

lemma catch_handler_not_reqexc: "fst (catch_handler c s blk) \<noteq> Inl (RequestException m c')"
  by (auto simp: catch_handler_def Let_def getType_not_reqexc split: sum.split)

lemma catch_handler_response:
  assumes "map_of errCodeMessages c \<noteq> None"
  shows "\<exists>rs. catch_handler c s blk = (Inr (generateResponse c rs), fs s)"
proof (cases "b_root blk = []")
  case False
  let ?p = "b_root blk @ ''/'' @ fst (sm_index c [] (b_errorPages blk))"
  from False obtain t where "getType ?p = Inr t" using getType_nonempty [of ?p] by auto
  with assms False show ?thesis by (auto simp: catch_handler_def Let_def)
qed (use assms in \<open>auto simp: catch_handler_def\<close>)

lemma try_body_parsed:
  assumes tok: "tokenize raw empty_rinfo = Inr r" and len: "3 \<le> length (request r)"
    and ver: "request r ! 2 = ''HTTP/1.1''"
  shows "try_body e servers raw prt (init_pst fs0) =
    (let s1 = \<lparr>rqi = r\<lparr>port := prt, headers := snd (sm_index ''Host'' [] (headers r))\<rparr>,
               rsi = empty_rinfo, fs = fs0\<rparr>
     in case route servers prt (req_host r) of
          None \<Rightarrow> (Inl (RequestException ''Location not defined in config'' 404), s1, empty_sblock)
        | Some blk \<Rightarrow>
            if too_large blk r then
              (Inl (RequestException ''Payload Too Large'' 413), s1, blk)
            else
              let s2 = set_rsi_header ''Date'' (date e) s1
              in case methods (request r ! 0) of
                   None \<Rightarrow> (Inl (RequestException ''Method Not Allowed'' 405), s2, blk)
                 | Some h \<Rightarrow> (fst (h e blk s2), snd (h e blk s2), blk))"
  using assms
  by (simp add: try_body_def getServerBlock_def init_pst_def throw_def req_host_def too_large_def Let_def
      split: option.split)

lemma getMessageToSend_try:
  "getMessageToSend e servers raw prt fs0 =
     (case try_body e servers raw prt (init_pst fs0) of
        (Inr out, s, blk) \<Rightarrow> (Inr out, fs s)
      | (Inl (Crash m), s, blk) \<Rightarrow> (Inl (Crash m), fs s)
      | (Inl (RequestException m c), s, blk) \<Rightarrow> catch_handler c s blk)"
  by (simp add: getMessageToSend_def)

lemma writeFile_405:
  "getLocationBlockPair blk (queryPath (rqi s)) = (pfx, loc) \<Longrightarrow> request (rqi s) ! 0 \<notin> set (b_allowed loc) \<Longrightarrow>
   writeFile blk cn s = throw 405 ''Method Not Allowed'' s"
  by (simp add: writeFile_def)

lemma writeFile_target:
  assumes "getLocationBlockPair blk (queryPath (rqi s)) = (pfx, loc)" "request (rqi s) ! 0 \<in> set (b_allowed loc)"
    "request (rqi s) ! 1 \<noteq> pfx"
  shows "writeFile blk cn s =
    (let p = write_target (rqi s) pfx loc; s = set_path p (set_exist False s)
     in if \<not> f_ok (fs s) p \<and> \<not> cn then throw 404 ''File doesn't exist'' s
        else if \<not> w_ok (fs s) p then throw 403 ''File write forbidden'' s
        else if f_ok (fs s) p \<and> cn then (Inr (), set_exist True s)
        else if ofs_open (fs s) p then (Inr (), s\<lparr>fs := write_file (fs s) p (body (rqi s))\<rparr>)
        else throw 403 ''Failed to create file.'' s)"
  using assms by (simp add: writeFile_def write_target_def Let_def)

lemma w_ok_f_ok: "w_ok fsy p \<Longrightarrow> f_ok fsy p"
  by (auto simp: w_ok_def f_ok_def split: option.splits)

lemma remove_after_write:
  "f_ok fsy p \<Longrightarrow> remove_file (write_file fsy p d) p = (False, fsy(norm p := None))"
  by (auto simp: remove_file_def write_file_def f_ok_def node_def)

lemma readFile_405:
  "getLocationBlockPair blk (queryPath (rqi s)) = (pfx, loc) \<Longrightarrow> request (rqi s) ! 0 \<notin> set (b_allowed loc) \<Longrightarrow>
   readFile e blk s = throw 405 ''Method Not Allowed'' s"
  by (simp add: readFile_def)

lemma readFile_redirect:
  assumes "getLocationBlockPair blk (queryPath (rqi s)) = (pfx, loc)" "request (rqi s) ! 0 \<in> set (b_allowed loc)"
    "fst (b_redir loc) \<noteq> 0"
  shows "readFile e blk s =
    (Inr [], s\<lparr>rsi := (rsi s)\<lparr>headers := sm_set ''Location'' (snd (b_redir loc)) (headers (rsi s)),
                             code := fst (b_redir loc)\<rparr>\<rparr>)"
  using assms by (simp add: readFile_def)

lemma readFile_file:
  assumes "getLocationBlockPair blk (queryPath (rqi s)) = (pfx, loc)" "request (rqi s) ! 0 \<in> set (b_allowed loc)"
    "fst (b_redir loc) = 0" "queryPath (rqi s) \<noteq> []"
    "\<not> listing_req (queryPath (rqi s))"
    "queryPath (rqi s) \<noteq> pfx" and p: "p = read_target (rqi s) pfx loc"
    and n: "node (fs s) p = Some n" "f_read n" "f_data n = Some d"
    and x: "ext_of p \<noteq> ''py''" "ext_of p \<noteq> ''cgi''" and t: "getType p = Inr t"
  shows "readFile e blk s =
    (Inr d, set_rsi_header ''Content-Type'' t (set_path p (s\<lparr>rsi := (rsi s)\<lparr>code := 200\<rparr>\<rparr>)))"
proof -
  have "f_ok (fs s) p" "r_ok (fs s) p" "read_all (fs s) p = d" using n by (simp_all add: f_ok_def r_ok_def read_all_def)
  with assms show ?thesis
    by (simp add: readFile_def read_target_def serve_opened_def set_path_def Let_def)
qed

lemma open_index_first:
  assumes "node (fs s) (root @ ''/'' @ i) = Some n" "f_read n"
  shows "open_index root (i # is) s = (Inr (), set_path (root @ ''/'' @ i) s)"
  using assms by (simp add: f_ok_def r_ok_def ifs_open_def Let_def)

lemma readFile_index:
  assumes "getLocationBlockPair blk (queryPath (rqi s)) = (pfx, loc)" "request (rqi s) ! 0 \<in> set (b_allowed loc)"
    "fst (b_redir loc) = 0" "queryPath (rqi s) \<noteq> []"
    "\<not> listing_req (queryPath (rqi s))"
    "queryPath (rqi s) = pfx" "b_index loc = i # is" and p: "p = b_root loc @ ''/'' @ i"
    and n: "node (fs s) p = Some n" "f_read n" "f_data n = Some d" and t: "getType p = Inr t"
  shows "readFile e blk s =
    (Inr d, set_rsi_header ''Content-Type'' t (set_path p (s\<lparr>rsi := (rsi s)\<lparr>code := 200\<rparr>\<rparr>)))"
proof -
  have "open_index (b_root loc) (b_index loc) (s\<lparr>rsi := (rsi s)\<lparr>code := 200\<rparr>\<rparr>) =
        (Inr (), set_path p (s\<lparr>rsi := (rsi s)\<lparr>code := 200\<rparr>\<rparr>))"
    using assms by (simp add: f_ok_def r_ok_def ifs_open_def Let_def)
  moreover have "read_all (fs s) p = d" using n by (simp add: read_all_def)
  ultimately show ?thesis
    using assms by (simp add: readFile_def serve_opened_def pm_bind_def set_path_def Let_def
        del: open_index.simps)
qed

lemma routed_pst_fields [simp]:
  "request (rqi (routed_pst e r prt fs0)) = request r"
  "queryPath (rqi (routed_pst e r prt fs0)) = queryPath r"
  "body (rqi (routed_pst e r prt fs0)) = body r"
  "path (rqi (routed_pst e r prt fs0)) = path r"
  "exist (rqi (routed_pst e r prt fs0)) = exist r"
  "fs (routed_pst e r prt fs0) = fs0"
  "rsi (routed_pst e r prt fs0) = empty_rinfo\<lparr>headers := [(''Date'', date e)]\<rparr>"
  by (simp_all add: routed_pst_def empty_rinfo_def)

lemma getMessageToSend_method:
  assumes "tokenize raw empty_rinfo = Inr r" "3 \<le> length (request r)" "request r ! 2 = ''HTTP/1.1''"
    "route servers prt (req_host r) = Some blk"
    "\<not> too_large blk r"
    "methods (request r ! 0) = Some h"
  shows "getMessageToSend e servers raw prt fs0 =
     (case h e blk (routed_pst e r prt fs0) of
        (Inr out, s) \<Rightarrow> (Inr out, fs s)
      | (Inl (Crash m), s) \<Rightarrow> (Inl (Crash m), fs s)
      | (Inl (RequestException m c), s) \<Rightarrow> catch_handler c s blk)"
proof -
  obtain x s' where hx: "h e blk (routed_pst e r prt fs0) = (x, s')" by fastforce
  with assms have "try_body e servers raw prt (init_pst fs0) = (x, s', blk)"
    by (simp add: try_body_parsed routed_pst_def Let_def)
  with hx show ?thesis by (simp add: getMessageToSend_try split: sum.split exn.split)
qed

lemma errCode_thrown:
  "map_of errCodeMessages 400 \<noteq> None" "map_of errCodeMessages 403 \<noteq> None"
  "map_of errCodeMessages 404 \<noteq> None" "map_of errCodeMessages 405 \<noteq> None"
  "map_of errCodeMessages 413 \<noteq> None" "map_of errCodeMessages 500 \<noteq> None"
  by (simp_all add: errCodeMessages_def)

lemma getMessageToSend_method_error:
  assumes "tokenize raw empty_rinfo = Inr r" "3 \<le> length (request r)" "request r ! 2 = ''HTTP/1.1''"
    "route servers prt (req_host r) = Some blk" "\<not> too_large blk r" "methods (request r ! 0) = Some h"
    and h: "h e blk (routed_pst e r prt fs0) = (Inl (RequestException m c), s')"
    and c: "map_of errCodeMessages c \<noteq> None"
  shows "\<exists>rs. getMessageToSend e servers raw prt fs0 = (Inr (generateResponse c rs), fs s')"
proof -
  from catch_handler_response [OF c, of s' blk] obtain rs
    where "catch_handler c s' blk = (Inr (generateResponse c rs), fs s')" by blast
  with getMessageToSend_method [OF assms(1-6)] h show ?thesis by auto
qed

lemma methods_simps [simp]:
  "methods ''GET'' = Some getMethod" "methods ''POST'' = Some postMethod"
  "methods ''HEAD'' = Some headMethod" "methods ''DELETE'' = Some delMethod"
  by (simp_all add: methods_def)

lemma tokenize_path: "tokenize raw empty_rinfo = Inr r \<Longrightarrow> path r = [] \<and> exist r = False"
  by (auto simp: tokenize_def empty_rinfo_def Let_def split: prod.splits if_splits option.splits)

subsection \<open>Properties of the request pipeline\<close>

lemma ex_tok_get_root: "tokenize (ex_req ''GET'' ''/'') empty_rinfo = Inr (projr (tokenize (ex_req ''GET'' ''/'') empty_rinfo))"
  by code_simp

lemma ex_tok_cases:
  "tokenize (ex_req ''POST'' ''/up/a.txt'' @ ''01234567890123456789'') empty_rinfo =
     Inr (projr (tokenize (ex_req ''POST'' ''/up/a.txt'' @ ''01234567890123456789'') empty_rinfo))"
  "tokenize (ex_req ''PUT'' ''/'') empty_rinfo = Inr (projr (tokenize (ex_req ''PUT'' ''/'') empty_rinfo))"
  "tokenize (''GET / HTTP/1.0'' @ crlf2) empty_rinfo = Inr (projr (tokenize (''GET / HTTP/1.0'' @ crlf2) empty_rinfo))"
  "tokenize (ex_req ''DELETE'' ''/index.html'') empty_rinfo = Inr (projr (tokenize (ex_req ''DELETE'' ''/index.html'') empty_rinfo))"
  "tokenize (ex_req ''DELETE'' ''/up/zz'') empty_rinfo = Inr (projr (tokenize (ex_req ''DELETE'' ''/up/zz'') empty_rinfo))"
  "tokenize (ex_req ''DELETE'' ''/up/a.txt'') empty_rinfo = Inr (projr (tokenize (ex_req ''DELETE'' ''/up/a.txt'') empty_rinfo))"
  "tokenize (ex_req ''POST'' ''/up/new.txt'') empty_rinfo = Inr (projr (tokenize (ex_req ''POST'' ''/up/new.txt'') empty_rinfo))"
  "tokenize (ex_req ''GET'' ''/up/a.txt'') empty_rinfo = Inr (projr (tokenize (ex_req ''GET'' ''/up/a.txt'') empty_rinfo))"
  "tokenize (ex_req ''GET'' ''/old'') empty_rinfo = Inr (projr (tokenize (ex_req ''GET'' ''/old'') empty_rinfo))"
  "tokenize (ex_req ''HEAD'' ''/old'') empty_rinfo = Inr (projr (tokenize (ex_req ''HEAD'' ''/old'') empty_rinfo))"
  by code_simp+

text \<open>Every \<open>RequestException\<close> raised while a request is served is caught by
  \<open>getMessageToSend\<close> (lines 179--194): the outcome is a response or a crash
  (undefined behaviour, an uncaught standard exception), never a request error.\<close>

lemma getMessageToSend_no_request_error:
  "fst (getMessageToSend e servers raw prt fs0) \<noteq> Inl (RequestException m c)"
  by (auto simp: getMessageToSend_def catch_handler_not_reqexc split: prod.split sum.split exn.split)

text \<open>Claim C24.  A request whose port and host match no configured server is
  answered \<open>404\<close> before any scope is resolved, so without an error page and without
  headers: exactly the status line and the blank line (spec section 8).  The file
  system is untouched.\<close>

theorem no_route_404:
  assumes "tokenize raw empty_rinfo = Inr r" "3 \<le> length (request r)" "request r ! 2 = ''HTTP/1.1''"
    and "route servers prt (req_host r) = None"
  shows "getMessageToSend e servers raw prt fs0 = (Inr (''HTTP/1.1 404 Not Found'' @ crlf2), fs0)"
proof -
  have "generateResponse 404 empty_rinfo = ''HTTP/1.1 404 Not Found'' @ crlf2" by code_simp
  with assms errCode_thrown show ?thesis
    by (simp add: getMessageToSend_try try_body_parsed catch_handler_def empty_sblock_def Let_def)
qed

theorem no_route_404_witness:
  "getMessageToSend ex_env [ex_server] (ex_req ''GET'' ''/'') ''9090'' ex_fs = (Inr (''HTTP/1.1 404 Not Found'' @ crlf2), ex_fs)"
proof -
  let ?r = "projr (tokenize (ex_req ''GET'' ''/'') empty_rinfo)"
  have "3 \<le> length (request ?r)" "request ?r ! 2 = ''HTTP/1.1''" "route [ex_server] ''9090'' (req_host ?r) = None"
    by code_simp+
  from no_route_404 [OF ex_tok_get_root this] show ?thesis .
qed



text \<open>Claim C26.  A GET of a location's own prefix serves the first index file
  (lines 310--333): status 200, the content type of its extension, a
  \<open>Content-Length\<close> equal to its length, the \<open>Date\<close> header and its contents as the
  body, the file system unchanged (the example of spec section 8).\<close>

theorem get_index_200:
  assumes "tokenize raw empty_rinfo = Inr r" "3 \<le> length (request r)" "request r ! 2 = ''HTTP/1.1''"
    and "route servers prt (req_host r) = Some blk" "\<not> too_large blk r" "request r ! 0 = ''GET''"
    and "getLocationBlockPair blk (queryPath r) = (queryPath r, loc)" "''GET'' \<in> set (b_allowed loc)"
    and "fst (b_redir loc) = 0" "queryPath r \<noteq> []" "\<not> listing_req (queryPath r)"
    and "b_index loc = i # is"
    and n: "node fs0 (b_root loc @ ''/'' @ i) = Some n" "f_read n" "f_data n = Some d"
    and t: "getType (b_root loc @ ''/'' @ i) = Inr t"
  shows "getMessageToSend e servers raw prt fs0 =
    (Inr (generateResponse 200 (empty_rinfo\<lparr>headers := sm_set ''Content-Length'' (to_string (int (length d)))
            (sm_set ''Content-Type'' t [(''Date'', date e)]), code := 200, body := d\<rparr>)), fs0)"
proof -
  let ?s = "routed_pst e r prt fs0" and ?p = "b_root loc @ ''/'' @ i"
  have "readFile e blk ?s =
      (Inr d, set_rsi_header ''Content-Type'' t (set_path ?p (?s\<lparr>rsi := (rsi ?s)\<lparr>code := 200\<rparr>\<rparr>)))"
    by (rule readFile_index [where pfx = "queryPath r" and loc = loc and p = ?p and n = n])
      (use assms(6-12) n t in simp_all)
  moreover have "\<not> exist r" using tokenize_path [OF assms(1)] by simp
  ultimately have "getMethod e blk ?s =
      (Inr (generateResponse 200 (empty_rinfo\<lparr>headers := sm_set ''Content-Length'' (to_string (int (length d)))
            (sm_set ''Content-Type'' t [(''Date'', date e)]), code := 200, body := d\<rparr>)),
       set_rsi_header ''Content-Length'' (to_string (int (length d)))
         ((set_rsi_header ''Content-Type'' t (set_path ?p (?s\<lparr>rsi := (rsi ?s)\<lparr>code := 200\<rparr>\<rparr>)))
            \<lparr>rsi := (rsi (set_rsi_header ''Content-Type'' t (set_path ?p (?s\<lparr>rsi := (rsi ?s)\<lparr>code := 200\<rparr>\<rparr>))))
                     \<lparr>body := d\<rparr>\<rparr>))"
    by (simp add: getMethod_def pm_bind_def Let_def empty_rinfo_def)
  moreover have "methods (request r ! 0) = Some getMethod" using assms(6) by simp
  ultimately show ?thesis using getMessageToSend_method [OF assms(1-5)] by (simp add: set_rsi_header_def)
qed

theorem get_index_200_witness:
  "getMessageToSend ex_env [ex_server] (ex_req ''GET'' ''/'') ''8080'' ex_fs =
    (Inr (''HTTP/1.1 200 OK'' @ crlf @ ''Content-Length: 11'' @ crlf @ ''Content-Type: text/html'' @ crlf @
          ''Date: D'' @ crlf2 @ ''<h1>hi</h1>''), ex_fs)"
proof -
  let ?r = "projr (tokenize (ex_req ''GET'' ''/'') empty_rinfo)"
  have f: "3 \<le> length (request ?r)" "request ?r ! 2 = ''HTTP/1.1''"
    "route [ex_server] ''8080'' (req_host ?r) = Some ex_server" "\<not> too_large ex_server ?r"
    "request ?r ! 0 = ''GET''" "getLocationBlockPair ex_server (queryPath ?r) = (queryPath ?r, ex_loc_root)"
    "''GET'' \<in> set (b_allowed ex_loc_root)" "fst (b_redir ex_loc_root) = 0" "queryPath ?r \<noteq> []"
    "\<not> listing_req (queryPath ?r)" "b_index ex_loc_root = ''index.html'' # []"
    "node ex_fs (b_root ex_loc_root @ ''/'' @ ''index.html'') = Some \<lparr>f_data = Some ''<h1>hi</h1>'', f_read = True, f_write = True\<rparr>"
    "getType (b_root ex_loc_root @ ''/'' @ ''index.html'') = Inr ''text/html''"
    by code_simp+
  have g: "generateResponse 200 (empty_rinfo\<lparr>headers := sm_set ''Content-Length'' (to_string (int (length ''<h1>hi</h1>'')))
            (sm_set ''Content-Type'' ''text/html'' [(''Date'', date ex_env)]), code := 200, body := ''<h1>hi</h1>''\<rparr>) =
      ''HTTP/1.1 200 OK'' @ crlf @ ''Content-Length: 11'' @ crlf @ ''Content-Type: text/html'' @ crlf @
          ''Date: D'' @ crlf2 @ ''<h1>hi</h1>''"
    by code_simp
  have "getMessageToSend ex_env [ex_server] (ex_req ''GET'' ''/'') ''8080'' ex_fs =
    (Inr (generateResponse 200 (empty_rinfo\<lparr>headers := sm_set ''Content-Length'' (to_string (int (length ''<h1>hi</h1>'')))
            (sm_set ''Content-Type'' ''text/html'' [(''Date'', date ex_env)]), code := 200, body := ''<h1>hi</h1>''\<rparr>)), ex_fs)"
    by (rule get_index_200 [OF ex_tok_get_root f(1-12)]) (use f(13) in simp_all)
  then show ?thesis by (simp only: g)
qed

text \<open>A DELETE under a location that does not allow DELETE is answered
  405 before any file-system check (line 340), and nothing is changed (spec section 8).\<close>

theorem delete_not_allowed_405:
  assumes "tokenize raw empty_rinfo = Inr r" "3 \<le> length (request r)" "request r ! 2 = ''HTTP/1.1''"
    and "route servers prt (req_host r) = Some blk" "\<not> too_large blk r" "request r ! 0 = ''DELETE''"
    and "getLocationBlockPair blk (queryPath r) = (pfx, loc)" "''DELETE'' \<notin> set (b_allowed loc)"
  shows "\<exists>rs. getMessageToSend e servers raw prt fs0 = (Inr (generateResponse 405 rs), fs0)"
proof -
  have "delMethod e blk (routed_pst e r prt fs0) =
        (Inl (RequestException ''Method Not Allowed'' 405), routed_pst e r prt fs0)"
    using assms(6-8) by (simp add: delMethod_def writeFile_405 throw_def pm_bind_def)
  moreover have "methods (request r ! 0) = Some delMethod" using assms(6) by simp
  ultimately show ?thesis using getMessageToSend_method_error [OF assms(1-5)] errCode_thrown(4) by fastforce
qed

theorem delete_not_allowed_405_witness:
  "\<exists>rs. getMessageToSend ex_env [ex_server] (ex_req ''DELETE'' ''/index.html'') ''8080'' ex_fs =
     (Inr (generateResponse 405 rs), ex_fs)"
proof -
  let ?r = "projr (tokenize (ex_req ''DELETE'' ''/index.html'') empty_rinfo)"
  have "3 \<le> length (request ?r)" "request ?r ! 2 = ''HTTP/1.1''"
    "route [ex_server] ''8080'' (req_host ?r) = Some ex_server" "\<not> too_large ex_server ?r"
    "request ?r ! 0 = ''DELETE''" "getLocationBlockPair ex_server (queryPath ?r) = (''/'', ex_loc_root)"
    "''DELETE'' \<notin> set (b_allowed ex_loc_root)"
    by code_simp+
  from delete_not_allowed_405 [OF ex_tok_cases(4) this] show ?thesis .
qed

text \<open>A DELETE of a missing file under a location that allows DELETE is
  answered 404 through the write-target resolution of \<open>writeFile\<close> (line 354), and
  nothing is changed (spec section 8).\<close>

theorem delete_missing_404:
  assumes "tokenize raw empty_rinfo = Inr r" "3 \<le> length (request r)" "request r ! 2 = ''HTTP/1.1''"
    and "route servers prt (req_host r) = Some blk" "\<not> too_large blk r" "request r ! 0 = ''DELETE''"
    and "getLocationBlockPair blk (queryPath r) = (pfx, loc)" "''DELETE'' \<in> set (b_allowed loc)"
    and "request r ! 1 \<noteq> pfx" "\<not> f_ok fs0 (write_target r pfx loc)"
  shows "\<exists>rs. getMessageToSend e servers raw prt fs0 = (Inr (generateResponse 404 rs), fs0)"
proof -
  let ?s = "routed_pst e r prt fs0"
  have "write_target (rqi ?s) pfx loc = write_target r pfx loc" by (simp add: write_target_def)
  with assms(6-10) have "writeFile blk False ?s =
      throw 404 ''File doesn't exist'' (set_path (write_target r pfx loc) (set_exist False ?s))"
    by (simp add: writeFile_target Let_def)
  then have "delMethod e blk ?s =
      (Inl (RequestException ''File doesn't exist'' 404), set_path (write_target r pfx loc) (set_exist False ?s))"
    by (simp add: delMethod_def throw_def pm_bind_def)
  moreover have "methods (request r ! 0) = Some delMethod" using assms(6) by simp
  ultimately show ?thesis using getMessageToSend_method_error [OF assms(1-5)] errCode_thrown(3) by fastforce
qed

theorem delete_missing_404_witness:
  "\<exists>rs. getMessageToSend ex_env [ex_server] (ex_req ''DELETE'' ''/up/zz'') ''8080'' ex_fs =
     (Inr (generateResponse 404 rs), ex_fs)"
proof -
  let ?r = "projr (tokenize (ex_req ''DELETE'' ''/up/zz'') empty_rinfo)"
  have "3 \<le> length (request ?r)" "request ?r ! 2 = ''HTTP/1.1''"
    "route [ex_server] ''8080'' (req_host ?r) = Some ex_server" "\<not> too_large ex_server ?r"
    "request ?r ! 0 = ''DELETE''" "getLocationBlockPair ex_server (queryPath ?r) = (''/up'', ex_loc_up)"
    "''DELETE'' \<in> set (b_allowed ex_loc_up)" "request ?r ! 1 \<noteq> ''/up''"
    "\<not> f_ok ex_fs (write_target ?r ''/up'' ex_loc_up)"
    by code_simp+
  from delete_missing_404 [OF ex_tok_cases(5) this] show ?thesis .
qed

text \<open>Claim C27.  A GET of a readable regular file that is not a script is answered
  200 with the file's contents, its content type, its length as \<open>Content-Length\<close>
  and the \<open>Date\<close> header.\<close>

theorem get_file_200:
  assumes "tokenize raw empty_rinfo = Inr r" "3 \<le> length (request r)" "request r ! 2 = ''HTTP/1.1''"
    and "route servers prt (req_host r) = Some blk" "\<not> too_large blk r" "request r ! 0 = ''GET''"
    and "getLocationBlockPair blk (queryPath r) = (pfx, loc)" "''GET'' \<in> set (b_allowed loc)"
    and "fst (b_redir loc) = 0" "queryPath r \<noteq> []" "\<not> listing_req (queryPath r)" "queryPath r \<noteq> pfx"
    and n: "node fs0 (read_target r pfx loc) = Some n" "f_read n" "f_data n = Some d"
    and x: "ext_of (read_target r pfx loc) \<noteq> ''py''" "ext_of (read_target r pfx loc) \<noteq> ''cgi''"
    and t: "getType (read_target r pfx loc) = Inr t"
  shows "getMessageToSend e servers raw prt fs0 =
    (Inr (generateResponse 200 (empty_rinfo\<lparr>headers := sm_set ''Content-Length'' (to_string (int (length d)))
            (sm_set ''Content-Type'' t [(''Date'', date e)]), code := 200, body := d\<rparr>)), fs0)"
proof -
  let ?s = "routed_pst e r prt fs0" and ?p = "read_target r pfx loc"
  have rt: "read_target (rqi ?s) pfx loc = ?p" by (simp add: read_target_def)
  have "readFile e blk ?s =
      (Inr d, set_rsi_header ''Content-Type'' t (set_path ?p (?s\<lparr>rsi := (rsi ?s)\<lparr>code := 200\<rparr>\<rparr>)))"
    by (rule readFile_file [where pfx = pfx and loc = loc and p = ?p and n = n])
      (use assms(6-12) n x t rt in simp_all)
  then have "getMethod e blk ?s =
      (Inr (generateResponse 200 (empty_rinfo\<lparr>headers := sm_set ''Content-Length'' (to_string (int (length d)))
            (sm_set ''Content-Type'' t [(''Date'', date e)]), code := 200, body := d\<rparr>)),
       set_rsi_header ''Content-Length'' (to_string (int (length d)))
         ((set_rsi_header ''Content-Type'' t (set_path ?p (?s\<lparr>rsi := (rsi ?s)\<lparr>code := 200\<rparr>\<rparr>)))
            \<lparr>rsi := (rsi (set_rsi_header ''Content-Type'' t (set_path ?p (?s\<lparr>rsi := (rsi ?s)\<lparr>code := 200\<rparr>\<rparr>))))
                     \<lparr>body := d\<rparr>\<rparr>))"
    using x by (simp add: getMethod_def pm_bind_def Let_def empty_rinfo_def)
  moreover have "methods (request r ! 0) = Some getMethod" using assms(6) by simp
  ultimately show ?thesis using getMessageToSend_method [OF assms(1-5)] by (simp add: set_rsi_header_def)
qed

theorem get_file_200_witness:
  "getMessageToSend ex_env [ex_server] (ex_req ''GET'' ''/up/a.txt'') ''8080'' ex_fs =
    (Inr (''HTTP/1.1 200 OK'' @ crlf @ ''Content-Length: 3'' @ crlf @ ''Content-Type: text/plain'' @ crlf @
          ''Date: D'' @ crlf2 @ ''aaa''), ex_fs)"
proof -
  let ?r = "projr (tokenize (ex_req ''GET'' ''/up/a.txt'') empty_rinfo)"
  have f: "3 \<le> length (request ?r)" "request ?r ! 2 = ''HTTP/1.1''"
    "route [ex_server] ''8080'' (req_host ?r) = Some ex_server" "\<not> too_large ex_server ?r"
    "request ?r ! 0 = ''GET''" "getLocationBlockPair ex_server (queryPath ?r) = (''/up'', ex_loc_up)"
    "''GET'' \<in> set (b_allowed ex_loc_up)" "fst (b_redir ex_loc_up) = 0" "queryPath ?r \<noteq> []"
    "\<not> listing_req (queryPath ?r)" "queryPath ?r \<noteq> ''/up''"
    "node ex_fs (read_target ?r ''/up'' ex_loc_up) = Some \<lparr>f_data = Some ''aaa'', f_read = True, f_write = True\<rparr>"
    "ext_of (read_target ?r ''/up'' ex_loc_up) \<noteq> ''py''" "ext_of (read_target ?r ''/up'' ex_loc_up) \<noteq> ''cgi''"
    "getType (read_target ?r ''/up'' ex_loc_up) = Inr ''text/plain''"
    by code_simp+
  have g: "generateResponse 200 (empty_rinfo\<lparr>headers := sm_set ''Content-Length'' (to_string (int (length ''aaa'')))
            (sm_set ''Content-Type'' ''text/plain'' [(''Date'', date ex_env)]), code := 200, body := ''aaa''\<rparr>) =
      ''HTTP/1.1 200 OK'' @ crlf @ ''Content-Length: 3'' @ crlf @ ''Content-Type: text/plain'' @ crlf @
          ''Date: D'' @ crlf2 @ ''aaa''"
    by code_simp
  have "getMessageToSend ex_env [ex_server] (ex_req ''GET'' ''/up/a.txt'') ''8080'' ex_fs =
    (Inr (generateResponse 200 (empty_rinfo\<lparr>headers := sm_set ''Content-Length'' (to_string (int (length ''aaa'')))
            (sm_set ''Content-Type'' ''text/plain'' [(''Date'', date ex_env)]), code := 200, body := ''aaa''\<rparr>)), ex_fs)"
    by (rule get_file_200 [OF ex_tok_cases(8) f(1-12)]) (use f(13-15) in simp_all)
  then show ?thesis by (simp only: g)
qed



text \<open>Claim C29.  A GET under a location with a redirection is answered with the
  redirection's code, its target as \<open>Location\<close>, an empty body with
  \<open>Content-Length: 0\<close>, without touching the file system (lines 274--280).\<close>

theorem get_redirect:
  assumes "tokenize raw empty_rinfo = Inr r" "3 \<le> length (request r)" "request r ! 2 = ''HTTP/1.1''"
    and "route servers prt (req_host r) = Some blk" "\<not> too_large blk r" "request r ! 0 = ''GET''"
    and "getLocationBlockPair blk (queryPath r) = (pfx, loc)" "''GET'' \<in> set (b_allowed loc)"
    and "b_redir loc = (c, tgt)" "c \<noteq> 0"
  shows "getMessageToSend e servers raw prt fs0 =
    (Inr (generateResponse c (empty_rinfo\<lparr>headers := sm_set ''Content-Length'' ''0''
            (sm_set ''Location'' tgt [(''Date'', date e)]), code := c\<rparr>)), fs0)"
proof -
  let ?s = "routed_pst e r prt fs0"
  have "readFile e blk ?s =
      (Inr [], ?s\<lparr>rsi := (rsi ?s)\<lparr>headers := sm_set ''Location'' tgt (headers (rsi ?s)), code := c\<rparr>\<rparr>)"
    using assms(6-10) by (simp add: readFile_redirect)
  moreover have "path r = []" "\<not> exist r" using tokenize_path [OF assms(1)] by simp_all
  moreover have "to_string 0 = ''0''" by code_simp
  ultimately have "fst (getMethod e blk ?s) =
      Inr (generateResponse c (empty_rinfo\<lparr>headers := sm_set ''Content-Length'' ''0''
            (sm_set ''Location'' tgt [(''Date'', date e)]), code := c\<rparr>))"
    "fs (snd (getMethod e blk ?s)) = fs0"
    by (simp_all add: getMethod_def pm_bind_def Let_def empty_rinfo_def set_rsi_header_def)
  moreover have "methods (request r ! 0) = Some getMethod" using assms(6) by simp
  ultimately show ?thesis using getMessageToSend_method [OF assms(1-5)]
    by (auto split: prod.split sum.split exn.split)
qed

theorem get_redirect_witness:
  "fst (getMessageToSend ex_env [ex_server] (ex_req ''GET'' ''/old'') ''8080'' ex_fs) =
     Inr (''HTTP/1.1 301 Moved Permanently'' @ crlf @ ''Content-Length: 0'' @ crlf @ ''Date: D'' @ crlf @
          ''Location: /new'' @ crlf2)"
proof -
  let ?r = "projr (tokenize (ex_req ''GET'' ''/old'') empty_rinfo)"
  have f: "3 \<le> length (request ?r)" "request ?r ! 2 = ''HTTP/1.1''"
    "route [ex_server] ''8080'' (req_host ?r) = Some ex_server" "\<not> too_large ex_server ?r"
    "request ?r ! 0 = ''GET''" "getLocationBlockPair ex_server (queryPath ?r) = (''/old'', ex_loc_old)"
    "''GET'' \<in> set (b_allowed ex_loc_old)" "b_redir ex_loc_old = (301, ''/new'')" "(301::int) \<noteq> 0"
    by code_simp+
  have g: "generateResponse 301 (empty_rinfo\<lparr>headers := sm_set ''Content-Length'' ''0''
            (sm_set ''Location'' ''/new'' [(''Date'', date ex_env)]), code := 301\<rparr>) =
      ''HTTP/1.1 301 Moved Permanently'' @ crlf @ ''Content-Length: 0'' @ crlf @ ''Date: D'' @ crlf @
          ''Location: /new'' @ crlf2"
    by code_simp
  from get_redirect [OF ex_tok_cases(9) f, of ex_env ex_fs] show ?thesis by (simp only: g fst_conv)
qed

text \<open>A method other than GET, POST, HEAD and DELETE is answered 405
  (line 177, spec section 6), and the file system is unchanged.\<close>

theorem unknown_method_405:
  assumes "tokenize raw empty_rinfo = Inr r" "3 \<le> length (request r)" "request r ! 2 = ''HTTP/1.1''"
    and "route servers prt (req_host r) = Some blk" "\<not> too_large blk r"
    and "request r ! 0 \<notin> {''GET'', ''POST'', ''HEAD'', ''DELETE''}"
  shows "\<exists>rs. getMessageToSend e servers raw prt fs0 = (Inr (generateResponse 405 rs), fs0)"
proof -
  have "methods (request r ! 0) = None" using assms(6) by (simp add: methods_def)
  moreover obtain rs where "catch_handler 405 (routed_pst e r prt fs0) blk = (Inr (generateResponse 405 rs), fs0)"
    using catch_handler_response [OF errCode_thrown(4), of "routed_pst e r prt fs0" blk] by auto
  ultimately show ?thesis using assms(1-5)
    by (auto simp: getMessageToSend_try try_body_parsed routed_pst_def Let_def)
qed

theorem unknown_method_405_witness:
  "\<exists>rs. getMessageToSend ex_env [ex_server] (ex_req ''PUT'' ''/'') ''8080'' ex_fs = (Inr (generateResponse 405 rs), ex_fs)"
proof -
  let ?r = "projr (tokenize (ex_req ''PUT'' ''/'') empty_rinfo)"
  have "3 \<le> length (request ?r)" "request ?r ! 2 = ''HTTP/1.1''"
    "route [ex_server] ''8080'' (req_host ?r) = Some ex_server" "\<not> too_large ex_server ?r"
    "request ?r ! 0 \<notin> {''GET'', ''POST'', ''HEAD'', ''DELETE''}"
    by code_simp+
  from unknown_method_405 [OF ex_tok_cases(2) this] show ?thesis .
qed

text \<open>A request line whose version is not \<open>HTTP/1.1\<close> is answered with a
  bare 400 (line 167): no headers and no error page, since no scope is resolved yet.\<close>

theorem bad_version_400:
  assumes "tokenize raw empty_rinfo = Inr r" "3 \<le> length (request r)" "request r ! 2 \<noteq> ''HTTP/1.1''"
  shows "getMessageToSend e servers raw prt fs0 = (Inr (''HTTP/1.1 400 Bad Request'' @ crlf2), fs0)"
proof -
  have "generateResponse 400 empty_rinfo = ''HTTP/1.1 400 Bad Request'' @ crlf2" by code_simp
  with assms show ?thesis by (simp add: getMessageToSend_try try_body_def init_pst_def)
qed

theorem bad_version_400_witness:
  "getMessageToSend ex_env [ex_server] (''GET / HTTP/1.0'' @ crlf2) ''8080'' ex_fs =
     (Inr (''HTTP/1.1 400 Bad Request'' @ crlf2), ex_fs)"
proof -
  let ?r = "projr (tokenize (''GET / HTTP/1.0'' @ crlf2) empty_rinfo)"
  have "3 \<le> length (request ?r)" "request ?r ! 2 \<noteq> ''HTTP/1.1''" by code_simp+
  from bad_version_400 [OF ex_tok_cases(3) this] show ?thesis .
qed

text \<open>Claim C30.  A POST to a file that does not exist yet is answered 403 and
  nothing is written: \<open>access(path, W_OK)\<close> fails on a missing path (line 356), so
  \<open>writeFile\<close> never creates a file; spec section 4.4 says the body is written and
  200 returned.\<close>

theorem post_new_forbidden:
  assumes "tokenize raw empty_rinfo = Inr r" "3 \<le> length (request r)" "request r ! 2 = ''HTTP/1.1''"
    and "route servers prt (req_host r) = Some blk" "\<not> too_large blk r" "request r ! 0 = ''POST''"
    and "getLocationBlockPair blk (queryPath r) = (pfx, loc)" "''POST'' \<in> set (b_allowed loc)"
    and "request r ! 1 \<noteq> pfx" "\<not> f_ok fs0 (write_target r pfx loc)"
  shows "\<exists>rs. getMessageToSend e servers raw prt fs0 = (Inr (generateResponse 403 rs), fs0)"
proof -
  let ?s = "routed_pst e r prt fs0" and ?p = "write_target r pfx loc"
  have wt: "write_target (rqi ?s) pfx loc = ?p" by (simp add: write_target_def)
  have "\<not> w_ok fs0 ?p" using assms(10) w_ok_f_ok by blast
  with assms(6-10) wt have "writeFile blk True ?s =
      throw 403 ''File write forbidden'' (set_path ?p (set_exist False ?s))"
    by (simp add: writeFile_target Let_def)
  then have "postMethod e blk ?s =
      (Inl (RequestException ''File write forbidden'' 403), set_path ?p (set_exist False ?s))"
    by (simp add: postMethod_def throw_def pm_bind_def)
  moreover have "methods (request r ! 0) = Some postMethod" using assms(6) by simp
  ultimately show ?thesis using getMessageToSend_method_error [OF assms(1-5)] errCode_thrown(2) by fastforce
qed

theorem post_new_forbidden_witness:
  "\<exists>rs. getMessageToSend ex_env [ex_server] (ex_req ''POST'' ''/up/new.txt'') ''8080'' ex_fs =
     (Inr (generateResponse 403 rs), ex_fs)"
proof -
  let ?r = "projr (tokenize (ex_req ''POST'' ''/up/new.txt'') empty_rinfo)"
  have "3 \<le> length (request ?r)" "request ?r ! 2 = ''HTTP/1.1''"
    "route [ex_server] ''8080'' (req_host ?r) = Some ex_server" "\<not> too_large ex_server ?r"
    "request ?r ! 0 = ''POST''" "getLocationBlockPair ex_server (queryPath ?r) = (''/up'', ex_loc_up)"
    "''POST'' \<in> set (b_allowed ex_loc_up)" "request ?r ! 1 \<noteq> ''/up''"
    "\<not> f_ok ex_fs (write_target ?r ''/up'' ex_loc_up)"
    by code_simp+
  from post_new_forbidden [OF ex_tok_cases(7) this] show ?thesis .
qed

text \<open>Claim C31.  A HEAD under a redirecting location crashes: \<open>readFile\<close> returns
  before setting \<open>rqi.path\<close>, and \<open>getType("")\<close> reads \<open>tokens[-1]\<close> of an empty
  vector (line 220); spec section 4.4 says HEAD resolves like GET.\<close>

theorem head_redirect_crash:
  assumes "tokenize raw empty_rinfo = Inr r" "3 \<le> length (request r)" "request r ! 2 = ''HTTP/1.1''"
    and "route servers prt (req_host r) = Some blk" "\<not> too_large blk r" "request r ! 0 = ''HEAD''"
    and "getLocationBlockPair blk (queryPath r) = (pfx, loc)" "''HEAD'' \<in> set (b_allowed loc)"
    and "fst (b_redir loc) \<noteq> 0"
  shows "fst (getMessageToSend e servers raw prt fs0) = Inl (Crash ''getType: tokens[-1]'')"
proof -
  let ?s = "routed_pst e r prt fs0"
  have "readFile e blk ?s =
      (Inr [], ?s\<lparr>rsi := (rsi ?s)\<lparr>headers := sm_set ''Location'' (snd (b_redir loc)) (headers (rsi ?s)),
                                  code := fst (b_redir loc)\<rparr>\<rparr>)"
    using assms(6-9) by (simp add: readFile_redirect)
  moreover have "path r = []" using tokenize_path [OF assms(1)] by simp
  ultimately have "fst (headMethod e blk ?s) = Inl (Crash ''getType: tokens[-1]'')"
    by (simp add: headMethod_def pm_bind_def getType_def)
  moreover have "methods (request r ! 0) = Some headMethod" using assms(6) by simp
  ultimately show ?thesis using getMessageToSend_method [OF assms(1-5)]
    by (auto split: prod.split sum.split exn.split)
qed

theorem head_redirect_crash_witness:
  "fst (getMessageToSend ex_env [ex_server] (ex_req ''HEAD'' ''/old'') ''8080'' ex_fs) =
     Inl (Crash ''getType: tokens[-1]'')"
proof -
  let ?r = "projr (tokenize (ex_req ''HEAD'' ''/old'') empty_rinfo)"
  have "3 \<le> length (request ?r)" "request ?r ! 2 = ''HTTP/1.1''"
    "route [ex_server] ''8080'' (req_host ?r) = Some ex_server" "\<not> too_large ex_server ?r"
    "request ?r ! 0 = ''HEAD''" "getLocationBlockPair ex_server (queryPath ?r) = (''/old'', ex_loc_old)"
    "''HEAD'' \<in> set (b_allowed ex_loc_old)" "fst (b_redir ex_loc_old) \<noteq> 0"
    by code_simp+
  from head_redirect_crash [OF ex_tok_cases(10) this] show ?thesis .
qed

text \<open>Claim C32.  A request line of two words (no version) is not rejected: line 166
  reads \<open>request[2]\<close> past the end of the vector, which is undefined behaviour; spec
  section 4.2 only rejects an empty request line.\<close>

theorem short_request_line_crash:
  assumes "tokenize raw empty_rinfo = Inr r" "length (request r) < 3"
  shows "getMessageToSend e servers raw prt fs0 = (Inl (Crash ''request[2] out of range''), fs0)"
  using assms by (simp add: getMessageToSend_try try_body_def init_pst_def)

theorem short_request_line_crash_witness:
  "fst (getMessageToSend ex_env [ex_server] (''GET /'' @ crlf2) ''8080'' ex_fs) = Inl (Crash ''request[2] out of range'')"
proof -
  have t: "tokenize (''GET /'' @ crlf2) empty_rinfo = Inr (projr (tokenize (''GET /'' @ crlf2) empty_rinfo))"
    and "length (request (projr (tokenize (''GET /'' @ crlf2) empty_rinfo))) < 3" by code_simp+
  from short_request_line_crash [OF this] show ?thesis by simp
qed

subsection \<open>The shape of every response\<close>

lemma route_in: "route servers prt h = Some blk \<Longrightarrow> blk \<in> set servers"
  by (induction servers) (auto simp: route_def split: if_splits)

lemma redirect_of_scope:
  "fst (b_redir (snd (getLocationBlockPair sb q))) \<in> set (scope_redirects sb)"
proof (cases "filter (\<lambda>(k, _). starts_with q k) (sb_locs sb)")
  case Nil
  then show ?thesis by (simp add: getLocationBlockPair_def scope_redirects_def ablock.truncate_def)
next
  case (Cons m ms)
  then have "last (m # ms) \<in> set (sb_locs sb)"
    by (metis filter_is_subset last_in_set list.distinct(1) subsetD)
  with Cons show ?thesis by (auto simp: getLocationBlockPair_def scope_redirects_def)
qed

lemma open_index_Inr:
  "open_index root ixs s = (Inr u, s') \<Longrightarrow> rsi s' = rsi s \<and> exist (rqi s') = exist (rqi s)"
  by (induction root ixs s rule: open_index.induct) (auto simp: throw_def Let_def split: if_splits)

lemma serve_opened_Inr:
  "serve_opened s = (Inr b, s') \<Longrightarrow> code (rsi s') = code (rsi s) \<and> exist (rqi s') = exist (rqi s)"
  by (auto simp: serve_opened_def split: sum.splits)

text \<open>What \<open>readFile\<close> leaves behind when it returns: the code is 200 or the
  redirection code of the matched scope, and the request is marked as a script only
  when its body came from a CGI run that exited with 200.\<close>

lemma readFile_Inr:
  assumes r: "readFile e blk s = (Inr b, s')" and nx: "\<not> exist (rqi s)"
  shows "(exist (rqi s') \<longrightarrow> (\<exists>a hd p bd q. cgi e a hd p bd q = (200, b))) \<and>
         (code (rsi s') = 200 \<or> code (rsi s') = fst (b_redir (snd (getLocationBlockPair blk (queryPath (rqi s))))))"
proof -
  let ?loc = "snd (getLocationBlockPair blk (queryPath (rqi s)))"
  let ?pfx = "fst (getLocationBlockPair blk (queryPath (rqi s)))"
  let ?qp = "queryPath (rqi s)"
  let ?s2 = "s\<lparr>rsi := (rsi s)\<lparr>code := 200\<rparr>\<rparr>"
  let ?p = "b_root ?loc @ ''/'' @ snd (split_pair ?qp ?pfx)"
  have allowed: "request (rqi s) ! 0 \<in> set (b_allowed ?loc)"
    using r by (auto simp: readFile_def throw_def Let_def split: if_splits)
  consider (c_redir) "fst (b_redir ?loc) \<noteq> 0"
    | (c_empty) "fst (b_redir ?loc) = 0" "?qp = []"
    | (c_list) "fst (b_redir ?loc) = 0" "?qp \<noteq> []" "listing_req ?qp"
    | (c_file) "fst (b_redir ?loc) = 0" "?qp \<noteq> []" "\<not> listing_req ?qp" "?qp \<noteq> ?pfx"
    | (c_index) "fst (b_redir ?loc) = 0" "?qp \<noteq> []" "\<not> listing_req ?qp" "?qp = ?pfx"
    by blast
  then show ?thesis
  proof cases
    case c_redir
    with r allowed nx show ?thesis by (auto simp: readFile_def Let_def)
  next
    case c_empty
    with r allowed show ?thesis by (simp add: readFile_def Let_def)
  next
    case c_list
    with r allowed nx show ?thesis by (auto simp: readFile_def Let_def)
  next
    case c_file
    show ?thesis
    proof (cases "ext_of ?p = ''py'' \<or> ext_of ?p = ''cgi''")
      case True
      define rr where "rr = cgi e (request (rqi s)) (headers (rqi s)) ?p (body (rqi s)) (query (rqi s))"
      from r c_file allowed True have rr: "fst rr = 200" "b = snd rr" "s' = set_exist True (set_path ?p ?s2)"
        by (auto simp: readFile_def Let_def throw_def rr_def split: if_splits)
      then have "cgi e (request (rqi s)) (headers (rqi s)) ?p (body (rqi s)) (query (rqi s)) = (200, b)"
        by (metis prod.collapse rr_def)
      then have "\<exists>a hd p bd q. cgi e a hd p bd q = (200, b)" by blast
      with rr(3) show ?thesis by simp
    next
      case False
      from r c_file allowed False have "serve_opened (set_path ?p ?s2) = (Inr b, s')"
        by (auto simp: readFile_def Let_def throw_def split: if_splits)
      from serve_opened_Inr [OF this] nx show ?thesis by simp
    qed
  next
    case c_index
    with r allowed have "pm_bind (open_index (b_root ?loc) (b_index ?loc)) (\<lambda>_. serve_opened) ?s2 = (Inr b, s')"
      by (simp add: readFile_def Let_def)
    then obtain u s1 where o: "open_index (b_root ?loc) (b_index ?loc) ?s2 = (Inr u, s1)"
      and so: "serve_opened s1 = (Inr b, s')"
      by (auto simp: pm_bind_def split: prod.splits sum.splits)
    from open_index_Inr [OF o] serve_opened_Inr [OF so] nx show ?thesis by simp
  qed
qed

lemma errCode_sent: "map_of errCodeMessages 200 \<noteq> None" "map_of errCodeMessages 204 \<noteq> None"
  "map_of errCodeMessages 409 \<noteq> None"
  by (simp_all add: errCodeMessages_def)

text \<open>A method handler that returns a value returns a generated response with a code
  of the status table or the scope's redirection code, or the body of a CGI run that
  exited with 200.\<close>

lemma method_Inr:
  assumes m: "methods meth = Some h" and hr: "h e blk s = (Inr out, s')" and nx: "\<not> exist (rqi s)"
  shows "(\<exists>c r. out = generateResponse c r \<and>
            (map_of errCodeMessages c \<noteq> None \<or> c = fst (b_redir (snd (getLocationBlockPair blk (queryPath (rqi s)))))))
         \<or> (\<exists>a hd p bd q. cgi e a hd p bd q = (200, out))"
proof -
  consider "h = getMethod" | "h = postMethod" | "h = headMethod" | "h = delMethod"
    using m by (auto simp: methods_def split: if_splits)
  then show ?thesis
  proof cases
    case 1
    obtain x s1 where rf: "readFile e blk s = (x, s1)" by fastforce
    with hr 1 obtain b where x: "x = Inr b" by (cases x) (simp_all add: getMethod_def pm_bind_def)
    from readFile_Inr [OF rf [unfolded x] nx] hr 1 rf x errCode_sent(1) show ?thesis
      by (auto simp: getMethod_def pm_bind_def Let_def split: if_splits)
  next
    case 2
    obtain x s1 where wf: "writeFile blk True s = (x, s1)" by fastforce
    with hr 2 have x: "x = Inr ()" by (cases x) (simp_all add: postMethod_def pm_bind_def)
    show ?thesis
    proof (cases "exist (rqi s1)")
      case False
      with hr 2 wf x errCode_sent(1) show ?thesis by (auto simp: postMethod_def pm_bind_def)
    next
      case ex: True
      let ?p = "path (rqi s1)"
      obtain t where gt: "getType ?p = Inr t"
        using hr 2 wf x ex by (cases "getType ?p") (simp_all add: postMethod_def pm_bind_def Let_def)
      define rr where "rr = cgi e (request (rqi s1)) (headers (rqi s1)) ?p (body (rqi s1)) (query (rqi s1))"
      show ?thesis
      proof (cases "find_char (CHR ''/'') ?p \<noteq> None \<and> ext_of ?p = ''py''")
        case c: True
        from hr 2 wf x ex gt c have "fst rr = 200 \<and> out = snd rr"
          by (auto simp: postMethod_def pm_bind_def Let_def throw_def rr_def split: if_splits)
        then have "cgi e (request (rqi s1)) (headers (rqi s1)) ?p (body (rqi s1)) (query (rqi s1)) = (200, out)"
          by (metis prod.collapse rr_def)
        then show ?thesis by blast
      next
        case c: False
        from hr 2 wf x ex gt c have "\<exists>r. out = generateResponse 409 r"
          by (auto simp: postMethod_def pm_bind_def Let_def split: if_splits)
        with errCode_sent(3) show ?thesis by blast
      qed
    qed
  next
    case 3
    obtain x s1 where rf: "readFile e blk s = (x, s1)" by fastforce
    with hr 3 obtain b where "x = Inr b" by (cases x) (simp_all add: headMethod_def pm_bind_def)
    with hr 3 rf errCode_sent(1) show ?thesis
      by (auto simp: headMethod_def pm_bind_def Let_def split: sum.splits)
  next
    case 4
    obtain x s1 where wf: "writeFile blk False s = (x, s1)" by fastforce
    with hr 4 have "x = Inr ()" by (cases x) (simp_all add: delMethod_def pm_bind_def)
    with hr 4 wf errCode_sent(2) show ?thesis
      by (auto simp: delMethod_def pm_bind_def Let_def throw_def split: if_splits)
  qed
qed

lemma catch_handler_Inr:
  "fst (catch_handler c s blk) = Inr out \<Longrightarrow>
   map_of errCodeMessages c \<noteq> None \<and> (\<exists>r. out = generateResponse c r)"
  by (auto simp: catch_handler_def Let_def split: if_splits sum.splits)

text \<open>The \<open>try\<close> block returns a value only through the version check (400) or
  through the method handler of a routed, not yet marked request.\<close>

lemma try_body_Inr:
  assumes t: "try_body e servers raw prt (init_pst fs0) = (Inr out, s, blk)"
  shows "(\<exists>r. out = generateResponse 400 r) \<or>
         (\<exists>h s0. blk \<in> set servers \<and> methods (request (rqi s0) ! 0) = Some h \<and>
                 h e blk s0 = (Inr out, s) \<and> \<not> exist (rqi s0))"
proof -
  obtain r where tok: "tokenize raw empty_rinfo = Inr r"
    using t by (cases "tokenize raw empty_rinfo") (simp_all add: try_body_def init_pst_def)
  have len: "3 \<le> length (request r)"
    using t tok by (simp add: try_body_def init_pst_def Let_def split: if_splits)
  show ?thesis
  proof (cases "request r ! 2 = ''HTTP/1.1''")
    case False
    with t tok len show ?thesis by (auto simp: try_body_def init_pst_def)
  next
    case True
    note tb = t [unfolded try_body_parsed [OF tok len True]]
    obtain b0 where rt: "route servers prt (req_host r) = Some b0"
      using tb by (cases "route servers prt (req_host r)") (simp_all add: Let_def)
    have nl: "\<not> too_large b0 r" using tb rt by (simp add: Let_def split: if_splits)
    obtain h where mh: "methods (request r ! 0) = Some h"
      using tb rt nl by (cases "methods (request r ! 0)") (simp_all add: Let_def)
    define s0 where "s0 = set_rsi_header ''Date'' (date e)
      \<lparr>rqi = r\<lparr>port := prt, headers := snd (sm_index ''Host'' [] (headers r))\<rparr>, rsi = empty_rinfo, fs = fs0\<rparr>"
    from tb rt nl mh have "h e b0 s0 = (Inr out, s)" "blk = b0"
      by (auto simp: Let_def s0_def prod_eq_iff)
    moreover have "request (rqi s0) ! 0 = request r ! 0" "\<not> exist (rqi s0)"
      using tokenize_path [OF tok] by (simp_all add: s0_def)
    ultimately show ?thesis using mh route_in [OF rt] by auto
  qed
qed

lemma ex_redirect_sent:
  "fst (getMessageToSend ex_env [ex_server] (ex_req ''GET'' ''/old'') ''8080'' ex_fs) =
     Inr (projr (fst (getMessageToSend ex_env [ex_server] (ex_req ''GET'' ''/old'') ''8080'' ex_fs)))"
  by code_simp

text \<open>Claim C22.  Every response \<open>getMessageToSend\<close> hands back is either the
  serialization of a response whose code is in the status table or is a redirection
  code configured for one of the servers, or the verbatim body of a CGI run that
  exited with 200.  So the promise of spec section 8, that every response starts with
  \<open>HTTP/1.1\<close> and a code of the fixed table, holds only for servers without
  redirections outside the table and for requests that run no script.\<close>

theorem response_shape:
  assumes "fst (getMessageToSend e servers raw prt fs0) = Inr out"
  shows "(\<exists>c r. out = generateResponse c r \<and>
            (map_of errCodeMessages c \<noteq> None \<or> (\<exists>sb \<in> set servers. c \<in> set (scope_redirects sb))))
         \<or> (\<exists>a hd p bd q. cgi e a hd p bd q = (200, out))"
proof -
  obtain x s blk where tb: "try_body e servers raw prt (init_pst fs0) = (x, s, blk)" by (metis prod_cases3)
  show ?thesis
  proof (cases x)
    case (Inl ex)
    show ?thesis
    proof (cases ex)
      case (Crash m)
      with Inl tb assms show ?thesis by (simp add: getMessageToSend_def)
    next
      case (RequestException m c)
      with Inl tb assms have "fst (catch_handler c s blk) = Inr out" by (simp add: getMessageToSend_def)
      from catch_handler_Inr [OF this] show ?thesis by blast
    qed
  next
    case (Inr y)
    with tb assms have y: "y = out" by (simp add: getMessageToSend_def)
    from try_body_Inr [OF tb [unfolded Inr y]] show ?thesis
    proof
      assume "\<exists>r. out = generateResponse 400 r"
      with errCode_thrown(1) show ?thesis by blast
    next
      assume "\<exists>h s0. blk \<in> set servers \<and> methods (request (rqi s0) ! 0) = Some h \<and>
                 h e blk s0 = (Inr out, s) \<and> \<not> exist (rqi s0)"
      then obtain h s0 where b: "blk \<in> set servers" and m: "methods (request (rqi s0) ! 0) = Some h"
        and hs: "h e blk s0 = (Inr out, s)" and nx: "\<not> exist (rqi s0)" by blast
      from method_Inr [OF m hs nx] redirect_of_scope [of blk "queryPath (rqi s0)"] b
      show ?thesis by blast
    qed
  qed
qed

theorem response_shape_witness:
  "let out = projr (fst (getMessageToSend ex_env [ex_server] (ex_req ''GET'' ''/old'') ''8080'' ex_fs))
   in (\<exists>c r. out = generateResponse c r \<and>
         (map_of errCodeMessages c \<noteq> None \<or> (\<exists>sb \<in> set [ex_server]. c \<in> set (scope_redirects sb))))
      \<or> (\<exists>a hd p bd q. cgi ex_env a hd p bd q = (200, out))"
  using response_shape [OF ex_redirect_sent] by (simp only: Let_def)


subsection \<open>What a request does to the file system\<close>

text \<open>Reading handlers, the index loop and the serving of an opened file leave the file
  system as it is; \<open>writeFile\<close> changes it only by truncating and writing an
  existing file, and only when it is not asked to create one (DELETE).\<close>

lemma open_index_fs: "open_index root ixs s = (x, s') \<Longrightarrow> fs s' = fs s"
  by (induction root ixs s arbitrary: x rule: open_index.induct)
     (auto simp: throw_def set_path_def Let_def split: if_splits)

lemma serve_opened_fs: "serve_opened s = (x, s') \<Longrightarrow> fs s' = fs s"
  by (auto simp: serve_opened_def set_rsi_header_def split: sum.splits)

lemma readFile_fs: "readFile e blk s = (x, s') \<Longrightarrow> fs s' = fs s"
  by (auto simp: readFile_def Let_def throw_def pm_bind_def set_path_def set_exist_def set_rsi_header_def
      dest!: open_index_fs serve_opened_fs split: if_splits prod.splits sum.splits)

lemma writeFile_fs:
  "writeFile blk cn s = (x, s') \<Longrightarrow>
   fs s' = fs s \<or> (\<not> cn \<and> x = Inr () \<and> f_ok (fs s) (path (rqi s')) \<and>
                    fs s' = write_file (fs s) (path (rqi s')) (body (rqi s')))"
  by (auto simp: writeFile_def Let_def throw_def set_path_def set_exist_def w_ok_def f_ok_def
      split: if_splits option.splits)

text \<open>A method handler leaves the file system as it found it, except a DELETE, which
  removes one existing node.\<close>

lemma method_fs:
  assumes m: "methods meth = Some h" and hr: "h e blk s = (x, s')"
  shows "fs s' = fs s \<or> (meth = ''DELETE'' \<and> (\<exists>p. fs s p \<noteq> None \<and> fs s' = (fs s)(p := None)))"
proof -
  consider "h = getMethod" | "h = postMethod" | "h = headMethod" | "h = delMethod" "meth = ''DELETE''"
    using m by (auto simp: methods_def split: if_splits)
  then show ?thesis
  proof cases
    case 1
    obtain y s1 where rf: "readFile e blk s = (y, s1)" by fastforce
    from readFile_fs [OF rf] hr 1 rf show ?thesis
      by (auto simp: getMethod_def pm_bind_def Let_def set_rsi_header_def split: sum.splits if_splits)
  next
    case 2
    obtain y s1 where wf: "writeFile blk True s = (y, s1)" by fastforce
    from writeFile_fs [OF wf] have "fs s1 = fs s" by simp
    with hr 2 wf show ?thesis
      by (auto simp: postMethod_def pm_bind_def Let_def set_rsi_header_def throw_def set_exist_def
          split: sum.splits if_splits)
  next
    case 3
    obtain y s1 where rf: "readFile e blk s = (y, s1)" by fastforce
    from readFile_fs [OF rf] hr 3 rf show ?thesis
      by (auto simp: headMethod_def pm_bind_def Let_def set_rsi_header_def split: sum.splits)
  next
    case 4
    obtain y s1 where wf: "writeFile blk False s = (y, s1)" by fastforce
    show ?thesis
    proof (cases y)
      case (Inl ex)
      with hr 4 wf writeFile_fs [OF wf] show ?thesis by (auto simp: delMethod_def pm_bind_def)
    next
      case (Inr u)
      let ?p = "path (rqi s1)"
      from writeFile_fs [OF wf] show ?thesis
      proof
        assume f1: "fs s1 = fs s"
        show ?thesis
        proof (cases "fs s (norm ?p)")
          case None
          with f1 hr 4 wf Inr show ?thesis
            by (auto simp: delMethod_def pm_bind_def Let_def throw_def remove_file_def node_def f_ok_def)
        next
          case (Some n)
          with f1 hr 4 wf Inr have "fs s' = (fs s)(norm ?p := None)"
            by (auto simp: delMethod_def pm_bind_def Let_def throw_def remove_file_def node_def f_ok_def)
          with Some 4 show ?thesis by blast
        qed
      next
        assume w: "\<not> False \<and> y = Inr () \<and> f_ok (fs s) ?p \<and> fs s1 = write_file (fs s) ?p (body (rqi s1))"
        then have "fs s (norm ?p) \<noteq> None" by (simp add: f_ok_def node_def)
        moreover from w hr 4 wf Inr have "fs s' = (fs s)(norm ?p := None)"
          by (auto simp: delMethod_def pm_bind_def Let_def remove_after_write)
        ultimately show ?thesis using 4 by blast
      qed
    qed
  qed
qed

lemma getMessageToSend_fs_try:
  "snd (getMessageToSend e servers raw prt fs0) = fs (fst (snd (try_body e servers raw prt (init_pst fs0))))"
  by (auto simp: getMessageToSend_def catch_handler_def Let_def split: prod.split sum.split exn.split)

lemma try_body_fs:
  assumes tb: "try_body e servers raw prt (init_pst fs0) = (x, s, blk)"
  shows "fs s = fs0 \<or> (\<exists>r p. tokenize raw empty_rinfo = Inr r \<and> request r ! 0 = ''DELETE'' \<and>
                               fs0 p \<noteq> None \<and> fs s = fs0(p := None))"
proof (cases "tokenize raw empty_rinfo")
  case (Inl ex)
  with tb show ?thesis by (auto simp: try_body_def init_pst_def)
next
  case (Inr r)
  show ?thesis
  proof (cases "3 \<le> length (request r) \<and> request r ! 2 = ''HTTP/1.1''")
    case False
    with tb Inr have "fs s = fs0" by (auto simp: try_body_def init_pst_def Let_def split: if_splits)
    then show ?thesis ..
  next
    case True
    note t = tb [unfolded try_body_parsed [OF Inr conjunct1 [OF True] conjunct2 [OF True]]]
    show ?thesis
    proof (cases "\<exists>b h. route servers prt (req_host r) = Some b \<and> \<not> too_large b r \<and>
                        methods (request r ! 0) = Some h")
      case False
      with t show ?thesis by (auto simp: Let_def set_rsi_header_def split: option.splits if_splits)
    next
      case True
      then obtain b h where rt: "route servers prt (req_host r) = Some b" and nl: "\<not> too_large b r"
        and mh: "methods (request r ! 0) = Some h" by blast
      obtain y s' where hx: "h e b (routed_pst e r prt fs0) = (y, s')" by fastforce
      with t rt nl mh have "s = s'" by (auto simp: Let_def routed_pst_def)
      moreover have "fs (routed_pst e r prt fs0) = fs0" by (simp add: routed_pst_def set_rsi_header_def)
      ultimately show ?thesis using method_fs [OF mh hx] Inr by auto
    qed
  qed
qed

lemma getMessageToSend_map_le: "snd (getMessageToSend e servers raw prt fs0) \<subseteq>\<^sub>m fs0"
proof -
  obtain x s blk where tb: "try_body e servers raw prt (init_pst fs0) = (x, s, blk)" by (metis prod_cases3)
  from try_body_fs [OF tb] show ?thesis
    by (auto simp: getMessageToSend_fs_try tb map_le_def split: if_splits)
qed



end
