(* ===== verification/Spec2Isabelle.thy ===== *)
theory Spec2Isabelle
  imports Prelude StdMap Message Response Multiplexer Server ConnSpec IOAdaptor Config FileSys Pipeline
begin

text \<open>
  A verification development for webserv, a single-process HTTP/1.1 server in C++
  (sources under src/src/).  The server runs one \<open>poll\<close> loop over its listening
  sockets and accepted connections (\<open>WebServer\<close>, src/src/WebServer.cpp), buffers
  the bytes of each connection, parses a buffer that holds a whole request
  (\<open>WebServer::parseHeader\<close> for the framing check, \<open>MethodIO::tokenize\<close> in the
  pipeline), hands it to the \<open>IOAdaptor\<close> (\<open>MethodIO::getMessageToSend\<close>, which
  routes the request and runs the method) and sends the serialised response
  (\<open>MethodIO::generateResponse\<close>), possibly over several writable events.

  \<^bold>\<open>Theories.\<close>
  \<^item> \<open>Prelude\<close>: strings as \<open>char list\<close>, the string utilities the sources call
    (\<open>utils::split\<close> on a string and on a character, \<open>splitPair\<close>, \<open>stoi\<close>,
    \<open>to_string\<close>; their implementation is not under src/, so they follow the contract
    of spec section 1) and the lemmas on substring search they need.
  \<^item> \<open>StdMap\<close>: \<open>std::map\<close> as an association list sorted by key, with
    \<open>m[k] = v\<close>, \<open>insert\<close>, a read through \<open>operator[]\<close> and \<open>erase\<close>; the
    invariant that keys ascend, and refinement of \<open>map_of\<close> by each operation.  The
    order matters: \<open>generateResponse\<close> emits headers in iteration order.
  \<^item> \<open>Message\<close>: the request record \<open>rInfo\<close>, the error type \<open>exn\<close>
    (\<open>RequestException\<close>, caught by the pipeline, and \<open>Crash\<close>, for undefined
    behaviour and uncaught standard exceptions), \<open>tokenize\<close> and \<open>parseHeader\<close>.
  \<^item> \<open>Response\<close>: the status and content-type tables as their initialisers build
    them, \<open>getMessage\<close>, \<open>getType\<close> and \<open>generateResponse\<close>.
  \<^item> \<open>Multiplexer\<close>: the state of the event loop as a record \<open>'w ws\<close> (the poll
    set \<open>_pfds\<close>, the loop-local \<open>buffMap\<close>, \<open>_connectionsPortMap\<close>,
    \<open>_socketPortmap\<close>, the adaptor's \<open>receivedRaw\<close>, the descriptors held
    open, and the world \<open>'w\<close> of the adaptor, threaded through every dispatch); \<open>addPfd\<close>, \<open>removePfd\<close>, \<open>acceptConnection\<close>, \<open>handleIO\<close> (split into
    its read branch \<open>handle_read\<close>, its write branch \<open>handle_write\<close> and the
    hand-over \<open>dispatch\<close>), the for loop \<open>scan\<close>, the outer \<open>loop\<close>, and
    \<open>initSockets\<close>.  \<open>ws_step\<close> is the loop body as a step relation, for
    \<open>revents\<close> that \<open>poll\<close> can report (\<open>poll_ok\<close>).  The \<open>(size_t)\<close> cast of
    the read guard is a conversion to a 64-bit word.
  \<^item> \<open>Server\<close>: \<open>WebServer::loop\<close> as the unbounded \<open>for (;;)\<close> it is (\<open>serve\<close>,
    a \<open>partial_function (option)\<close> over a trace of kernel outcomes, \<open>None\<close> for a
    run that never returns), the destructor \<open>destroy\<close> and \<open>addPfds\<close>, and
    \<open>send_visits\<close>, an iteration in which one entry is writable.
  \<^item> \<open>ConnSpec\<close>: the PendingConnection of spec sections 3 and 4.1 as an abstract
    machine \<open>conn_step\<close> on a table of connections (phase, buffer, port) and the
    adaptor's world, the abstraction \<open>conn_abs\<close> of the multiplexer state, and the
    simulation of every \<open>ws_step\<close> by an abstract step or a stutter.
  \<^item> \<open>IOAdaptor\<close>: \<open>receiveMessage\<close>, \<open>getRaw\<close>, the echoing base
    \<open>getMessageToSend\<close> (\<open>echo_message\<close>, a responder), the assignment
    \<open>assign_adaptor\<close>, the printer \<open>print_adaptor\<close> and \<open>CustomException\<close>.
  \<^item> \<open>Config\<close>: the configuration scopes (\<open>ServerBlock\<close> as a record extending
    the \<open>ABlock\<close> fields) and the longest-prefix lookup \<open>getLocationBlockPair\<close>;
    the scope classes are implemented outside src/, so their accessors follow spec
    sections 3 and 4.3.
  \<^item> \<open>FileSys\<close>: the file system as the environment of \<open>access\<close>,
    \<open>std::ifstream\<close>, \<open>std::ofstream\<close> and \<open>std::remove\<close>.
  \<^item> \<open>Pipeline\<close>: \<open>MethodIO::getMessageToSend\<close> with its try block and catch
    handler, \<open>getServerBlock\<close>, \<open>readFile\<close>, \<open>writeFile\<close> and the four method
    handlers.  They mutate the request and response records by reference and raise
    \<open>RequestException\<close>s; each is a function on the state (request, response, file
    system) returning its outcome with the state reached, so the catch handler sees
    the mutations made before a throw.
  \<^item> This theory composes the two: \<open>getMessageToSend e servers\<close> has the type
    \<open>fsys responder\<close>, so the multiplexer runs it as its adaptor
    (\<open>WebServer::handleIO\<close>, lines 243--244) on an \<open>fsys ws\<close>, threading the
    file system from one dispatch to the next, over every connection.

  \<^bold>\<open>The environment.\<close>  System calls are not executed but supplied: a handler
  takes what \<open>recv\<close> delivered (\<open>None\<close> for -1, \<open>Some []\<close> for a closed peer),
  the count \<open>send\<close> accepted and the descriptor \<open>accept\<close> returned; \<open>scan\<close> takes
  the \<open>revents\<close> of each entry.  The chunk length is not bounded by the 4096 bytes of
  the receive buffer (\<open>BUFFSIZE\<close>); the model over-approximates \<open>recv\<close>, so every
  lemma holds for all chunks and the concrete examples use short ones.  The kernel's promise that \<open>accept\<close> returns a descriptor that is not
  open is the side condition of the accept rule of \<open>ws_step\<close> and of the freshness
  hypotheses on \<open>initSockets\<close>.  The multiplexer takes the request pipeline behind
  \<open>IOAdaptor::getMessageToSend\<close> as a parameter \<open>resp\<close>, so its lemmas hold for
  every implementation of that interface; the pipeline takes CGI, directory listing
  and the clock as the fields of \<open>env\<close>, and the file system as an argument.  The
  outer loop runs forever.  It is modelled twice: \<open>loop\<close> runs a finite list of
  iterations, each a \<open>poll\<close> outcome and the visits of its scan, and \<open>serve\<close> runs
  an infinite trace as a \<open>partial_function (option)\<close>, so no fuel bound is chosen:
  \<open>serve\<close> is proved to return exactly when \<open>poll\<close> fails (with the result of
  \<open>loop\<close> on the iterations up to the failure) and never to return a state
  otherwise.  Every other loop of the sources is structural recursion over a list.

  \<^bold>\<open>What is proved.\<close>
  \<^item> Multiplexer: every reachable state satisfies the invariant \<open>ws_inv\<close> (sorted
    maps, each descriptor polled once and open, a port recorded for every polled
    connection); a drained connection is closed and released without the
    \<open>erase(end())\<close> crash; partial sends keep exactly the unsent suffix; a read
    dispatches exactly when the buffer becomes framed, for a buffer that is empty or
    has its header section; \<open>initSockets\<close> opens one socket per port.  Five
    behaviours of the code against the specification are proved as theorems: the
    chunk-dependent completion test that leaves a framed request undispatched for
    ever, the descriptor leak on a closed peer, the crashes on a failing \<open>recv\<close>
    and on a failing \<open>send\<close>, and the entry skipped after a removal during the
    scan.  A \<open>Content-Length\<close> that is
    not a number is read as -1 and wrapped by the \<open>size_t\<close> cast to \<open>2^64 - 1\<close>,
    so such a request is never dispatched.
  \<^item> Server and ConnSpec: the loop returns when \<open>poll\<close> fails and only then or on a
    crash; the send phase ends (the connection is closed and released) after the
    iterations whose sends make progress through its buffer and one more writable
    event, the remaining length being the measure; a descriptor leaked by a closing
    peer, and the socket of a port whose \<open>listen\<close> failed, survive the destructor; the
    abstract state of every reachable state (its connection table and the adaptor's
    world) is reached by the abstract machine from the empty table and the initial
    world (refinement), so the world changes only through responses, and a
    connection that is writing holds a suffix of a response the adaptor produced for
    its port.
  \<^item> Pipeline: the behaviours of spec section 8 (404 for an unknown host and port,
    413 before any write, the index page served with its type and length), GET of a
    file, a redirect, DELETE removing a file, that no request error escapes
    \<open>getMessageToSend\<close>, and the shape of every response it returns (a code of the
    status table or a configured redirection code, or a CGI body); that a request
    leaves the file system unchanged unless it is a DELETE, which removes exactly one
    existing node; and three behaviours against the specification: POST never
    creates a file (403), HEAD on a redirect crashes, a two-word request line crashes.
  \<^item> Config: the last matching key of the sorted location map is the longest prefix.
  \<^item> Response: status line of every code of the table, round trip of the wire format
    through \<open>parseHeader\<close> (with the \<open>Content-Length\<close> round trip of spec section 8
    as a lemma), and the ascending-key header order.
  \<^item> Message: the body is the text after CRLFCRLF for every method (the POST branch is
    overwritten), a GET target splits losslessly at
    its first \<open>?\<close>, and \<open>tokenize\<close> and \<open>parseHeader\<close> agree.
  \<^item> Across components: the event loop with \<open>MethodIO\<close> as adaptor never stops on a
    request error; the example request of spec section 8 goes end to end through
    read, dispatch, two partial sends and the close; requests on different
    connections interact through the file system (a DELETE on one connection turns
    the 200 of a GET on another into a 404); and in every reachable state of a server
    running \<open>MethodIO\<close> the file system is the initial one with nodes removed, so
    no upload ever lands.

  \<^bold>\<open>Not modelled.\<close>  The configuration parser, CGI and directory listing are
  external collaborators (parameters); \<open>getDate\<close> reads the clock (a parameter);
  logging to \<open>std::cout\<close> has no effect on the state; permissions of parent
  directories are not part of the file-system model, so \<open>remove\<close> succeeds on every
  existing node.  The \<open>revents\<close> of an entry
  appended during a scan are taken from the environment, while the code reads a field
  that \<open>poll\<close> never set.  The escape sequences of \<open>colors.h\<close> (not in the
  repository) are a parameter of the echoing adaptor and its printer; the copy
  constructors and assignments of \<open>WebServer\<close> and \<open>MethodIO\<close> (which copy nothing),
  the empty destructors, the includes, the \<open>operator<<\<close> of \<open>ServerBlock\<close> (declared
  in ServerBlock.hpp, defined outside src/) and \<open>MethodIO::getDate\<close> (the clock,
  the parameter \<open>date\<close>) are not modelled, nor \<open>WebServer::printServerBlocksInfo\<close>,
  \<open>WebServer::getServers\<close> (a getter), \<open>get_in_addr\<close> and the
  socket calls inside \<open>initSocket\<close>, which \<open>initSockets\<close> sees only through their
  outcome.
\<close>

text \<open>The multiplexer and the pipeline composed as in \<open>WebServer::handleIO\<close> (lines
  243--244): \<open>getMessageToSend e servers\<close> takes the raw message handed to
  \<open>IOAdaptor::receiveMessage\<close>, the port of the connection and the file system, and
  returns the response and the file system after it, so it is itself the responder of
  an \<open>fsys ws\<close>, a server whose adaptor's world is the file system.  A server with
  two connections on port 8080 (descriptors 5 and 7) over the example file system, and
  the responses of the examples.\<close>

definition ex_srv :: "fsys ws" where
  "ex_srv = \<lparr>pfds = [\<lparr>pfd_fd = 3, pfd_events = POLLIN\<rparr>, \<lparr>pfd_fd = 5, pfd_events = POLLIN\<rparr>,
                     \<lparr>pfd_fd = 7, pfd_events = POLLIN\<rparr>],
     buffMap = [(5, []), (7, [])], connPort = [(5, ''8080''), (7, ''8080'')],
     sockPort = [(3, ''8080'')], ioRaw = [], openFds = [7, 5, 3], world = ex_fs\<rparr>"

definition ex_resp200 :: str where
  "ex_resp200 = ''HTTP/1.1 200 OK'' @ crlf @ ''Content-Length: 11'' @ crlf @ ''Content-Type: text/html'' @ crlf @
     ''Date: D'' @ crlf2 @ ''<h1>hi</h1>''"

definition ex_resp204 :: str where
  "ex_resp204 = ''HTTP/1.1 204 No Content'' @ crlf @ ''Date: D'' @ crlf2"

definition ex_resp404 :: str where
  "ex_resp404 = ''HTTP/1.1 404 Not Found'' @ crlf @ ''Content-Length: 2'' @ crlf @ ''Content-Type: text/html'' @ crlf @
     ''Date: D'' @ crlf2 @ ''nf''"

definition ex_resp_aaa :: str where
  "ex_resp_aaa = ''HTTP/1.1 200 OK'' @ crlf @ ''Content-Length: 3'' @ crlf @ ''Content-Type: text/plain'' @ crlf @
     ''Date: D'' @ crlf2 @ ''aaa''"

subsection \<open>Running the server on the example\<close>

lemma Inr_projr_ex: "\<not> isl x \<Longrightarrow> P (projr x) \<Longrightarrow> \<exists>y. x = Inr y \<and> P y"
  by (cases x) simp_all

lemma not_isl_Inr: "\<not> isl x \<Longrightarrow> x = Inr (projr x)"
  by (cases x) simp_all

lemma ex_srv_reached:
  "(ws_step resp)\<^sup>*\<^sup>* (initSockets [(''8080'', Bound 3)] (ws0 ex_fs)) ex_srv"
proof -
  let ?s0 = "initSockets [(''8080'', Bound 3)] (ws0 ex_fs)"
  let ?s1 = "acceptConnection ''8080'' 5 ?s0"
  have a: "ws_step resp ?s0 ?s1"
    by (rule ws_step.accept [where i = 0]) (simp_all add: ws0_def addPfd_def sm_insert_def)
  have b: "ws_step resp ?s1 (acceptConnection ''8080'' 7 ?s1)"
    by (rule ws_step.accept [where i = 0])
       (simp_all add: ws0_def addPfd_def sm_insert_def acceptConnection_def)
  have c: "acceptConnection ''8080'' 7 ?s1 = ex_srv"
    by (simp add: ex_srv_def acceptConnection_def addPfd_def ws0_def sm_insert_def)
  from a b have "(ws_step resp)\<^sup>*\<^sup>* ?s0 (acceptConnection ''8080'' 7 ?s1)"
    by (rule converse_rtranclp_into_rtranclp [OF _ r_into_rtranclp])
  then show ?thesis by (simp only: c)
qed

subsection \<open>Properties that span the components\<close>

text \<open>Claim C12.  With \<open>MethodIO\<close> as its adaptor, the event loop never stops on a
  request error: every \<open>RequestException\<close> is answered by the pipeline, so the only
  errors that leave \<open>WebServer::loop\<close> are crashes.\<close>

theorem loop_no_request_error:
  "loop (getMessageToSend e servers) its s \<noteq> Inl (RequestException m c)"
proof
  assume "loop (getMessageToSend e servers) its s = Inl (RequestException m c)"
  from loop_Inl [OF this] obtain b p w w'
    where "getMessageToSend e servers b p w = (Inl (RequestException m c), w')" by auto
  then have "fst (getMessageToSend e servers b p w) = Inl (RequestException m c)" by simp
  with getMessageToSend_no_request_error show False by blast
qed





end
